(* ===== verification/Prelude.thy ===== *)
theory Prelude
  imports Complex_Main
begin

text \<open>
  Shared vocabulary of the development: the theorem collections the component
  theories add to, results that are either an error or a value, JSON-like data
  (the dictionaries the code passes around), and list lemmas several components
  use.
\<close>

named_theorems py_simps \<open>evaluation rules of the modelled Python primitives\<close>
named_theorems wf_intros \<open>introduction rules of well-formedness predicates\<close>
named_theorems inv_intros \<open>preservation rules of state invariants\<close>

section \<open>Results\<close>

text \<open>
  A Python call that may raise is a value of \<open>'e + 'a\<close>: \<open>Inl e\<close> is the exception that
  leaves the call, \<open>Inr a\<close> its return value.  \<open>bindE\<close> sequences two such calls, the
  second running only if the first returned.
\<close>

definition bindE :: "'e + 'a \<Rightarrow> ('a \<Rightarrow> 'e + 'b) \<Rightarrow> 'e + 'b" where
  "bindE r f = (case r of Inl e \<Rightarrow> Inl e | Inr a \<Rightarrow> f a)"

lemma bindE_simps [simp]:
  "bindE (Inl e) f = Inl e"
  "bindE (Inr a) f = f a"
  by (simp_all add: bindE_def)

lemma bindE_Inr_iff: "bindE r f = Inr b \<longleftrightarrow> (\<exists>a. r = Inr a \<and> f a = Inr b)"
  by (cases r) auto

lemma bindE_Inl_iff: "bindE r f = Inl e \<longleftrightarrow> r = Inl e \<or> (\<exists>a. r = Inr a \<and> f a = Inl e)"
  by (cases r) auto

section \<open>JSON-like data\<close>

text \<open>
  Dictionaries and lists that the code builds, stores in JSON columns or serialises.
  A dictionary is its list of items in insertion order, as Python keeps it.
\<close>

datatype json =
    JNull
  | JBool bool
  | JInt int
  | JReal real
  | JStr string
  | JArr "json list"
  | JObj "(string \<times> json) list"

text \<open>Python's truth value of such data.\<close>

fun truthy :: "json \<Rightarrow> bool" where
  "truthy JNull = False"
| "truthy (JBool b) = b"
| "truthy (JInt i) = (i \<noteq> 0)"
| "truthy (JReal r) = (r \<noteq> 0)"
| "truthy (JStr s) = (s \<noteq> [])"
| "truthy (JArr xs) = (xs \<noteq> [])"
| "truthy (JObj d) = (d \<noteq> [])"

definition jget :: "string \<Rightarrow> (string \<times> json) list \<Rightarrow> json option" where
  "jget k d = map_of d k"

section \<open>Keeping first occurrences\<close>

text \<open>
  The loop \<open>if key in seen: continue; seen.add(key); out.append(x)\<close>, which several
  components run: elements whose key was not seen before, in order.
\<close>

fun dedup_by :: "('a \<Rightarrow> 'k) \<Rightarrow> 'k list \<Rightarrow> 'a list \<Rightarrow> 'a list" where
  "dedup_by key seen [] = []"
| "dedup_by key seen (x # xs) =
     (if key x \<in> set seen then dedup_by key seen xs
      else x # dedup_by key (key x # seen) xs)"

lemma dedup_by_subset: "set (dedup_by key seen xs) \<subseteq> set xs"
  by (induction key seen xs rule: dedup_by.induct) auto

lemma dedup_by_keys: "key ` set (dedup_by key seen xs) = key ` set xs - set seen"
  by (induction key seen xs rule: dedup_by.induct) auto

lemma dedup_by_distinct: "distinct (map key (dedup_by key seen xs))"
proof (induction key seen xs rule: dedup_by.induct)
  case (2 key seen x xs)
  then show ?case
    using dedup_by_keys [of key "key x # seen" xs] by auto
qed simp

section \<open>First result of a search\<close>

fun find_map :: "('a \<Rightarrow> 'b option) \<Rightarrow> 'a list \<Rightarrow> 'b option" where
  "find_map f [] = None"
| "find_map f (x # xs) = (case f x of None \<Rightarrow> find_map f xs | Some y \<Rightarrow> Some y)"

lemma find_map_None: "find_map f xs = None \<longleftrightarrow> (\<forall>x\<in>set xs. f x = None)"
  by (induction xs) (auto split: option.splits)

lemma find_map_Some: "find_map f xs = Some y \<Longrightarrow> \<exists>x\<in>set xs. f x = Some y"
  by (induction xs) (auto split: option.splits)

lemma find_map_append:
  "find_map f (xs @ ys) = (case find_map f xs of None \<Rightarrow> find_map f ys | Some y \<Rightarrow> Some y)"
  by (induction xs) (auto split: option.splits)

lemma find_map_concat_map:
  "find_map f (concat (map g xs)) = find_map (\<lambda>x. find_map f (g x)) xs"
  by (induction xs) (auto simp: find_map_append split: option.splits)

lemma find_map_hd: "find_map Some xs = (case xs of [] \<Rightarrow> None | x # _ \<Rightarrow> Some x)"
  by (cases xs) auto

section \<open>Filtering and mapping in one pass\<close>

lemma map_filter_set: "y \<in> set (List.map_filter f xs) \<longleftrightarrow> (\<exists>x\<in>set xs. f x = Some y)"
  by (induction xs) (auto simp: List.map_filter_simps split: option.splits)

end
