(* ===== verification/PyStr.thy ===== *)
theory PyStr
  imports Prelude "HOL-Library.Sublist"
begin

text \<open>
  The methods of Python's \<open>str\<close> that the code calls.  A string is a list of
  characters; text is ASCII (code points 0 to 127), where Python's case mapping and
  character classes are the tables below.  Every separator and every \<open>old\<close> argument
  of \<open>replace\<close> in the code is a non-empty literal.
\<close>

section \<open>Characters\<close>

abbreviation ord_of :: "char \<Rightarrow> int" where
  "ord_of c \<equiv> of_char c"

definition is_upper :: "char \<Rightarrow> bool" where
  "is_upper c \<longleftrightarrow> 65 \<le> ord_of c \<and> ord_of c \<le> 90"

definition is_lower :: "char \<Rightarrow> bool" where
  "is_lower c \<longleftrightarrow> 97 \<le> ord_of c \<and> ord_of c \<le> 122"

definition is_digit :: "char \<Rightarrow> bool" where
  "is_digit c \<longleftrightarrow> 48 \<le> ord_of c \<and> ord_of c \<le> 57"

definition is_letter :: "char \<Rightarrow> bool" where
  "is_letter c \<longleftrightarrow> is_upper c \<or> is_lower c"

definition is_alnum :: "char \<Rightarrow> bool" where
  "is_alnum c \<longleftrightarrow> is_letter c \<or> is_digit c"

definition is_space :: "char \<Rightarrow> bool" where
  "is_space c \<longleftrightarrow> (9 \<le> ord_of c \<and> ord_of c \<le> 13) \<or> (28 \<le> ord_of c \<and> ord_of c \<le> 32)"

definition is_hex :: "char \<Rightarrow> bool" where
  "is_hex c \<longleftrightarrow> is_digit c \<or> (97 \<le> ord_of c \<and> ord_of c \<le> 102)
                  \<or> (65 \<le> ord_of c \<and> ord_of c \<le> 70)"

text \<open>The class \<open>\w\<close> of the \<open>re\<close> module.\<close>

definition is_word :: "char \<Rightarrow> bool" where
  "is_word c \<longleftrightarrow> is_alnum c \<or> c = CHR ''_''"

definition lower_char :: "char \<Rightarrow> char" where
  "lower_char c = (if is_upper c then char_of (ord_of c + 32) else c)"

definition upper_char :: "char \<Rightarrow> char" where
  "upper_char c = (if is_lower c then char_of (ord_of c - 32) else c)"

lemmas char_class_defs =
  is_upper_def is_lower_def is_digit_def is_letter_def is_alnum_def is_space_def
  is_hex_def is_word_def

lemma ord_of_lower: "ord_of (lower_char c) = (if is_upper c then ord_of c + 32 else ord_of c)"
  by (auto simp: lower_char_def is_upper_def of_char_of take_bit_eq_mod)

lemma ord_of_upper: "ord_of (upper_char c) = (if is_lower c then ord_of c - 32 else ord_of c)"
  by (auto simp: upper_char_def is_lower_def of_char_of take_bit_eq_mod)

lemma lower_char_idem [simp]: "lower_char (lower_char c) = lower_char c"
proof -
  have "\<not> is_upper (lower_char c)"
    unfolding is_upper_def ord_of_lower by auto
  then show ?thesis by (simp add: lower_char_def [of "lower_char c"])
qed

lemma upper_char_idem [simp]: "upper_char (upper_char c) = upper_char c"
proof -
  have "\<not> is_lower (upper_char c)"
    unfolding is_lower_def ord_of_upper by auto
  then show ?thesis by (simp add: upper_char_def [of "upper_char c"])
qed

lemma lower_char_classes [simp]:
  "is_digit (lower_char c) = is_digit c"
  "is_letter (lower_char c) = is_letter c"
  "is_space (lower_char c) = is_space c"
  "is_hex (lower_char c) = is_hex c"
  "\<not> is_upper (lower_char c)"
  by (auto simp: char_class_defs ord_of_lower)

lemma upper_char_classes [simp]:
  "is_digit (upper_char c) = is_digit c"
  "is_letter (upper_char c) = is_letter c"
  "is_space (upper_char c) = is_space c"
  "is_hex (upper_char c) = is_hex c"
  by (auto simp: char_class_defs ord_of_upper)

lemma lower_char_fix: "\<not> is_letter c \<Longrightarrow> lower_char d = c \<longleftrightarrow> d = c"
  by (metis is_letter_def lower_char_classes(2) lower_char_def)

lemma upper_char_fix: "\<not> is_letter c \<Longrightarrow> upper_char d = c \<longleftrightarrow> d = c"
  by (metis is_letter_def upper_char_classes(2) upper_char_def)

section \<open>Case, stripping, prefixes\<close>

definition py_lower :: "string \<Rightarrow> string" where
  "py_lower s = map lower_char s"

definition py_upper :: "string \<Rightarrow> string" where
  "py_upper s = map upper_char s"

definition lstrip_by :: "(char \<Rightarrow> bool) \<Rightarrow> string \<Rightarrow> string" where
  "lstrip_by p s = dropWhile p s"

definition rstrip_by :: "(char \<Rightarrow> bool) \<Rightarrow> string \<Rightarrow> string" where
  "rstrip_by p s = rev (dropWhile p (rev s))"

definition py_strip :: "string \<Rightarrow> string" where
  "py_strip s = rstrip_by is_space (lstrip_by is_space s)"

definition startswith :: "string \<Rightarrow> string \<Rightarrow> bool" where
  "startswith s p = prefix p s"

definition endswith :: "string \<Rightarrow> string \<Rightarrow> bool" where
  "endswith s p = suffix p s"

definition py_isalpha :: "string \<Rightarrow> bool" where
  "py_isalpha s \<longleftrightarrow> s \<noteq> [] \<and> list_all is_letter s"

definition py_isdigit :: "string \<Rightarrow> bool" where
  "py_isdigit s \<longleftrightarrow> s \<noteq> [] \<and> list_all is_digit s"

text \<open>\<open>sub in s\<close> for strings.\<close>

fun py_in :: "string \<Rightarrow> string \<Rightarrow> bool" where
  "py_in sub [] = (sub = [])"
| "py_in sub (c # cs) = (prefix sub (c # cs) \<or> py_in sub cs)"

lemma py_in_iff: "py_in sub s \<longleftrightarrow> (\<exists>u v. s = u @ sub @ v)"
proof (induction s)
  case (Cons c cs)
  then show ?case
    by (auto simp: prefix_def Cons_eq_append_conv)
qed auto

definition py_count :: "char \<Rightarrow> string \<Rightarrow> nat" where
  "py_count c s = count_list s c"

lemma length_lower [simp]: "length (py_lower s) = length s"
  by (simp add: py_lower_def)

lemma length_upper [simp]: "length (py_upper s) = length s"
  by (simp add: py_upper_def)

lemma lower_idem [simp]: "py_lower (py_lower s) = py_lower s"
  by (simp add: py_lower_def)

lemma upper_idem [simp]: "py_upper (py_upper s) = py_upper s"
  by (simp add: py_upper_def)

lemma lower_append: "py_lower (s @ t) = py_lower s @ py_lower t"
  by (simp add: py_lower_def)

lemma lower_Nil [simp]: "py_lower s = [] \<longleftrightarrow> s = []"
  by (simp add: py_lower_def)

lemma rstrip_id: "rstrip_by p s = s \<longleftrightarrow> s = [] \<or> \<not> p (last s)"
proof -
  have "rstrip_by p s = s \<longleftrightarrow> dropWhile p (rev s) = rev s"
    unfolding rstrip_by_def by (metis rev_rev_ident)
  then show ?thesis
    by (simp add: dropWhile_eq_self_iff hd_rev)
qed

lemma lstrip_id: "lstrip_by p s = s \<longleftrightarrow> s = [] \<or> \<not> p (hd s)"
  by (auto simp: lstrip_by_def dropWhile_eq_self_iff)

lemma rstrip_last: "rstrip_by p s \<noteq> [] \<Longrightarrow> \<not> p (last (rstrip_by p s))"
  using hd_dropWhile [of p "rev s"] by (simp add: rstrip_by_def last_rev)

lemma set_rstrip: "set (rstrip_by p s) \<subseteq> set s"
  by (auto simp: rstrip_by_def dest: set_dropWhileD)

lemma set_lstrip: "set (lstrip_by p s) \<subseteq> set s"
  by (auto simp: lstrip_by_def dest: set_dropWhileD)

lemma rstrip_prefix: "prefix (rstrip_by p s) s"
proof -
  have "s = rstrip_by p s @ rev (takeWhile p (rev s))"
    unfolding rstrip_by_def rev_append [symmetric] by simp
  then show ?thesis by (rule prefixI)
qed

lemma hd_rstrip: "rstrip_by p s \<noteq> [] \<Longrightarrow> hd (rstrip_by p s) = hd s"
  using rstrip_prefix [of p s] by (metis hd_append2 prefix_def)

lemma strip_hd: "py_strip s \<noteq> [] \<Longrightarrow> \<not> is_space (hd (py_strip s))"
  unfolding py_strip_def
proof -
  assume ne: "rstrip_by is_space (lstrip_by is_space s) \<noteq> []"
  then have "lstrip_by is_space s \<noteq> []" by (auto simp: rstrip_by_def)
  then have "\<not> is_space (hd (lstrip_by is_space s))"
    unfolding lstrip_by_def by (rule hd_dropWhile)
  then show "\<not> is_space (hd (rstrip_by is_space (lstrip_by is_space s)))"
    by (simp add: hd_rstrip [OF ne])
qed

lemma strip_last: "py_strip s \<noteq> [] \<Longrightarrow> \<not> is_space (last (py_strip s))"
  unfolding py_strip_def by (rule rstrip_last)

lemma strip_id:
  "s = [] \<or> (\<not> is_space (hd s) \<and> \<not> is_space (last s)) \<Longrightarrow> py_strip s = s"
  by (metis lstrip_id rstrip_id py_strip_def)

lemma strip_idem [simp]: "py_strip (py_strip s) = py_strip s"
  using strip_hd strip_last strip_id by blast

lemma strip_no_space: "(\<forall>c\<in>set s. \<not> is_space c) \<Longrightarrow> py_strip s = s"
  by (rule strip_id) auto

lemma set_strip: "set (py_strip s) \<subseteq> set s"
  using set_rstrip set_lstrip unfolding py_strip_def by blast

section \<open>Splitting and joining at a character\<close>

text \<open>\<open>s.partition(c)\<close> and \<open>s.rpartition(c)\<close> without the middle component.\<close>

definition before :: "char \<Rightarrow> string \<Rightarrow> string" where
  "before c s = takeWhile (\<lambda>x. x \<noteq> c) s"

definition after :: "char \<Rightarrow> string \<Rightarrow> string" where
  "after c s = tl (dropWhile (\<lambda>x. x \<noteq> c) s)"

definition before_last :: "char \<Rightarrow> string \<Rightarrow> string" where
  "before_last c s = rev (after c (rev s))"

definition after_last :: "char \<Rightarrow> string \<Rightarrow> string" where
  "after_last c s = rev (before c (rev s))"

text \<open>\<open>s.split(c)\<close>.\<close>

fun split_on :: "char \<Rightarrow> string \<Rightarrow> string list" where
  "split_on c [] = [[]]"
| "split_on c (x # xs) =
     (if x = c then [] # split_on c xs
      else (x # hd (split_on c xs)) # tl (split_on c xs))"

fun join_with :: "string \<Rightarrow> string list \<Rightarrow> string" where
  "join_with sep [] = []"
| "join_with sep [x] = x"
| "join_with sep (x # y # xs) = x @ sep @ join_with sep (y # xs)"

lemma split_on_nonempty [simp]: "split_on c s \<noteq> []"
  by (cases s) auto

lemma join_split: "join_with [c] (split_on c s) = s"
proof (induction s)
  case (Cons x xs)
  then show ?case
    by (cases "split_on c xs"; cases "tl (split_on c xs)") auto
qed simp

lemma split_on_no_sep: "p \<in> set (split_on c s) \<Longrightarrow> c \<notin> set p"
proof (induction s arbitrary: p)
  case (Cons x xs)
  have "hd (split_on c xs) \<in> set (split_on c xs)" by simp
  moreover have "\<And>q. q \<in> set (tl (split_on c xs)) \<Longrightarrow> q \<in> set (split_on c xs)"
    by (rule list.set_sel(2)) simp_all
  ultimately show ?case using Cons by (auto split: if_splits)
qed simp

lemma length_split_on: "length (split_on c s) = Suc (count_list s c)"
proof (induction s)
  case (Cons x xs)
  then show ?case by (cases "split_on c xs") auto
qed simp

lemma split_on_single: "c \<notin> set s \<Longrightarrow> split_on c s = [s]"
  by (induction s) auto

lemma split_on_append:
  "c \<notin> set u \<Longrightarrow> split_on c (u @ c # v) = u # split_on c v"
  by (induction u) auto

lemma set_split_on: "x \<in> set s \<Longrightarrow> x = c \<or> (\<exists>l\<in>set (split_on c s). x \<in> set l)"
proof (induction s)
  case (Cons y s)
  then show ?case by (cases "split_on c s") auto
qed simp

lemma split_on_labels:
  "\<forall>l\<in>set ls. c \<notin> set l \<Longrightarrow> c \<notin> set t \<Longrightarrow>
     split_on c (concat (map (\<lambda>l. l @ [c]) ls) @ t) = ls @ [t]"
  by (induction ls) (simp_all add: split_on_append split_on_single)

lemma labels_split_on:
  "s = concat (map (\<lambda>l. l @ [c]) (butlast (split_on c s))) @ last (split_on c s)"
proof -
  have "join_with [c] xs = concat (map (\<lambda>l. l @ [c]) (butlast xs)) @ last xs" if "xs \<noteq> []" for xs
    using that by (induction xs rule: induct_list012) auto
  then show ?thesis by (metis join_split split_on_nonempty)
qed

lemma before_subset: "set (before c s) \<subseteq> set s"
  by (auto simp: before_def dest: set_takeWhileD)

lemma before_append: "c \<notin> set u \<Longrightarrow> before c (u @ c # v) = u"
  by (induction u) (auto simp: before_def)

lemma after_append: "c \<notin> set u \<Longrightarrow> after c (u @ c # v) = v"
  by (induction u) (auto simp: after_def)

lemma before_last_append: "c \<notin> set v \<Longrightarrow> before_last c (u @ c # v) = u"
  using after_append [of c "rev v" "rev u"] by (simp add: before_last_def)

lemma after_last_append: "c \<notin> set v \<Longrightarrow> after_last c (u @ c # v) = v"
  using before_append [of c "rev v" "rev u"] by (simp add: after_last_def)

lemma before_after: "c \<in> set s \<Longrightarrow> s = before c s @ c # after c s"
  by (metis after_append before_append split_list_first)

lemma before_after_last: "c \<in> set s \<Longrightarrow> s = before_last c s @ c # after_last c s"
  by (metis after_last_append before_last_append split_list_last)

lemma before_absent: "c \<notin> set s \<Longrightarrow> before c s = s"
  by (induction s) (auto simp: before_def)

section \<open>Numbers\<close>

definition digit_val :: "char \<Rightarrow> int" where
  "digit_val c = ord_of c - 48"

definition hex_val :: "char \<Rightarrow> int" where
  "hex_val c = (if is_digit c then ord_of c - 48
                else if ord_of c \<ge> 97 then ord_of c - 87 else ord_of c - 55)"

definition int_of_digits :: "string \<Rightarrow> int" where
  "int_of_digits s = foldl (\<lambda>n c. 10 * n + digit_val c) 0 s"

definition int_of_hex :: "string \<Rightarrow> int" where
  "int_of_hex s = foldl (\<lambda>n c. 16 * n + hex_val c) 0 s"

definition digit_char :: "int \<Rightarrow> char" where
  "digit_char n = (if n < 10 then char_of (48 + n) else char_of (87 + n))"

text \<open>\<open>str(n)\<close> in base 10 and \<open>'%x' % n\<close> in base 16, for \<open>n \<ge> 0\<close>; \<open>show_int\<close> adds the sign.\<close>

function show_base :: "int \<Rightarrow> int \<Rightarrow> string" where
  "show_base b n = (if b < 2 \<or> n < b then [digit_char n]
                    else show_base b (n div b) @ [digit_char (n mod b)])"
  by pat_completeness auto
termination
proof (relation "measure (\<lambda>(b, n). nat n)")
  fix b n :: int
  assume "\<not> (b < 2 \<or> n < b)"
  then have "0 < n" "1 < b" by auto
  then have "n div b < n" by (rule int_div_less_self)
  with \<open>0 < n\<close> show "((b, n div b), b, n) \<in> measure (\<lambda>(b, n). nat n)" by auto
qed simp

declare show_base.simps [simp del]

definition show_int :: "int \<Rightarrow> string" where
  "show_int i = (if i < 0 then CHR ''-'' # show_base 10 (- i) else show_base 10 i)"

definition show_hex :: "int \<Rightarrow> string" where
  "show_hex n = show_base 16 n"

section \<open>Replacement\<close>

text \<open>
  \<open>s.replace(old, new)\<close> and \<open>re.sub(re.escape(old), new, s, flags=re.IGNORECASE)\<close>:
  both scan left to right and replace non-overlapping occurrences, and differ in how
  a character of \<open>old\<close> is compared with one of the text.
\<close>

fun at_prefix :: "(char \<Rightarrow> char \<Rightarrow> bool) \<Rightarrow> string \<Rightarrow> string \<Rightarrow> bool" where
  "at_prefix eq [] s = True"
| "at_prefix eq (x # xs) [] = False"
| "at_prefix eq (x # xs) (y # ys) = (eq x y \<and> at_prefix eq xs ys)"

function sub_with :: "(char \<Rightarrow> char \<Rightarrow> bool) \<Rightarrow> string \<Rightarrow> string \<Rightarrow> string \<Rightarrow> string" where
  "sub_with eq old new [] = []"
| "sub_with eq old new (c # cs) =
     (if old \<noteq> [] \<and> at_prefix eq old (c # cs)
      then new @ sub_with eq old new (drop (length old) (c # cs))
      else c # sub_with eq old new cs)"
  by pat_completeness auto
termination
  by (relation "measure (\<lambda>(eq, old, new, s). length s)") (auto simp: neq_Nil_conv)

definition py_replace :: "string \<Rightarrow> string \<Rightarrow> string \<Rightarrow> string" where
  "py_replace old new s = sub_with (=) old new s"

definition ci_eq :: "char \<Rightarrow> char \<Rightarrow> bool" where
  "ci_eq a b \<longleftrightarrow> lower_char a = lower_char b"

definition re_sub_ci :: "string \<Rightarrow> string \<Rightarrow> string \<Rightarrow> string" where
  "re_sub_ci old new s = sub_with ci_eq old new s"

fun occurs :: "(char \<Rightarrow> char \<Rightarrow> bool) \<Rightarrow> string \<Rightarrow> string \<Rightarrow> bool" where
  "occurs eq t [] = (t = [])"
| "occurs eq t (c # cs) = (at_prefix eq t (c # cs) \<or> occurs eq t cs)"

lemma upper_eq_iff_ci: "upper_char c = upper_char d \<longleftrightarrow> ci_eq c d"
proof -
  have "lower_char (upper_char c) = lower_char c" for c
    by (rule injD [OF inj_of_char [where 'a = int]]) (simp add: ord_of_lower ord_of_upper is_upper_def is_lower_def)
  moreover have "upper_char (lower_char c) = upper_char c" for c
    by (rule injD [OF inj_of_char [where 'a = int]]) (simp add: ord_of_lower ord_of_upper is_upper_def is_lower_def)
  ultimately show ?thesis unfolding ci_eq_def by metis
qed

lemma at_prefix_Nil [simp]: "at_prefix eq t [] \<longleftrightarrow> t = []"
  by (cases t) auto

lemma at_prefix_append: "at_prefix eq t s \<Longrightarrow> at_prefix eq t (s @ u)"
  by (induction eq t s rule: at_prefix.induct) auto

lemma at_prefix_chars: "at_prefix eq t s \<Longrightarrow> x \<in> set t \<Longrightarrow> \<exists>y\<in>set s. eq x y"
  by (induction eq t s rule: at_prefix.induct) auto

lemma at_prefix_eq: "at_prefix (=) t s \<longleftrightarrow> prefix t s"
  by (induction "(=) :: char \<Rightarrow> char \<Rightarrow> bool" t s rule: at_prefix.induct) auto

lemma occurs_chars: "occurs eq t s \<Longrightarrow> x \<in> set t \<Longrightarrow> \<exists>y\<in>set s. eq x y"
proof (induction s)
  case (Cons c cs)
  then show ?case
    using at_prefix_chars [of eq t "c # cs" x] by auto
qed simp

lemma occurs_append1: "occurs eq t s \<Longrightarrow> occurs eq t (s @ u)"
proof (induction s)
  case Nil
  then show ?case by (cases u) auto
next
  case (Cons c cs)
  then show ?case using at_prefix_append [of eq t "c # cs" u] by auto
qed

lemma occurs_append2: "occurs eq t s \<Longrightarrow> occurs eq t (u @ s)"
  by (induction u) auto

lemma occurs_at_prefix: "at_prefix eq t s \<Longrightarrow> occurs eq t s"
  by (cases s) auto

lemma occurs_strip: "occurs eq t (py_strip s) \<Longrightarrow> occurs eq t s"
proof -
  assume *: "occurs eq t (py_strip s)"
  obtain v where v: "lstrip_by is_space s = py_strip s @ v"
    using rstrip_prefix [of is_space "lstrip_by is_space s"]
    by (auto simp: py_strip_def prefix_def)
  have "s = takeWhile is_space s @ lstrip_by is_space s"
    by (simp add: lstrip_by_def)
  then show ?thesis
    using * v occurs_append1 occurs_append2 by metis
qed

lemma sub_with_id: "\<not> occurs eq old s \<Longrightarrow> sub_with eq old new s = s"
  by (induction s) auto

text \<open>
  \<open>blocks eq t new\<close>: no occurrence of \<open>t\<close> starts inside an inserted \<open>new\<close>, whatever
  follows it, and \<open>t\<close> cannot run into the start of one.  Then replacing by \<open>new\<close>
  creates no occurrence of \<open>t\<close>.
\<close>

definition blocks :: "(char \<Rightarrow> char \<Rightarrow> bool) \<Rightarrow> string \<Rightarrow> string \<Rightarrow> bool" where
  "blocks eq t new \<longleftrightarrow> new \<noteq> [] \<and> (\<forall>x\<in>set (tl t). \<not> eq x (hd new)) \<and>
     (\<forall>i<length new. \<forall>r. \<not> at_prefix eq t (drop i new @ r))"

lemma at_prefix_sub:
  assumes "new \<noteq> []" "\<forall>x\<in>set t. \<not> eq x (hd new)" "at_prefix eq t (sub_with eq' old new s)"
  shows "at_prefix eq t s"
  using assms
proof (induction eq' old new s arbitrary: t rule: sub_with.induct)
  case (2 eq' old new c cs)
  show ?case
  proof (cases t)
    case (Cons x xs)
    show ?thesis
    proof (cases "old \<noteq> [] \<and> at_prefix eq' old (c # cs)")
      case True
      with 2 Cons show ?thesis by (cases new) auto
    next
      case False
      with 2 Cons show ?thesis by auto
    qed
  qed simp
qed simp

lemma occurs_prepend:
  assumes "\<not> occurs eq t r" "\<forall>i<length u. \<not> at_prefix eq t (drop i u @ r)"
  shows "\<not> occurs eq t (u @ r)"
  using assms
proof (induction u)
  case (Cons c cs)
  have "\<not> at_prefix eq t (drop i cs @ r)" if "i < length cs" for i
    using Cons.prems(2) [rule_format, of "Suc i"] that by simp
  with Cons have "\<not> occurs eq t (cs @ r)" by blast
  moreover have "\<not> at_prefix eq t ((c # cs) @ r)"
    using Cons.prems(2) [rule_format, of 0] by simp
  ultimately show ?case by simp
qed simp

lemma sub_with_no_new:
  assumes b: "blocks eq t new" and t: "t \<noteq> []" and n: "\<not> occurs eq t s"
  shows "\<not> occurs eq t (sub_with eq' old new s)"
  using n b
proof (induction eq' old new s rule: sub_with.induct)
  case (1 eq' old new)
  with t show ?case by simp
next
  case (2 eq' old new c cs)
  show ?case
  proof (cases "old \<noteq> [] \<and> at_prefix eq' old (c # cs)")
    case True
    let ?r = "drop (length old) (c # cs)"
    have "\<not> occurs eq t ?r"
      using 2(3) occurs_append2 [of eq t ?r "take (length old) (c # cs)"] by fastforce
    with 2 True have "\<not> occurs eq t (sub_with eq' old new ?r)" by blast
    with 2(4) True show ?thesis
      by (simp add: blocks_def occurs_prepend)
  next
    case False
    with 2 have r: "\<not> occurs eq t (sub_with eq' old new cs)" by simp
    have "\<not> at_prefix eq t (c # sub_with eq' old new cs)"
    proof
      assume a: "at_prefix eq t (c # sub_with eq' old new cs)"
      from t obtain x xs where x: "t = x # xs" by (cases t) auto
      with a 2(4) at_prefix_sub [of new xs eq eq' old cs] have "at_prefix eq t (c # cs)"
        by (simp add: blocks_def)
      with 2(3) show False by simp
    qed
    with r False show ?thesis by auto
  qed
qed

lemma sub_with_removes:
  assumes b: "blocks eq old new" and t: "old \<noteq> []"
  shows "\<not> occurs eq old (sub_with eq old new s)"
  using b t
proof (induction eq old new s rule: sub_with.induct)
  case (2 eq old new c cs)
  show ?case
  proof (cases "at_prefix eq old (c # cs)")
    case True
    with 2 have "\<not> occurs eq old (sub_with eq old new (drop (length old) (c # cs)))"
      by blast
    with 2(3,4) True show ?thesis by (simp add: blocks_def occurs_prepend)
  next
    case False
    with 2 have r: "\<not> occurs eq old (sub_with eq old new cs)" by blast
    have "\<not> at_prefix eq old (c # sub_with eq old new cs)"
    proof
      assume a: "at_prefix eq old (c # sub_with eq old new cs)"
      from 2(4) obtain x xs where x: "old = x # xs" by (cases old) auto
      with a 2(3) at_prefix_sub [of new xs eq eq old cs] have "at_prefix eq old (c # cs)"
        by (simp add: blocks_def)
      with False show False by simp
    qed
    with r False show ?thesis by simp
  qed
qed simp

text \<open>Replacing a single character.\<close>

lemma replace_char: "py_replace [c] new s = concat (map (\<lambda>x. if x = c then new else [x]) s)"
  unfolding py_replace_def by (induction s) auto

end
