(* ===== verification/PyRegex.thy ===== *)
theory PyRegex
  imports PyStr
begin

text \<open>
  The fragment of Python's \<open>re\<close> module the code uses, as a backtracking matcher.  A
  \<open>cursor\<close> is the text consumed so far (reversed) and the text that remains.  \<open>runs r c\<close>
  lists the cursors at which a match of \<open>r\<close> from \<open>c\<close> may end, in the order in which the
  engine tries them: the first is the match Python reports.  \<open>first_run\<close> finds that
  one lazily, by continuations, as the engine does, and \<open>first_run_hd\<close> shows it is the head of \<open>runs\<close>.
\<close>

type_synonym cursor = "string \<times> string"

datatype re =
    Cls "char \<Rightarrow> bool"
  | Eps
  | Seq re re
  | Alt re re
  | Rep nat "nat option" re
  | WordB
  | Bol
  | Eol
  | Ahead re
  | NotAhead re

text \<open>
  Greedy repetition: at least \<open>mn\<close> rounds and at most \<open>k\<close>, more rounds first.  Every
  repeated body in the code consumes a character, so without an upper bound \<open>mn\<close> plus
  the remaining length is as good as infinity.
\<close>

fun greedy :: "(cursor \<Rightarrow> cursor list) \<Rightarrow> nat \<Rightarrow> nat \<Rightarrow> cursor \<Rightarrow> cursor list" where
  "greedy f mn 0 c = (if mn = 0 then [c] else [])"
| "greedy f mn (Suc k) c =
     concat (map (greedy f (mn - 1) k) (f c)) @ (if mn = 0 then [c] else [])"

definition rounds :: "nat \<Rightarrow> nat option \<Rightarrow> cursor \<Rightarrow> nat" where
  "rounds mn mx c = (case mx of Some k \<Rightarrow> k | None \<Rightarrow> mn + length (snd c))"

text \<open>\<open>\b\<close>: exactly one of the two neighbouring characters is a word character.\<close>

definition at_word_boundary :: "cursor \<Rightarrow> bool" where
  "at_word_boundary c \<longleftrightarrow>
     (fst c \<noteq> [] \<and> is_word (hd (fst c))) \<noteq> (snd c \<noteq> [] \<and> is_word (hd (snd c)))"

text \<open>\<open>$\<close> without \<open>MULTILINE\<close>: at the end, or before a final newline.\<close>

definition at_end :: "cursor \<Rightarrow> bool" where
  "at_end c \<longleftrightarrow> snd c = [] \<or> snd c = [CHR 0x0A]"

primrec runs :: "re \<Rightarrow> cursor \<Rightarrow> cursor list" where
  "runs (Cls p) c =
     (case snd c of [] \<Rightarrow> [] | x # xs \<Rightarrow> if p x then [(x # fst c, xs)] else [])"
| "runs Eps c = [c]"
| "runs (Seq a b) c = concat (map (runs b) (runs a c))"
| "runs (Alt a b) c = runs a c @ runs b c"
| "runs (Rep mn mx r) c = greedy (runs r) mn (rounds mn mx c) c"
| "runs WordB c = (if at_word_boundary c then [c] else [])"
| "runs Bol c = (if fst c = [] then [c] else [])"
| "runs Eol c = (if at_end c then [c] else [])"
| "runs (Ahead r) c = (if runs r c = [] then [] else [c])"
| "runs (NotAhead r) c = (if runs r c = [] then [c] else [])"

definition first_match :: "re \<Rightarrow> cursor \<Rightarrow> cursor option" where
  "first_match r c = (case runs r c of [] \<Rightarrow> None | c' # _ \<Rightarrow> Some c')"

text \<open>\<open>pattern.match(s)\<close> as a truth value.\<close>

definition re_match :: "re \<Rightarrow> string \<Rightarrow> bool" where
  "re_match r s \<longleftrightarrow> first_match r ([], s) \<noteq> None"

section \<open>The lazy engine\<close>

fun greedy_k :: "((cursor \<Rightarrow> cursor option) \<Rightarrow> cursor \<Rightarrow> cursor option) \<Rightarrow> nat \<Rightarrow> nat \<Rightarrow>
    (cursor \<Rightarrow> cursor option) \<Rightarrow> cursor \<Rightarrow> cursor option" where
  "greedy_k f mn 0 k c = (if mn = 0 then k c else None)"
| "greedy_k f mn (Suc n) k c =
     (case f (greedy_k f (mn - 1) n k) c of
        Some c' \<Rightarrow> Some c'
      | None \<Rightarrow> (if mn = 0 then k c else None))"

primrec first_run :: "re \<Rightarrow> (cursor \<Rightarrow> cursor option) \<Rightarrow> cursor \<Rightarrow> cursor option" where
  "first_run (Cls p) k c =
     (case snd c of [] \<Rightarrow> None | x # xs \<Rightarrow> if p x then k (x # fst c, xs) else None)"
| "first_run Eps k c = k c"
| "first_run (Seq a b) k c = first_run a (first_run b k) c"
| "first_run (Alt a b) k c =
     (case first_run a k c of Some c' \<Rightarrow> Some c' | None \<Rightarrow> first_run b k c)"
| "first_run (Rep mn mx r) k c = greedy_k (first_run r) mn (rounds mn mx c) k c"
| "first_run WordB k c = (if at_word_boundary c then k c else None)"
| "first_run Bol k c = (if fst c = [] then k c else None)"
| "first_run Eol k c = (if at_end c then k c else None)"
| "first_run (Ahead r) k c = (case first_run r Some c of None \<Rightarrow> None | Some _ \<Rightarrow> k c)"
| "first_run (NotAhead r) k c = (case first_run r Some c of None \<Rightarrow> k c | Some _ \<Rightarrow> None)"

lemma greedy_k_find:
  "greedy_k (\<lambda>k c. find_map k (g c)) mn n k c = find_map k (greedy g mn n c)"
proof (induction n arbitrary: mn c)
  case 0
  then show ?case by (auto split: option.splits)
next
  case (Suc n)
  have "greedy_k (\<lambda>k c. find_map k (g c)) m n k = (\<lambda>c. find_map k (greedy g m n c))" for m
    by (rule ext) (rule Suc.IH)
  then show ?case
    by (auto simp: find_map_append find_map_concat_map split: option.splits)
qed

lemma first_run_find: "first_run r k c = find_map k (runs r c)"
proof (induction r arbitrary: k c)
  case (Cls p)
  then show ?case by (auto split: list.splits option.splits)
next
  case (Seq a b)
  then show ?case by (simp add: find_map_concat_map)
next
  case (Rep mn mx r)
  then have "first_run r = (\<lambda>k c. find_map k (runs r c))" by (intro ext)
  then show ?case by (simp add: greedy_k_find)
qed (auto simp: find_map_append find_map_hd split: option.splits list.splits)

lemma first_run_hd [code]: "first_match r c = first_run r Some c"
  by (simp add: first_match_def first_run_find find_map_hd)

lemma re_match_runs: "re_match r s \<longleftrightarrow> runs r ([], s) \<noteq> []"
  by (auto simp: re_match_def first_match_def split: list.splits)

section \<open>Scanning\<close>

text \<open>
  \<open>pattern.finditer(text)\<close> as the list of its \<open>(start, end)\<close> spans: the leftmost match,
  then the leftmost one after its end, and so on.  No pattern of the code matches the
  empty string, the case in which the module would report an empty span.
\<close>

function scan :: "re \<Rightarrow> cursor \<Rightarrow> (nat \<times> nat) list" where
  "scan r (p, s) =
     (case first_match r (p, s) of
        Some (q, t) \<Rightarrow>
          (if length t < length s then (length p, length q) # scan r (q, t)
           else (case s of [] \<Rightarrow> [] | x # xs \<Rightarrow> scan r (x # p, xs)))
      | None \<Rightarrow> (case s of [] \<Rightarrow> [] | x # xs \<Rightarrow> scan r (x # p, xs)))"
  by pat_completeness auto
termination
  by (relation "measure (\<lambda>(r, p, s). length s)") auto

declare scan.simps [simp del]

definition finditer :: "re \<Rightarrow> string \<Rightarrow> (nat \<times> nat) list" where
  "finditer r s = scan r ([], s)"

section \<open>What a run consumes\<close>

text \<open>
  \<open>may r x\<close>: some class of \<open>r\<close> accepts \<open>x\<close>.  A run consumes a stretch of the text, and
  only characters \<open>may\<close> admits.
\<close>

primrec may :: "re \<Rightarrow> char \<Rightarrow> bool" where
  "may (Cls p) x = p x"
| "may Eps x = False"
| "may (Seq a b) x = (may a x \<or> may b x)"
| "may (Alt a b) x = (may a x \<or> may b x)"
| "may (Rep mn mx r) x = may r x"
| "may WordB x = False"
| "may Bol x = False"
| "may Eol x = False"
| "may (Ahead r) x = False"
| "may (NotAhead r) x = False"

definition steps_to :: "(char \<Rightarrow> bool) \<Rightarrow> cursor \<Rightarrow> cursor \<Rightarrow> bool" where
  "steps_to p c c' \<longleftrightarrow>
     (\<exists>w. snd c = w @ snd c' \<and> fst c' = rev w @ fst c \<and> (\<forall>x\<in>set w. p x))"

lemma steps_to_refl [simp]: "steps_to p c c"
  by (simp add: steps_to_def)

lemma steps_to_trans: "steps_to p c c' \<Longrightarrow> steps_to p c' c'' \<Longrightarrow> steps_to p c c''"
  unfolding steps_to_def
  by (elim exE conjE) (rule_tac x = "w @ wa" in exI, auto)

lemma steps_to_mono: "steps_to p c c' \<Longrightarrow> (\<And>x. p x \<Longrightarrow> q x) \<Longrightarrow> steps_to q c c'"
  unfolding steps_to_def by blast

lemma greedy_steps:
  assumes "\<And>c c'. c' \<in> set (f c) \<Longrightarrow> steps_to p c c'"
  shows "c' \<in> set (greedy f mn n c) \<Longrightarrow> steps_to p c c'"
proof (induction n arbitrary: mn c)
  case (Suc n)
  then show ?case
    by (auto split: if_splits intro: steps_to_trans assms)
qed (auto split: if_splits)

lemma runs_steps: "c' \<in> set (runs r c) \<Longrightarrow> steps_to (may r) c c'"
proof (induction r arbitrary: c c')
  case (Cls p)
  then show ?case by (auto simp: steps_to_def split: list.splits if_splits)
next
  case (Seq a b)
  from Seq.prems obtain d where d: "d \<in> set (runs a c)" "c' \<in> set (runs b d)" by auto
  have "steps_to (may (Seq a b)) c d"
    by (rule steps_to_mono [OF Seq.IH(1) [OF d(1)]]) simp
  moreover have "steps_to (may (Seq a b)) d c'"
    by (rule steps_to_mono [OF Seq.IH(2) [OF d(2)]]) simp
  ultimately show ?case by (rule steps_to_trans)
next
  case (Alt a b)
  then consider "c' \<in> set (runs a c)" | "c' \<in> set (runs b c)" by auto
  then show ?case
  proof cases
    case 1
    show ?thesis by (rule steps_to_mono [OF Alt.IH(1) [OF 1]]) simp
  next
    case 2
    show ?thesis by (rule steps_to_mono [OF Alt.IH(2) [OF 2]]) simp
  qed
next
  case (Rep mn mx r)
  have "steps_to (may r) c c'"
    by (rule greedy_steps [of "runs r"]) (use Rep in auto)
  then show ?case by (rule steps_to_mono) simp
qed (auto split: if_splits)

lemma first_match_steps: "first_match r c = Some c' \<Longrightarrow> steps_to (may r) c c'"
  by (rule runs_steps) (auto simp: first_match_def split: list.splits)

section \<open>What a run accepts\<close>

text \<open>
  Exact accounts of the runs of the shapes the patterns are built from, as the text
  \<open>w\<close> consumed between two cursors.
\<close>

definition eats :: "cursor \<Rightarrow> string \<Rightarrow> cursor \<Rightarrow> bool" where
  "eats c w c' \<longleftrightarrow> snd c = w @ snd c' \<and> fst c' = rev w @ fst c"

definition count_in :: "nat \<Rightarrow> nat \<Rightarrow> nat option \<Rightarrow> bool" where
  "count_in n mn mx \<longleftrightarrow> mn \<le> n \<and> (case mx of None \<Rightarrow> True | Some k \<Rightarrow> n \<le> k)"

lemma count_in_simps [simp]:
  "count_in n mn None \<longleftrightarrow> mn \<le> n"
  "count_in n mn (Some k) \<longleftrightarrow> mn \<le> n \<and> n \<le> k"
  by (simp_all add: count_in_def)

lemma eats_Nil [simp]: "eats c [] c' \<longleftrightarrow> c' = c"
  by (auto simp: eats_def prod_eq_iff)

lemma eats_append: "eats c (u @ w) c' \<longleftrightarrow> (\<exists>d. eats c u d \<and> eats d w c')"
  by (auto simp: eats_def)

lemma eats_start: "eats ([], s) w c' \<longleftrightarrow> s = w @ snd c' \<and> fst c' = rev w"
  by (auto simp: eats_def)

lemma runs_Cls: "c' \<in> set (runs (Cls p) c) \<longleftrightarrow> (\<exists>x. p x \<and> eats c [x] c')"
  by (cases c; cases "snd c") (auto simp: eats_def prod_eq_iff)

lemma runs_Seq: "c' \<in> set (runs (Seq a b) c) \<longleftrightarrow> (\<exists>d. d \<in> set (runs a c) \<and> c' \<in> set (runs b d))"
  by auto

lemma greedy_relpow:
  "c' \<in> set (greedy f mn n c) \<longleftrightarrow>
   (\<exists>k\<ge>mn. k \<le> n \<and> (c, c') \<in> {(x, y). y \<in> set (f x)} ^^ k)"
proof (induction n arbitrary: mn c)
  case 0
  then show ?case by auto
next
  case (Suc n)
  let ?R = "{(x, y). y \<in> set (f x)}"
  have split: "(\<exists>k\<ge>mn. k \<le> Suc n \<and> (c, c') \<in> ?R ^^ k) \<longleftrightarrow>
      (mn = 0 \<and> c' = c) \<or> (\<exists>k\<ge>mn - 1. k \<le> n \<and> (c, c') \<in> ?R ^^ Suc k)" (is "?l \<longleftrightarrow> ?r")
  proof
    assume ?l
    then obtain k where k: "mn \<le> k" "k \<le> Suc n" "(c, c') \<in> ?R ^^ k" by blast
    show ?r
    proof (cases k)
      case 0
      with k show ?thesis by auto
    next
      case (Suc j)
      with k have "mn - 1 \<le> j" "j \<le> n" "(c, c') \<in> ?R ^^ Suc j" by auto
      then show ?thesis by blast
    qed
  next
    assume ?r
    then show ?l
    proof
      assume "mn = 0 \<and> c' = c"
      then show ?thesis by (intro exI [of _ 0]) auto
    next
      assume "\<exists>k\<ge>mn - 1. k \<le> n \<and> (c, c') \<in> ?R ^^ Suc k"
      then obtain k where "mn - 1 \<le> k" "k \<le> n" "(c, c') \<in> ?R ^^ Suc k" by blast
      then show ?thesis by (intro exI [of _ "Suc k"]) auto
    qed
  qed
  have rl: "(c, c') \<in> ?R ^^ Suc k \<longleftrightarrow> (\<exists>d\<in>set (f c). (d, c') \<in> ?R ^^ k)" for k
    by (auto dest: relpow_Suc_D2 intro: relpow_Suc_I2 simp del: relpow.simps)
  show ?case
    unfolding split rl using Suc.IH by auto
qed

text \<open>
  \<open>lang r\<close> is the language a pattern without assertions denotes, \<open>plain r\<close> the patterns
  for which the engine's runs are exactly its words: no assertion in them, and no
  unbounded repetition of a body that may be empty.
\<close>

primrec lang :: "re \<Rightarrow> string set" where
  "lang (Cls p) = {[x] | x. p x}"
| "lang Eps = {[]}"
| "lang (Seq a b) = {u @ v | u v. u \<in> lang a \<and> v \<in> lang b}"
| "lang (Alt a b) = lang a \<union> lang b"
| "lang (Rep mn mx r) = {concat ws | ws. set ws \<subseteq> lang r \<and> count_in (length ws) mn mx}"
| "lang WordB = {}"
| "lang Bol = {}"
| "lang Eol = {}"
| "lang (Ahead r) = {}"
| "lang (NotAhead r) = {}"

primrec nullable :: "re \<Rightarrow> bool" where
  "nullable (Cls p) = False"
| "nullable Eps = True"
| "nullable (Seq a b) = (nullable a \<and> nullable b)"
| "nullable (Alt a b) = (nullable a \<or> nullable b)"
| "nullable (Rep mn mx r) = (mn = 0 \<or> nullable r)"
| "nullable WordB = True"
| "nullable Bol = True"
| "nullable Eol = True"
| "nullable (Ahead r) = True"
| "nullable (NotAhead r) = True"

primrec plain :: "re \<Rightarrow> bool" where
  "plain (Cls p) = True"
| "plain Eps = True"
| "plain (Seq a b) = (plain a \<and> plain b)"
| "plain (Alt a b) = (plain a \<and> plain b)"
| "plain (Rep mn mx r) = (plain r \<and> (mx = None \<longrightarrow> \<not> nullable r))"
| "plain WordB = False"
| "plain Bol = False"
| "plain Eol = False"
| "plain (Ahead r) = False"
| "plain (NotAhead r) = False"

lemma lang_nonempty: "\<not> nullable r \<Longrightarrow> [] \<notin> lang r"
proof (induction r)
  case (Rep mn mx r)
  show ?case
  proof
    assume "[] \<in> lang (Rep mn mx r)"
    then obtain ws where "concat ws = []" "set ws \<subseteq> lang r" "count_in (length ws) mn mx"
      by auto
    with Rep show False by (cases ws) (auto simp: count_in_def)
  qed
qed auto

lemma relpow_lang:
  assumes "\<And>c c'. c' \<in> set (f c) \<longleftrightarrow> (\<exists>w\<in>L. eats c w c')"
  shows "(c, c') \<in> {(x, y). y \<in> set (f x)} ^^ k \<longleftrightarrow>
   (\<exists>ws. eats c (concat ws) c' \<and> set ws \<subseteq> L \<and> length ws = k)"
proof (induction k arbitrary: c')
  case 0
  then show ?case by auto
next
  case (Suc k)
  have "(c, c') \<in> {(x, y). y \<in> set (f x)} ^^ Suc k \<longleftrightarrow>
     (\<exists>d ws. eats c (concat ws) d \<and> set ws \<subseteq> L \<and> length ws = k \<and> (\<exists>w\<in>L. eats d w c'))"
    unfolding relpow.simps relcomp_unfold using Suc assms by blast
  also have "\<dots> \<longleftrightarrow> (\<exists>ws. eats c (concat ws) c' \<and> set ws \<subseteq> L \<and> length ws = Suc k)"
  proof
    assume "\<exists>d ws. eats c (concat ws) d \<and> set ws \<subseteq> L \<and> length ws = k \<and> (\<exists>w\<in>L. eats d w c')"
    then obtain d ws w where w: "eats c (concat ws) d" "set ws \<subseteq> L" "length ws = k" "w \<in> L"
      "eats d w c'"
      by blast
    then have "eats c (concat ws @ w) c'" unfolding eats_append by blast
    with w show "\<exists>ws. eats c (concat ws) c' \<and> set ws \<subseteq> L \<and> length ws = Suc k"
      by (intro exI [of _ "ws @ [w]"]) simp
  next
    assume "\<exists>ws. eats c (concat ws) c' \<and> set ws \<subseteq> L \<and> length ws = Suc k"
    then obtain ws where w: "eats c (concat ws) c'" "set ws \<subseteq> L" "length ws = Suc k" by blast
    then obtain u x where u: "ws = u @ [x]" by (metis length_Suc_conv_rev)
    from w(1) obtain d where "eats c (concat u) d" "eats d x c'"
      unfolding u concat_append concat.simps append_Nil2 eats_append by blast
    with w u show
      "\<exists>d ws. eats c (concat ws) d \<and> set ws \<subseteq> L \<and> length ws = k \<and> (\<exists>w\<in>L. eats d w c')"
      by (intro exI [of _ d] exI [of _ u]) auto
  qed
  finally show ?case .
qed

lemma length_concat_ge: "\<forall>w\<in>set ws. w \<noteq> [] \<Longrightarrow> length ws \<le> length (concat ws)"
proof (induction ws)
  case (Cons w ws)
  then have "length w \<ge> 1" by (cases w) auto
  with Cons show ?case by auto
qed simp

theorem runs_lang: "plain r \<Longrightarrow> c' \<in> set (runs r c) \<longleftrightarrow> (\<exists>w\<in>lang r. eats c w c')"
proof (induction r arbitrary: c c')
  case (Cls p)
  then show ?case
    by (cases c; cases "snd c") (auto simp: eats_def prod_eq_iff)
next
  case (Seq a b)
  then have a: "\<And>c c'. c' \<in> set (runs a c) \<longleftrightarrow> (\<exists>w\<in>lang a. eats c w c')"
    and b: "\<And>c c'. c' \<in> set (runs b c) \<longleftrightarrow> (\<exists>w\<in>lang b. eats c w c')" by auto
  have "c' \<in> set (runs (Seq a b) c) \<longleftrightarrow> (\<exists>d. d \<in> set (runs a c) \<and> c' \<in> set (runs b d))"
    by auto
  also have "\<dots> \<longleftrightarrow> (\<exists>w\<in>lang (Seq a b). eats c w c')"
    unfolding a b lang.simps using eats_append by blast
  finally show ?case .
next
  case (Alt a b)
  then show ?case by auto
next
  case (Rep mn mx r)
  then have r: "\<And>c c'. c' \<in> set (runs r c) \<longleftrightarrow> (\<exists>w\<in>lang r. eats c w c')" by simp
  have bound: "length ws \<le> mn + length (snd c)"
    if "mx = None" "eats c (concat ws) c'" "set ws \<subseteq> lang r" for ws
  proof -
    from that(1) Rep.prems have "[] \<notin> lang r" by (simp add: lang_nonempty)
    with that(3) have "length ws \<le> length (concat ws)" by (intro length_concat_ge) auto
    also from that(2) have "\<dots> \<le> length (snd c)" by (simp add: eats_def)
    finally show ?thesis by simp
  qed
  have "c' \<in> set (runs (Rep mn mx r) c) \<longleftrightarrow> (\<exists>k\<ge>mn. k \<le> rounds mn mx c \<and>
      (\<exists>ws. eats c (concat ws) c' \<and> set ws \<subseteq> lang r \<and> length ws = k))"
    by (simp only: runs.simps greedy_relpow relpow_lang [OF r])
  also have "\<dots> \<longleftrightarrow> (\<exists>w\<in>lang (Rep mn mx r). eats c w c')"
    using bound by (cases mx) (auto simp: rounds_def count_in_def)
  finally show ?case .
qed (auto simp: eats_def)

lemma lang_Rep_Cls: "w \<in> lang (Rep mn mx (Cls p)) \<longleftrightarrow> list_all p w \<and> count_in (length w) mn mx"
proof
  assume "w \<in> lang (Rep mn mx (Cls p))"
  then obtain ws where ws: "w = concat ws" "set ws \<subseteq> {[x] | x. p x}" "count_in (length ws) mn mx"
    by auto
  have "length (concat ws) = length ws \<and> list_all p (concat ws)" using ws(2)
    by (induction ws) auto
  with ws show "list_all p w \<and> count_in (length w) mn mx" by simp
next
  assume "list_all p w \<and> count_in (length w) mn mx"
  then have "w = concat (map (\<lambda>x. [x]) w) \<and> set (map (\<lambda>x. [x]) w) \<subseteq> {[x] | x. p x} \<and>
      count_in (length (map (\<lambda>x. [x]) w)) mn mx"
    by (auto simp: list_all_iff)
  then show "w \<in> lang (Rep mn mx (Cls p))" unfolding lang.simps by blast
qed

text \<open>At the end of a text that does not end in a newline, \<open>$\<close> leaves nothing.\<close>

lemma at_end_whole:
  "s = [] \<or> last s \<noteq> CHR 0x0A \<Longrightarrow> eats ([], s) w c \<Longrightarrow> at_end c \<longleftrightarrow> s = w"
  by (auto simp: at_end_def eats_start)

lemma re_match_mem: "re_match r s \<longleftrightarrow> (\<exists>c. c \<in> set (runs r ([], s)))"
  unfolding re_match_runs by (cases "runs r ([], s)") force+

text \<open>Concatenation of a list of patterns.\<close>

fun seqs :: "re list \<Rightarrow> re" where
  "seqs [] = Eps"
| "seqs [r] = r"
| "seqs (r # s # rs) = Seq r (seqs (s # rs))"

lemma runs_seqs_snoc:
  "rs \<noteq> [] \<Longrightarrow> c' \<in> set (runs (seqs (rs @ [e])) c) \<longleftrightarrow>
     (\<exists>d. d \<in> set (runs (seqs rs) c) \<and> c' \<in> set (runs e d))"
proof (induction rs arbitrary: c rule: seqs.induct)
  case (3 r s rs)
  then show ?case by auto
qed auto

theorem anchored_match:
  assumes s: "s = [] \<or> last s \<noteq> CHR 0x0A" and r: "rs \<noteq> []" "plain (seqs rs)"
  shows "re_match (Seq Bol (seqs (rs @ [Eol]))) s \<longleftrightarrow> s \<in> lang (seqs rs)"
proof -
  have "re_match (Seq Bol (seqs (rs @ [Eol]))) s \<longleftrightarrow>
      (\<exists>c. c \<in> set (runs (seqs (rs @ [Eol])) ([], s)))"
    by (simp add: re_match_mem)
  also have "\<dots> \<longleftrightarrow> (\<exists>w\<in>lang (seqs rs). \<exists>c. eats ([], s) w c \<and> at_end c)"
    unfolding runs_seqs_snoc [OF r(1)] runs_lang [OF r(2)] by fastforce
  also have "\<dots> \<longleftrightarrow> (\<exists>w\<in>lang (seqs rs). s = w \<and> (\<exists>c. eats ([], s) w c \<and> at_end c))"
    using at_end_whole [OF s] by blast
  also have "\<dots> \<longleftrightarrow> s \<in> lang (seqs rs)"
    by (auto simp: eats_start at_end_def)
  finally show ?thesis .
qed

end
