(* ===== verification/PyNet.thy ===== *)
theory PyNet
  imports PyRegex
begin

text \<open>
  What the code uses of Python's \<open>ipaddress\<close> and \<open>urllib.parse\<close> (CPython 3.11, the
  oldest version the project accepts): parsing an address, the address properties the
  SSRF guard reads, and \<open>urlsplit\<close> with the host and port of its result.  \<open>None\<close> stands
  for \<open>ValueError\<close>, the exception these raise.
\<close>

section \<open>Addresses\<close>

text \<open>An address is its integer; an IPv6 address may carry a scope id (\<open>fe80::1%eth0\<close>).\<close>

datatype ip_addr = V4 int | V6 int "string option"

definition parse_octet :: "string \<Rightarrow> int option" where
  "parse_octet s =
     (if s = [] \<or> \<not> list_all is_digit s then None
      else if length s > 3 then None
      else if s \<noteq> ''0'' \<and> hd s = CHR ''0'' then None
      else if int_of_digits s > 255 then None
      else Some (int_of_digits s))"

definition ipv4_int :: "string \<Rightarrow> int option" where
  "ipv4_int s =
     (let octets = split_on CHR ''.'' s in
      if length octets \<noteq> 4 then None
      else map_option (foldl (\<lambda>n b. 256 * n + b) 0) (those (map parse_octet octets)))"

definition ipv4_address :: "string \<Rightarrow> int option" where
  "ipv4_address s = (if CHR ''/'' \<in> set s then None else ipv4_int s)"

definition parse_hextet :: "string \<Rightarrow> int option" where
  "parse_hextet s =
     (if \<not> list_all is_hex s then None
      else if length s > 4 then None
      else if s = [] then None
      else Some (int_of_hex s))"

text \<open>The last part may be dotted IPv4, which becomes two hextets.\<close>

definition expand_v4_suffix :: "string list \<Rightarrow> string list option" where
  "expand_v4_suffix parts =
     (if CHR ''.'' \<in> set (last parts)
      then (case ipv4_address (last parts) of
              None \<Rightarrow> None
            | Some v \<Rightarrow> Some (butlast parts @
                [show_hex (v div 65536 mod 65536), show_hex (v mod 65536)]))
      else Some parts)"

definition hextets_int :: "int \<Rightarrow> string list \<Rightarrow> int option" where
  "hextets_int start hs =
     map_option (foldl (\<lambda>n h. 65536 * n + h) start) (those (map parse_hextet hs))"

text \<open>
  The number of parts before and after \<open>::\<close> and the hextets it stands for; without one
  all eight parts are before it.
\<close>

definition split_at_gap :: "string list \<Rightarrow> (nat \<times> nat \<times> nat) option" where
  "split_at_gap parts =
     (case filter (\<lambda>i. parts ! i = []) [1..<length parts - 1] of
        [] \<Rightarrow> (if length parts \<noteq> 8 \<or> hd parts = [] \<or> last parts = [] then None
               else Some (8, 0, 0))
      | [k] \<Rightarrow>
          (let hi = (if hd parts = [] then k - 1 else k);
               lo = (if last parts = [] then length parts - k - 2 else length parts - k - 1)
           in if hd parts = [] \<and> hi \<noteq> 0 then None
              else if last parts = [] \<and> lo \<noteq> 0 then None
              else if hi + lo \<ge> 8 then None
              else Some (hi, lo, 8 - (hi + lo)))
      | _ \<Rightarrow> None)"

definition ipv6_int :: "string \<Rightarrow> int option" where
  "ipv6_int s =
     (if s = [] then None
      else let parts0 = split_on CHR '':'' s in
        if length parts0 < 3 then None
        else case expand_v4_suffix parts0 of
          None \<Rightarrow> None
        | Some parts \<Rightarrow>
            if length parts > 9 then None
            else case split_at_gap parts of
              None \<Rightarrow> None
            | Some (hi, lo, skipped) \<Rightarrow>
                (case hextets_int 0 (take hi parts) of
                   None \<Rightarrow> None
                 | Some h \<Rightarrow> hextets_int (h * 65536 ^ skipped)
                               (drop (length parts - lo) parts)))"

definition ipv6_address :: "string \<Rightarrow> ip_addr option" where
  "ipv6_address s =
     (if CHR ''/'' \<in> set s then None
      else if CHR ''%'' \<in> set s
      then (let scope = after CHR ''%'' s in
            if scope = [] \<or> CHR ''%'' \<in> set scope then None
            else map_option (\<lambda>n. V6 n (Some scope)) (ipv6_int (before CHR ''%'' s)))
      else map_option (\<lambda>n. V6 n None) (ipv6_int s))"

text \<open>\<open>ipaddress.ip_address(s)\<close>.\<close>

definition ip_address :: "string \<Rightarrow> ip_addr option" where
  "ip_address s = (case ipv4_address s of Some n \<Rightarrow> Some (V4 n) | None \<Rightarrow> ipv6_address s)"

fun ip_version :: "ip_addr \<Rightarrow> int" where
  "ip_version (V4 _) = 4"
| "ip_version (V6 _ _) = 6"

section \<open>Special-purpose ranges\<close>

text \<open>A network is its base address and prefix length.\<close>

definition in_net4 :: "int \<Rightarrow> int \<times> nat \<Rightarrow> bool" where
  "in_net4 n net = (n div 2 ^ (32 - snd net) = fst net div 2 ^ (32 - snd net))"

definition in_net6 :: "int \<Rightarrow> int \<times> nat \<Rightarrow> bool" where
  "in_net6 n net = (n div 2 ^ (128 - snd net) = fst net div 2 ^ (128 - snd net))"

definition quad :: "int \<Rightarrow> int \<Rightarrow> int \<Rightarrow> int \<Rightarrow> int" where
  "quad a b c d = ((a * 256 + b) * 256 + c) * 256 + d"

definition private_nets4 :: "(int \<times> nat) list" where
  "private_nets4 =
     [(quad 0 0 0 0, 8), (quad 10 0 0 0, 8), (quad 127 0 0 0, 8), (quad 169 254 0 0, 16),
      (quad 172 16 0 0, 12), (quad 192 0 0 0, 24), (quad 192 0 0 170, 31),
      (quad 192 0 2 0, 24), (quad 192 168 0 0, 16), (quad 198 18 0 0, 15),
      (quad 198 51 100 0, 24), (quad 203 0 113 0, 24), (quad 240 0 0 0, 4),
      (quad 255 255 255 255, 32)]"

definition private_exceptions4 :: "(int \<times> nat) list" where
  "private_exceptions4 = [(quad 192 0 0 9, 32), (quad 192 0 0 10, 32)]"

definition is_private4 :: "int \<Rightarrow> bool" where
  "is_private4 n \<longleftrightarrow> list_ex (in_net4 n) private_nets4 \<and>
     list_all (\<lambda>net. \<not> in_net4 n net) private_exceptions4"

definition is_global4 :: "int \<Rightarrow> bool" where
  "is_global4 n \<longleftrightarrow> \<not> in_net4 n (quad 100 64 0 0, 10) \<and> \<not> is_private4 n"

definition is_multicast4 :: "int \<Rightarrow> bool" where
  "is_multicast4 n = in_net4 n (quad 224 0 0 0, 4)"

definition is_reserved4 :: "int \<Rightarrow> bool" where
  "is_reserved4 n = in_net4 n (quad 240 0 0 0, 4)"

definition is_loopback4 :: "int \<Rightarrow> bool" where
  "is_loopback4 n = in_net4 n (quad 127 0 0 0, 8)"

definition is_link_local4 :: "int \<Rightarrow> bool" where
  "is_link_local4 n = in_net4 n (quad 169 254 0 0, 16)"

text \<open>An IPv6 base address given by its first three hextets.\<close>

definition hext :: "int \<Rightarrow> int \<Rightarrow> int \<Rightarrow> int" where
  "hext a b c = ((a * 65536 + b) * 65536 + c) * 2 ^ 80"

definition private_nets6 :: "(int \<times> nat) list" where
  "private_nets6 =
     [(1, 128), (0, 128), (0xFFFF * 2 ^ 32, 96), (hext 0x64 0xFF9B 1, 48),
      (hext 0x100 0 0, 64), (hext 0x2001 0 0, 23), (hext 0x2001 0xDB8 0, 32),
      (hext 0x2002 0 0, 16), (hext 0xFC00 0 0, 7), (hext 0xFE80 0 0, 10)]"

definition private_exceptions6 :: "(int \<times> nat) list" where
  "private_exceptions6 =
     [(hext 0x2001 1 0 + 1, 128), (hext 0x2001 1 0 + 2, 128), (hext 0x2001 3 0, 32),
      (hext 0x2001 4 0x112, 48), (hext 0x2001 0x20 0, 28), (hext 0x2001 0x30 0, 28)]"

definition reserved_nets6 :: "(int \<times> nat) list" where
  "reserved_nets6 =
     [(0, 8), (hext 0x100 0 0, 8), (hext 0x200 0 0, 7), (hext 0x400 0 0, 6),
      (hext 0x800 0 0, 5), (hext 0x1000 0 0, 4), (hext 0x4000 0 0, 3),
      (hext 0x6000 0 0, 3), (hext 0x8000 0 0, 3), (hext 0xA000 0 0, 3),
      (hext 0xC000 0 0, 3), (hext 0xE000 0 0, 4), (hext 0xF000 0 0, 5),
      (hext 0xF800 0 0, 6), (hext 0xFE00 0 0, 9)]"

definition ipv4_mapped :: "int \<Rightarrow> int option" where
  "ipv4_mapped n = (if n div 2 ^ 32 = 0xFFFF then Some (n mod 2 ^ 32) else None)"

definition is_private6 :: "int \<Rightarrow> bool" where
  "is_private6 n \<longleftrightarrow>
     (case ipv4_mapped n of
        Some m \<Rightarrow> is_private4 m
      | None \<Rightarrow> list_ex (in_net6 n) private_nets6 \<and>
                list_all (\<lambda>net. \<not> in_net6 n net) private_exceptions6)"

definition is_global6 :: "int \<Rightarrow> bool" where
  "is_global6 n \<longleftrightarrow> \<not> is_private6 n"

definition is_multicast6 :: "int \<Rightarrow> bool" where
  "is_multicast6 n = in_net6 n (hext 0xFF00 0 0, 8)"

definition is_reserved6 :: "int \<Rightarrow> bool" where
  "is_reserved6 n = list_ex (in_net6 n) reserved_nets6"

definition is_link_local6 :: "int \<Rightarrow> bool" where
  "is_link_local6 n = in_net6 n (hext 0xFE80 0 0, 10)"

text \<open>The properties of an address object; they do not read the scope id.\<close>

fun is_global :: "ip_addr \<Rightarrow> bool" where
  "is_global (V4 n) = is_global4 n"
| "is_global (V6 n _) = is_global6 n"

fun is_private :: "ip_addr \<Rightarrow> bool" where
  "is_private (V4 n) = is_private4 n"
| "is_private (V6 n _) = is_private6 n"

fun is_loopback :: "ip_addr \<Rightarrow> bool" where
  "is_loopback (V4 n) = is_loopback4 n"
| "is_loopback (V6 n _) = (n = 1)"

fun is_link_local :: "ip_addr \<Rightarrow> bool" where
  "is_link_local (V4 n) = is_link_local4 n"
| "is_link_local (V6 n _) = is_link_local6 n"

fun is_multicast :: "ip_addr \<Rightarrow> bool" where
  "is_multicast (V4 n) = is_multicast4 n"
| "is_multicast (V6 n _) = is_multicast6 n"

fun is_reserved :: "ip_addr \<Rightarrow> bool" where
  "is_reserved (V4 n) = is_reserved4 n"
| "is_reserved (V6 n _) = is_reserved6 n"

fun is_unspecified :: "ip_addr \<Rightarrow> bool" where
  "is_unspecified (V4 n) = (n = 0)"
| "is_unspecified (V6 n _) = (n = 0)"

section \<open>URLs\<close>

record split_result =
  scheme :: string
  netloc :: string

definition is_scheme_char :: "char \<Rightarrow> bool" where
  "is_scheme_char c \<longleftrightarrow> is_alnum c \<or> c \<in> set ''+-.''"

definition split_scheme :: "string \<Rightarrow> string \<times> string" where
  "split_scheme url =
     (let i = before CHR '':'' url in
      if CHR '':'' \<in> set url \<and> i \<noteq> [] \<and> is_letter (hd url) \<and> list_all is_scheme_char i
      then (py_lower i, after CHR '':'' url) else ([], url))"

definition ip_future_re :: re where
  "ip_future_re = Seq (Cls (\<lambda>c. c = CHR ''v'')) (Seq (Rep 1 None (Cls is_hex))
     (Seq (Cls (\<lambda>c. c = CHR ''.''))
        (Rep 1 None (Cls (\<lambda>c. c \<noteq> CHR 0x0A)))))"

text \<open>The check of a bracketed host; the regular expression is anchored at both ends.\<close>

definition bracketed_host_ok :: "string \<Rightarrow> bool" where
  "bracketed_host_ok h =
     (if startswith h ''v'' then list_ex (\<lambda>c. snd c = []) (runs ip_future_re ([], h))
      else (case ip_address h of Some (V6 _ _) \<Rightarrow> True | _ \<Rightarrow> False))"

definition netloc_ok :: "string \<Rightarrow> bool" where
  "netloc_ok nl \<longleftrightarrow>
     (CHR ''['' \<in> set nl \<longleftrightarrow> CHR '']'' \<in> set nl) \<and>
     (CHR ''['' \<in> set nl \<longrightarrow> bracketed_host_ok (before CHR '']'' (after CHR ''['' nl)))"

definition urlsplit :: "string \<Rightarrow> split_result option" where
  "urlsplit raw =
     (let url = filter (\<lambda>c. c \<notin> {CHR 0x09, CHR 0x0A, CHR 0x0D})
                  (lstrip_by (\<lambda>c. ord_of c \<le> 32) raw);
          (sch, rest) = split_scheme url;
          nl = (if startswith rest ''//''
                then takeWhile (\<lambda>c. c \<notin> set ''/?#'') (drop 2 rest) else [])
      in if netloc_ok nl then Some \<lparr>scheme = sch, netloc = nl\<rparr> else None)"

text \<open>\<open>.hostname\<close>: user info dropped, brackets removed, lower case but for a zone id.\<close>

definition host_info :: "string \<Rightarrow> string \<times> string" where
  "host_info nl =
     (let hostinfo = after_last CHR ''@'' nl in
      if CHR ''['' \<in> set hostinfo
      then (let bracketed = after CHR ''['' hostinfo
            in (before CHR '']'' bracketed, after CHR '':'' (after CHR '']'' bracketed)))
      else (before CHR '':'' hostinfo, after CHR '':'' hostinfo))"

definition hostname :: "split_result \<Rightarrow> string option" where
  "hostname u =
     (let h = fst (host_info (netloc u)) in
      if h = [] then None
      else Some (py_lower (before CHR ''%'' h) @
                 (if CHR ''%'' \<in> set h then CHR ''%'' # after CHR ''%'' h else [])))"

text \<open>\<open>.port\<close>: absent is \<open>Some None\<close>; not a number, or out of range, raises.\<close>

definition port :: "split_result \<Rightarrow> int option option" where
  "port u =
     (let p = snd (host_info (netloc u)) in
      if p = [] then Some None
      else if \<not> py_isdigit p then None
      else if int_of_digits p > 65535 then None
      else Some (Some (int_of_digits p)))"

section \<open>Characters of the canonical forms\<close>

lemma those_Some: "those xs = Some ys \<Longrightarrow> xs = map Some ys"
  by (induction xs arbitrary: ys) (auto split: option.splits)

lemma those_map_None: "x \<in> set xs \<Longrightarrow> f x = None \<Longrightarrow> those (map f xs) = None"
  by (induction xs) (auto split: option.splits)

lemma ipv4_chars: "ipv4_address s = Some n \<Longrightarrow> x \<in> set s \<Longrightarrow> is_digit x \<or> x = CHR ''.''"
proof -
  assume a: "ipv4_address s = Some n" and x: "x \<in> set s"
  have "list_all is_digit l" if "l \<in> set (split_on CHR ''.'' s)" for l
  proof (rule ccontr)
    assume "\<not> list_all is_digit l"
    then have "parse_octet l = None" by (simp add: parse_octet_def)
    with that have "those (map parse_octet (split_on CHR ''.'' s)) = None" by (rule those_map_None)
    with a show False by (auto simp: ipv4_address_def ipv4_int_def Let_def split: if_splits)
  qed
  with set_split_on [OF x, of "CHR ''.''"] show ?thesis by (auto simp: list_all_iff)
qed

lemma hextets_hex: "hextets_int m ls = Some n \<Longrightarrow> l \<in> set ls \<Longrightarrow> list_all is_hex l"
proof (rule ccontr)
  assume a: "hextets_int m ls = Some n" "l \<in> set ls" "\<not> list_all is_hex l"
  then have "parse_hextet l = None" by (simp add: parse_hextet_def)
  with a(2) have "those (map parse_hextet ls) = None" by (rule those_map_None)
  with a(1) show False by (simp add: hextets_int_def)
qed

text \<open>The parts that \<open>split_at_gap\<close> leaves out of both ends are empty.\<close>

lemma gap_parts:
  assumes g: "split_at_gap parts = Some (hi, lo, sk)" and i: "i < length parts"
    "hi \<le> i" "i < length parts - lo" and ne: "parts \<noteq> []"
  shows "parts ! i = []"
proof (cases "filter (\<lambda>i. parts ! i = []) [1..<length parts - 1]")
  case Nil
  with g i show ?thesis by (auto simp: split_at_gap_def split: if_splits)
next
  case (Cons k ks)
  with g have ks: "ks = []" by (auto simp: split_at_gap_def split: list.splits)
  have "k \<in> set (filter (\<lambda>i. parts ! i = []) [1..<length parts - 1])" using Cons by simp
  then have k: "parts ! k = []" "1 \<le> k" "k < length parts - 1" by auto
  have h: "hd parts = parts ! 0" and l: "last parts = parts ! (length parts - 1)"
    using ne by (simp_all add: hd_conv_nth last_conv_nth)
  have "i < k \<Longrightarrow> hd parts = []" "k < i \<Longrightarrow> last parts = []"
    using g i k unfolding split_at_gap_def Cons ks
    by (auto simp: Let_def split: if_splits)
  then consider "i = k" | "i < k" "hd parts = []" | "k < i" "last parts = []"
    using linorder_less_linear [of i k] by blast
  then show ?thesis
  proof cases
    case 2
    with g k have "k = 1" unfolding split_at_gap_def Cons ks by (auto simp: Let_def split: if_splits)
    with 2 h show ?thesis by (cases i) auto
  next
    case 3
    with g k have "length parts - k - 2 = 0"
      unfolding split_at_gap_def Cons ks by (auto simp: Let_def split: if_splits)
    with 3 k i have "i = length parts - 1" by simp
    with 3 l show ?thesis by simp
  qed (use k in simp)
qed

lemma ipv6_int_chars:
  assumes a: "ipv6_int s = Some n" and x: "x \<in> set s"
  shows "is_hex x \<or> x = CHR '':'' \<or> x = CHR ''.''"
proof -
  let ?p0 = "split_on CHR '':'' s"
  from a obtain parts hi lo sk h where p: "expand_v4_suffix ?p0 = Some parts"
    "split_at_gap parts = Some (hi, lo, sk)" "hextets_int 0 (take hi parts) = Some h"
    "hextets_int (h * 65536 ^ sk) (drop (length parts - lo) parts) = Some n"
    by (auto simp: ipv6_int_def Let_def split: if_splits option.splits)
  have hex: "list_all is_hex l" if l: "l \<in> set parts" for l
  proof -
    from l obtain i where i: "i < length parts" "l = parts ! i" by (metis in_set_conv_nth)
    consider "i < hi" | "hi \<le> i" "i < length parts - lo" | "length parts - lo \<le> i" by linarith
    then show ?thesis
    proof cases
      case 1
      then have "l \<in> set (take hi parts)" using i by (auto simp: in_set_conv_nth)
      with p(3) show ?thesis by (rule hextets_hex)
    next
      case 2
      with gap_parts [OF p(2) i(1)] i have "l = []" by (cases parts) auto
      then show ?thesis by simp
    next
      case 3
      then have "l \<in> set (drop (length parts - lo) parts)"
        using i by (auto simp: in_set_conv_nth intro!: exI [of _ "i - (length parts - lo)"])
      with p(4) show ?thesis by (rule hextets_hex)
    qed
  qed
  have "is_hex y \<or> y = CHR ''.''" if y: "l \<in> set ?p0" "y \<in> set l" for l y
  proof (cases "CHR ''.'' \<in> set (last ?p0)")
    case False
    with p(1) have "parts = ?p0" by (simp add: expand_v4_suffix_def)
    with hex y show ?thesis by (auto simp: list_all_iff)
  next
    case True
    with p(1) obtain v q where v: "ipv4_address (last ?p0) = Some v" and
      "parts = butlast ?p0 @ q"
      by (auto simp: expand_v4_suffix_def split: option.splits)
    then have sub: "set (butlast ?p0) \<subseteq> set parts" by simp
    have "l \<in> set (butlast ?p0) \<or> l = last ?p0"
      using y(1) append_butlast_last_id [OF split_on_nonempty, of "CHR '':''" s]
      by (metis Un_iff empty_iff empty_set set_ConsD set_append)
    then show ?thesis
    proof
      assume "l \<in> set (butlast ?p0)"
      with sub hex y show ?thesis by (auto simp: list_all_iff)
    next
      assume "l = last ?p0"
      with ipv4_chars [OF v] y(2) show ?thesis by (auto simp: is_hex_def)
    qed
  qed
  with set_split_on [OF x, of "CHR '':''"] show ?thesis by blast
qed

lemma ipv6_chars:
  "ipv6_address s = Some a \<Longrightarrow> CHR ''%'' \<notin> set s \<Longrightarrow> x \<in> set s \<Longrightarrow>
   is_hex x \<or> x = CHR '':'' \<or> x = CHR ''.''"
  by (auto simp: ipv6_address_def split: if_splits dest: ipv6_int_chars)

lemma ipv6_colons: "ipv6_address s = Some a \<Longrightarrow> CHR ''%'' \<notin> set s \<Longrightarrow> 2 \<le> py_count CHR '':'' s"
proof -
  assume "ipv6_address s = Some a" "CHR ''%'' \<notin> set s"
  then have "3 \<le> length (split_on CHR '':'' s)"
    by (auto simp: ipv6_address_def ipv6_int_def Let_def split: if_splits)
  then show ?thesis by (simp add: length_split_on py_count_def)
qed

end
