(* ===== verification/Errors.thy ===== *)
theory Errors
  imports Prelude
begin

text \<open>
  The exception hierarchy of \<open>app/core/exceptions.py\<close>.  A class attribute that a
  class does not define is found in its bases, so the status code, machine code and
  default message of a class are looked up along its method resolution order.
  An exception that leaves a call is an \<open>exn\<close>: an instance of one of these classes
  or an exception of Python or a library (\<open>PyExc\<close>), named as the code sees it.
\<close>

datatype exc_class =
    AppError
  | AuthenticationError
  | InvalidTokenError
  | InvalidApiKeyError
  | PermissionDeniedError
  | AccountLockedError
  | NotFoundError
  | ConflictError
  | ValidationError
  | RateLimitError
  | EncryptionError
  | SSRFError
  | CollectorError
  | CollectorUnavailableError
  | LiveCollectorsDisabledError
  | UnknownIndicatorError
  | CircuitOpenError

fun base_of :: "exc_class \<Rightarrow> exc_class option" where
  "base_of AppError = None"
| "base_of InvalidTokenError = Some AuthenticationError"
| "base_of InvalidApiKeyError = Some AuthenticationError"
| "base_of CollectorUnavailableError = Some CollectorError"
| "base_of UnknownIndicatorError = Some ValidationError"
| "base_of CircuitOpenError = Some CollectorUnavailableError"
| "base_of _ = Some AppError"

fun depth_of :: "exc_class \<Rightarrow> nat" where
  "depth_of AppError = 0"
| "depth_of InvalidTokenError = 2"
| "depth_of InvalidApiKeyError = 2"
| "depth_of CollectorUnavailableError = 2"
| "depth_of UnknownIndicatorError = 2"
| "depth_of CircuitOpenError = 3"
| "depth_of _ = 1"

lemma base_of_depth: "base_of c = Some b \<Longrightarrow> depth_of b < depth_of c"
  by (cases c) auto

function mro :: "exc_class \<Rightarrow> exc_class list" where
  "mro c = c # (case base_of c of None \<Rightarrow> [] | Some b \<Rightarrow> mro b)"
  by pat_completeness auto
termination
  by (relation "measure depth_of") (auto dest: base_of_depth)

declare mro.simps [simp del]

fun own_status :: "exc_class \<Rightarrow> nat option" where
  "own_status AppError = Some 500"
| "own_status AuthenticationError = Some 401"
| "own_status PermissionDeniedError = Some 403"
| "own_status AccountLockedError = Some 429"
| "own_status NotFoundError = Some 404"
| "own_status ConflictError = Some 409"
| "own_status ValidationError = Some 422"
| "own_status RateLimitError = Some 429"
| "own_status SSRFError = Some 400"
| "own_status CollectorError = Some 502"
| "own_status CollectorUnavailableError = Some 503"
| "own_status LiveCollectorsDisabledError = Some 409"
| "own_status _ = None"

text \<open>Every class defines its own \<open>code\<close> and \<open>message\<close>, so these need no lookup.\<close>

fun code_of :: "exc_class \<Rightarrow> string" where
  "code_of AppError = ''internal_error''"
| "code_of AuthenticationError = ''authentication_error''"
| "code_of InvalidTokenError = ''invalid_token''"
| "code_of InvalidApiKeyError = ''invalid_api_key''"
| "code_of PermissionDeniedError = ''permission_denied''"
| "code_of AccountLockedError = ''account_locked''"
| "code_of NotFoundError = ''not_found''"
| "code_of ConflictError = ''conflict''"
| "code_of ValidationError = ''validation_error''"
| "code_of RateLimitError = ''rate_limited''"
| "code_of EncryptionError = ''encryption_error''"
| "code_of SSRFError = ''ssrf_blocked''"
| "code_of CollectorError = ''collector_error''"
| "code_of CollectorUnavailableError = ''collector_unavailable''"
| "code_of LiveCollectorsDisabledError = ''live_collectors_disabled''"
| "code_of UnknownIndicatorError = ''unknown_indicator''"
| "code_of CircuitOpenError = ''circuit_open''"

fun default_message :: "exc_class \<Rightarrow> string" where
  "default_message AppError = ''An unexpected error occurred.''"
| "default_message AuthenticationError = ''Authentication failed.''"
| "default_message InvalidTokenError = ''The provided token is invalid or expired.''"
| "default_message InvalidApiKeyError = ''The provided API key is invalid or revoked.''"
| "default_message PermissionDeniedError =
     ''You do not have permission to perform this action.''"
| "default_message AccountLockedError =
     ''Too many failed attempts. This account is temporarily locked.''"
| "default_message NotFoundError = ''The requested resource was not found.''"
| "default_message ConflictError = ''The request conflicts with the current state.''"
| "default_message ValidationError = ''The request payload failed validation.''"
| "default_message RateLimitError = ''Too many requests. Please slow down.''"
| "default_message EncryptionError = ''Failed to encrypt or decrypt sensitive data.''"
| "default_message SSRFError = ''The requested destination is not allowed.''"
| "default_message CollectorError = ''A threat-intelligence source returned an error.''"
| "default_message CollectorUnavailableError =
     ''The threat-intelligence source is currently unavailable.''"
| "default_message LiveCollectorsDisabledError =
     ''Live collectors are disabled by server policy; bundled sample '' @
     ''intelligence is served instead until an operator enables them.''"
| "default_message UnknownIndicatorError =
     ''The supplied value is not a recognised indicator.''"
| "default_message CircuitOpenError =
     ''The circuit breaker is open for this source; try again shortly.''"

definition status_of :: "exc_class \<Rightarrow> nat" where
  "status_of c = (case find_map own_status (mro c) of Some n \<Rightarrow> n | None \<Rightarrow> 500)"

text \<open>
  Exceptions of Python and of the libraries, as far as the code lets them pass: the last but one
  are pydantic's, for a request body and for a response.
\<close>

datatype py_exc =
    ValueError | TypeError | KeyError | RuntimeError | AttributeError
  | IntegrityError | DataError | JSONDecodeError | RequestInvalid | ResponseInvalid
  | OtherError

datatype exn =
    AppExc exc_class string "(string \<times> json) list"
  | PyExc py_exc string

text \<open>The constructor: an absent or empty message falls back to the class default.\<close>

definition raise_app :: "exc_class \<Rightarrow> string option \<Rightarrow> (string \<times> json) list \<Rightarrow> exn" where
  "raise_app c msg details =
     AppExc c (case msg of Some m \<Rightarrow> (if m = [] then default_message c else m)
                         | None \<Rightarrow> default_message c) details"

text \<open>\<open>except C\<close> catches an exception iff \<open>C\<close> is in its class's resolution order.\<close>

fun caught_by :: "exc_class \<Rightarrow> exn \<Rightarrow> bool" where
  "caught_by c (AppExc d _ _) = (c \<in> set (mro d))"
| "caught_by c (PyExc _ _) = False"

fun to_dict :: "exn \<Rightarrow> json" where
  "to_dict (AppExc c msg details) =
     JObj [(''error'',
       JObj ([(''code'', JStr (code_of c)), (''message'', JStr msg)] @
             (if details = [] then [] else [(''details'', JObj details)])))]"
| "to_dict (PyExc _ _) =
     JObj [(''error'', JObj [(''code'', JStr ''internal_error''),
                             (''message'', JStr ''An unexpected error occurred.'')])]"

lemma status_table:
  "status_of InvalidTokenError = 401" "status_of InvalidApiKeyError = 401"
  "status_of EncryptionError = 500" "status_of UnknownIndicatorError = 422"
  "status_of CircuitOpenError = 503" "status_of CollectorUnavailableError = 503"
  by (simp_all add: status_of_def mro.simps)

lemma mro_self [simp]: "c \<in> set (mro c)"
  by (subst mro.simps) simp

lemma mro_ends_in_AppError: "AppError \<in> set (mro c)"
proof (induction c rule: mro.induct)
  case (1 c)
  show ?case
  proof (cases "base_of c")
    case None
    then have "c = AppError" by (cases c) auto
    then show ?thesis by simp
  next
    case (Some b)
    with 1 show ?thesis by (subst mro.simps) auto
  qed
qed

end
