(* ===== verification/Ssrf.thy ===== *)
theory Ssrf
  imports PyNet Errors
begin

text \<open>
  The guard in front of outbound requests (\<open>app/core/ssrf.py\<close>).  Name resolution
  (\<open>loop.getaddrinfo\<close>) is a parameter: it answers with addresses, fails with
  \<open>socket.gaierror\<close>, or raises something else (a \<open>UnicodeError\<close> for a label the \<open>idna\<close>
  codec rejects), which the guard does not catch.
\<close>

section \<open>Public addresses\<close>

definition ip_is_public :: "string \<Rightarrow> bool" where
  "ip_is_public ip =
     (case ip_address ip of
        None \<Rightarrow> False
      | Some addr \<Rightarrow>
          if \<not> is_global addr then False
          else \<not> (is_private addr \<or> is_loopback addr \<or> is_link_local addr \<or>
                   is_multicast addr \<or> is_reserved addr \<or> is_unspecified addr))"

section \<open>The guard\<close>

datatype dns_answer = Addresses "string list" | GaiError | DnsRaised exn

type_synonym resolver = "string \<Rightarrow> int \<Rightarrow> dns_answer"

record safe_target =
  st_url :: string
  st_host :: string
  st_port :: int
  resolved_ips :: "string list"

definition allowed_schemes :: "string list" where
  "allowed_schemes = [''http'', ''https'']"

definition default_port :: "string \<Rightarrow> int" where
  "default_port sch = (if sch = ''https'' then 443 else 80)"

text \<open>A guard is its normalised allow-list; empty means any public host.\<close>

definition ssrf_guard :: "string list \<Rightarrow> string list" where
  "ssrf_guard allowed_hosts =
     map (\<lambda>h. lstrip_by (\<lambda>c. c = CHR ''.'') (py_lower h)) (filter (\<lambda>h. h \<noteq> []) allowed_hosts)"

definition host_allowed :: "string list \<Rightarrow> string \<Rightarrow> bool" where
  "host_allowed allowed host =
     (allowed = [] \<or>
      list_ex (\<lambda>a. py_lower host = a \<or> endswith (py_lower host) (CHR ''.'' # a)) allowed)"

definition resolve_host :: "resolver \<Rightarrow> string \<Rightarrow> int \<Rightarrow> exn + string list" where
  "resolve_host getaddrinfo host p =
     (case getaddrinfo host p of
        Addresses ips \<Rightarrow> Inr ips
      | GaiError \<Rightarrow> Inl (raise_app SSRFError (Some (''Could not resolve host: '' @ host))
                           [(''host'', JStr host)])
      | DnsRaised e \<Rightarrow> Inl e)"

text \<open>The loop over the answers: the first address that is not public is reported.\<close>

fun check_answers :: "string \<Rightarrow> string list \<Rightarrow> exn + unit" where
  "check_answers host [] = Inr ()"
| "check_answers host (ip # ips) =
     (if ip_is_public ip then check_answers host ips
      else Inl (raise_app SSRFError (Some ''Destination resolves to a non-public address.'')
                  [(''host'', JStr host), (''ip'', JStr ip)]))"

definition validate :: "resolver \<Rightarrow> string list \<Rightarrow> string \<Rightarrow> exn + safe_target" where
  "validate getaddrinfo allowed url =
     (case urlsplit url of
        None \<Rightarrow> Inl (PyExc ValueError ''urlsplit'')
      | Some parts \<Rightarrow>
          if scheme parts \<notin> set allowed_schemes
          then Inl (raise_app SSRFError (Some ''Only http(s) URLs may be fetched.'')
                      [(''scheme'', JStr (scheme parts))])
          else (case hostname parts of
            None \<Rightarrow> Inl (raise_app SSRFError (Some ''URL has no host.'') [])
          | Some host \<Rightarrow>
              if \<not> host_allowed allowed host
              then Inl (raise_app SSRFError (Some ''Destination host is not in the allow-list.'')
                          [(''host'', JStr host)])
              else if ip_address host \<noteq> None \<and> \<not> ip_is_public host
              then Inl (raise_app SSRFError (Some ''Destination IP is not a public address.'')
                          [(''host'', JStr host)])
              else (case port parts of
                None \<Rightarrow> Inl (PyExc ValueError ''port'')
              | Some p0 \<Rightarrow>
                  let p = (case p0 of
                      Some n \<Rightarrow> if n = 0 then default_port (scheme parts) else n
                    | None \<Rightarrow> default_port (scheme parts))
                  in bindE (resolve_host getaddrinfo host p) (\<lambda>resolved.
                     bindE (check_answers host resolved) (\<lambda>_.
                     Inr \<lparr>st_url = url, st_host = host, st_port = p,
                          resolved_ips = resolved\<rparr>)))))"

definition resolve_public :: "resolver \<Rightarrow> string list \<Rightarrow> string \<Rightarrow> exn + string list" where
  "resolve_public getaddrinfo allowed host =
     (if \<not> host_allowed allowed host
      then Inl (raise_app SSRFError (Some ''Host is not in the allow-list.'')
                  [(''host'', JStr host)])
      else bindE (resolve_host getaddrinfo host 80) (\<lambda>resolved.
           Inr (filter ip_is_public resolved)))"

section \<open>Lemmas\<close>

lemma check_answers_Inr [simp]:
  "check_answers host ips = Inr u \<longleftrightarrow> list_all ip_is_public ips"
  by (induction ips) simp_all

lemma check_answers_error:
  "check_answers host ips = Inl e \<Longrightarrow> \<exists>m d. e = AppExc SSRFError m d"
  by (induction ips) (auto simp: raise_app_def split: if_splits)

lemma resolve_host_Inr: "resolve_host g host p = Inr ips \<longleftrightarrow> g host p = Addresses ips"
  by (auto simp: resolve_host_def split: dns_answer.splits)

lemma port_range: "port u = Some (Some p) \<Longrightarrow> 0 \<le> p \<and> p \<le> 65535"
proof -
  assume p: "port u = Some (Some p)"
  have "0 \<le> foldl (\<lambda>n c. 10 * n + digit_val c) a ds" if "0 \<le> a" "list_all is_digit ds" for a ds
    using that by (induction ds arbitrary: a) (auto simp: digit_val_def char_class_defs)
  then show ?thesis using p
    by (auto simp: port_def Let_def int_of_digits_def py_isdigit_def split: if_splits)
qed

text \<open>The default port replaces an absent port and port 0.\<close>

definition effective_port :: "split_result \<Rightarrow> int \<Rightarrow> bool" where
  "effective_port u p \<longleftrightarrow>
     (case port u of
        None \<Rightarrow> False
      | Some None \<Rightarrow> p = default_port (scheme u)
      | Some (Some n) \<Rightarrow> p = (if n = 0 then default_port (scheme u) else n))"

lemma effective_port_range: "effective_port u p \<Longrightarrow> 0 < p \<and> p \<le> 65535"
proof -
  assume e: "effective_port u p"
  have d: "0 < default_port (scheme u) \<and> default_port (scheme u) \<le> 65535"
    by (simp add: default_port_def)
  show ?thesis
  proof (cases "port u")
    case (Some q)
    then show ?thesis using e d port_range [of u] by (cases q) (auto simp: effective_port_def)
  qed (use e in \<open>simp add: effective_port_def\<close>)
qed

lemma validate_iff:
  "validate g allowed url = Inr t \<longleftrightarrow>
   (\<exists>u. urlsplit url = Some u \<and> scheme u \<in> set allowed_schemes \<and>
      hostname u = Some (st_host t) \<and> host_allowed allowed (st_host t) \<and>
      (ip_address (st_host t) = None \<or> ip_is_public (st_host t)) \<and>
      effective_port u (st_port t) \<and>
      g (st_host t) (st_port t) = Addresses (resolved_ips t) \<and>
      list_all ip_is_public (resolved_ips t) \<and> st_url t = url)"
proof (cases "urlsplit url")
  case (Some u)
  show ?thesis
  proof (cases "hostname u")
    case None
    then show ?thesis by (simp add: validate_def Some)
  next
    case h: (Some h)
    show ?thesis
    proof (cases "port u")
      case None
      then show ?thesis by (simp add: validate_def Some h effective_port_def)
    next
      case (Some q)
      then show ?thesis
        by (cases q; cases t)
          (auto simp: validate_def \<open>urlsplit url = Some u\<close> h effective_port_def Let_def
            bindE_Inr_iff resolve_host_Inr)
    qed
  qed
qed (simp add: validate_def)

text \<open>What a call of the guard raises: its own error, or what it does not catch.\<close>

lemma resolve_host_error:
  "resolve_host g h p = Inl e \<Longrightarrow> (\<exists>m d. e = AppExc SSRFError m d) \<or> g h p = DnsRaised e"
  by (auto simp: resolve_host_def raise_app_def split: dns_answer.splits)

lemma validate_resolved_errors:
  assumes "urlsplit url = Some u" "hostname u = Some h" "port u = Some q"
    "validate g allowed url = Inl e"
  shows "(\<exists>m d. e = AppExc SSRFError m d) \<or> (\<exists>h p. g h p = DnsRaised e)"
proof -
  from assms obtain p where
    "(\<exists>m d. e = AppExc SSRFError m d) \<or> resolve_host g h p = Inl e \<or>
     (\<exists>ips. check_answers h ips = Inl e)"
    by (cases q) (auto simp: validate_def raise_app_def Let_def bindE_Inl_iff split: if_splits)
  then show ?thesis using resolve_host_error check_answers_error by blast
qed

section \<open>The IPv4 ranges\<close>

text \<open>The special-purpose ranges an IPv4 destination must avoid.\<close>

definition blocked_nets4 :: "(int \<times> nat) list" where
  "blocked_nets4 =
     [(quad 0 0 0 0, 8), (quad 10 0 0 0, 8), (quad 100 64 0 0, 10), (quad 127 0 0 0, 8),
      (quad 169 254 0 0, 16), (quad 172 16 0 0, 12), (quad 192 0 0 0, 24), (quad 192 0 2 0, 24),
      (quad 192 168 0 0, 16), (quad 198 18 0 0, 15), (quad 198 51 100 0, 24),
      (quad 203 0 113 0, 24), (quad 224 0 0 0, 4), (quad 240 0 0 0, 4)]"

lemma public4_nets:
  "is_global4 n \<and> \<not> (is_private4 n \<or> is_loopback4 n \<or> is_link_local4 n \<or> is_multicast4 n \<or>
     is_reserved4 n \<or> n = 0) \<longleftrightarrow>
   \<not> list_ex (in_net4 n) blocked_nets4 \<or> n = quad 192 0 0 9 \<or> n = quad 192 0 0 10"
proof (cases "n = quad 192 0 0 9 \<or> n = quad 192 0 0 10")
  case True
  then show ?thesis by (elim disjE) (simp_all add: is_global4_def is_private4_def is_loopback4_def
      is_link_local4_def is_multicast4_def is_reserved4_def private_nets4_def
      private_exceptions4_def in_net4_def quad_def)
next
  case False
  have "in_net4 n (quad 192 0 0 170, 31) \<Longrightarrow> in_net4 n (quad 192 0 0 0, 24)"
    "in_net4 n (quad 255 255 255 255, 32) \<Longrightarrow> in_net4 n (quad 240 0 0 0, 4)"
    "n = 0 \<Longrightarrow> in_net4 n (quad 0 0 0 0, 8)"
    by (simp_all add: in_net4_def quad_def)
  moreover have "\<not> in_net4 n (quad 192 0 0 9, 32)" "\<not> in_net4 n (quad 192 0 0 10, 32)"
    using False by (simp_all add: in_net4_def)
  ultimately show ?thesis using False
    by (auto simp: is_global4_def is_private4_def is_loopback4_def is_link_local4_def
        is_multicast4_def is_reserved4_def private_nets4_def private_exceptions4_def
        blocked_nets4_def)
qed

lemma fec0_counts_as_public: "ip_is_public ''fec0::1''"
  by code_simp

section \<open>Properties\<close>

text \<open>C14: The guard admits a URL exactly when it is an http(s) URL whose host is inside the
  allow-list, is not a literal non-public address, and resolves - on the port that will be
  used, which is never 0 - to public addresses only.\<close>

theorem validate_admits:
  "(validate getaddrinfo allowed url = Inr t) =
   (\<exists>u. urlsplit url = Some u \<and> scheme u \<in> set allowed_schemes \<and>
      hostname u = Some (st_host t) \<and> host_allowed allowed (st_host t) \<and>
      (ip_address (st_host t) = None \<or> ip_is_public (st_host t)) \<and>
      effective_port u (st_port t) \<and> 0 < st_port t \<and> st_port t \<le> 65535 \<and>
      getaddrinfo (st_host t) (st_port t) = Addresses (resolved_ips t) \<and>
      list_all ip_is_public (resolved_ips t) \<and> st_url t = url)"
  unfolding validate_iff using effective_port_range by blast



text \<open>C28: An IPv4 destination counts as public exactly outside the special-purpose ranges (private,
  carrier-grade NAT, loopback, link-local with the cloud metadata address, documentation,
  benchmarking, multicast and reserved), but for the two anycast addresses in 192.0.0.0/24.\<close>

theorem public_ipv4:
  "ip_address s = Some (V4 n) \<Longrightarrow>
   ip_is_public s =
     (\<not> list_ex (in_net4 n) blocked_nets4 \<or> n = quad 192 0 0 9 \<or> n = quad 192 0 0 10)"
  unfolding public4_nets [symmetric] by (auto simp: ip_is_public_def)

theorem public_ipv4_witness: "\<not> ip_is_public ''169.254.169.254''"
proof -
  have "ip_address ''169.254.169.254'' = Some (V4 (quad 169 254 169 254))" by code_simp
  from public_ipv4 [OF this] show ?thesis
    by (simp add: blocked_nets4_def in_net4_def quad_def)
qed

end
