(* ===== verification/IocTypes.thy ===== *)
theory IocTypes
  imports Prelude
begin

text \<open>
  The enumerations of \<open>app/ioc/types.py\<close>.  Each is a \<open>StrEnum\<close>: a constructor per
  member, \<open>value\<close> its string, and \<open>from_value\<close> the call \<open>Enum(value)\<close>, which raises
  \<open>ValueError\<close> (here \<open>None\<close>) for a string that is no member's value.
\<close>

datatype ioc_type =
    Ipv4 | Ipv6 | Domain | Url | Md5 | Sha1 | Sha256 | Email | Hostname
  | Cve | MitreTechnique | Yara | Sigma

fun ioc_type_value :: "ioc_type \<Rightarrow> string" where
  "ioc_type_value Ipv4 = ''ipv4-addr''"
| "ioc_type_value Ipv6 = ''ipv6-addr''"
| "ioc_type_value Domain = ''domain-name''"
| "ioc_type_value Url = ''url''"
| "ioc_type_value Md5 = ''md5''"
| "ioc_type_value Sha1 = ''sha1''"
| "ioc_type_value Sha256 = ''sha256''"
| "ioc_type_value Email = ''email-addr''"
| "ioc_type_value Hostname = ''hostname''"
| "ioc_type_value Cve = ''cve''"
| "ioc_type_value MitreTechnique = ''attack-pattern''"
| "ioc_type_value Yara = ''yara''"
| "ioc_type_value Sigma = ''sigma''"

definition ioc_types :: "ioc_type list" where
  "ioc_types = [Ipv4, Ipv6, Domain, Url, Md5, Sha1, Sha256, Email, Hostname,
                Cve, MitreTechnique, Yara, Sigma]"

definition ioc_type_of :: "string \<Rightarrow> ioc_type option" where
  "ioc_type_of s = find (\<lambda>t. ioc_type_value t = s) ioc_types"

definition hash_types :: "ioc_type list" where
  "hash_types = [Md5, Sha1, Sha256]"

datatype severity = SevInfo | SevLow | SevMedium | SevHigh | SevCritical

fun severity_value :: "severity \<Rightarrow> string" where
  "severity_value SevInfo = ''info''"
| "severity_value SevLow = ''low''"
| "severity_value SevMedium = ''medium''"
| "severity_value SevHigh = ''high''"
| "severity_value SevCritical = ''critical''"

definition severity_of :: "string \<Rightarrow> severity option" where
  "severity_of s = find (\<lambda>t. severity_value t = s)
     [SevInfo, SevLow, SevMedium, SevHigh, SevCritical]"

datatype confidence = CUnknown | CLow | CMedium | CHigh | CConfirmed

fun confidence_value :: "confidence \<Rightarrow> string" where
  "confidence_value CUnknown = ''unknown''"
| "confidence_value CLow = ''low''"
| "confidence_value CMedium = ''medium''"
| "confidence_value CHigh = ''high''"
| "confidence_value CConfirmed = ''confirmed''"

definition confidence_of :: "string \<Rightarrow> confidence option" where
  "confidence_of s = find (\<lambda>t. confidence_value t = s)
     [CUnknown, CLow, CMedium, CHigh, CConfirmed]"

datatype threat_level = Clean | Low | Medium | High | Critical

fun threat_level_value :: "threat_level \<Rightarrow> string" where
  "threat_level_value Clean = ''clean''"
| "threat_level_value Low = ''low''"
| "threat_level_value Medium = ''medium''"
| "threat_level_value High = ''high''"
| "threat_level_value Critical = ''critical''"

datatype ioc_status = Active | Expired | Whitelisted | FalsePositive

fun ioc_status_value :: "ioc_status \<Rightarrow> string" where
  "ioc_status_value Active = ''active''"
| "ioc_status_value Expired = ''expired''"
| "ioc_status_value Whitelisted = ''whitelisted''"
| "ioc_status_value FalsePositive = ''false_positive''"

text \<open>Threat levels are ordered by severity, as the scoring engine's buckets are.\<close>

fun level_rank :: "threat_level \<Rightarrow> nat" where
  "level_rank Clean = 0"
| "level_rank Low = 1"
| "level_rank Medium = 2"
| "level_rank High = 3"
| "level_rank Critical = 4"

lemma level_rank_inj: "level_rank a = level_rank b \<Longrightarrow> a = b"
  by (cases a; cases b) auto

instantiation threat_level :: linorder
begin

definition less_eq_threat_level :: "threat_level \<Rightarrow> threat_level \<Rightarrow> bool" where
  "less_eq_threat_level a b \<longleftrightarrow> level_rank a \<le> level_rank b"

definition less_threat_level :: "threat_level \<Rightarrow> threat_level \<Rightarrow> bool" where
  "less_threat_level a b \<longleftrightarrow> level_rank a < level_rank b"

instance
  by standard
    (auto simp: less_eq_threat_level_def less_threat_level_def intro: level_rank_inj)

end

lemma ioc_type_of_value [simp]: "ioc_type_of (ioc_type_value t) = Some t"
  by (cases t) (simp_all add: ioc_type_of_def ioc_types_def)

lemma ioc_type_of_Some: "ioc_type_of s = Some t \<longleftrightarrow> s = ioc_type_value t"
  by (auto simp: ioc_type_of_def find_Some_iff)
    (metis ioc_type_of_def ioc_type_of_value find_Some_iff)

lemma ioc_type_value_inj [simp]: "ioc_type_value a = ioc_type_value b \<longleftrightarrow> a = b"
  by (metis ioc_type_of_value option.inject)

lemma severity_of_value [simp]: "severity_of (severity_value t) = Some t"
  by (cases t) (simp_all add: severity_of_def)

lemma confidence_of_value [simp]: "confidence_of (confidence_value t) = Some t"
  by (cases t) (simp_all add: confidence_of_def)

lemma threat_level_value_inj [simp]:
  "threat_level_value a = threat_level_value b \<longleftrightarrow> a = b"
  by (cases a; cases b) simp_all

end
