(* ===== verification/Scoring.thy ===== *)
theory Scoring
  imports PyStr IocTypes
begin

text \<open>
  The threat-scoring engine: \<open>app/scoring/engine.py\<close>.  Python floats are modelled by
  real numbers, so the results are those of exact arithmetic; \<open>round\<close> is Python's
  rounding of halves to the even neighbour.
\<close>

section \<open>Rounding\<close>

definition round_half_even :: "real \<Rightarrow> int" where
  "round_half_even x =
     (let f = \<lfloor>x\<rfloor>; d = x - of_int f in
      if d < 1 / 2 then f else if d > 1 / 2 then f + 1 else if even f then f else f + 1)"

text \<open>\<open>round(x, 2)\<close>.\<close>

definition round2 :: "real \<Rightarrow> real" where
  "round2 x = of_int (round_half_even (x * 100)) / 100"

lemma round_half_even_near: "\<bar>of_int (round_half_even x) - x\<bar> \<le> 1 / 2"
proof -
  have "of_int \<lfloor>x\<rfloor> \<le> x" "x < of_int \<lfloor>x\<rfloor> + 1" by linarith+
  then show ?thesis by (auto simp: round_half_even_def Let_def)
qed

lemma round_half_even_mono: "x \<le> y \<Longrightarrow> round_half_even x \<le> round_half_even y"
proof (rule ccontr)
  assume "x \<le> y" "\<not> round_half_even x \<le> round_half_even y"
  then have "of_int (round_half_even y) + 1 \<le> (of_int (round_half_even x) :: real)" by linarith
  with \<open>x \<le> y\<close> round_half_even_near [of x] round_half_even_near [of y] have "x = y" by linarith
  with \<open>\<not> _\<close> show False by simp
qed

lemma round_half_even_int [simp]: "round_half_even (of_int n) = n"
  by (simp add: round_half_even_def)

lemma round2_near: "\<bar>round2 x - x\<bar> \<le> 1 / 200"
  using round_half_even_near [of "x * 100"] by (simp add: round2_def field_simps)

section \<open>Helpers\<close>

definition weights :: "(string \<times> real) list" where
  "weights =
     [(''source_reputation'', 22 / 100),
      (''detection_ratio'', 20 / 100),
      (''blacklist_presence'', 14 / 100),
      (''confidence'', 12 / 100),
      (''recency'', 10 / 100),
      (''frequency'', 8 / 100),
      (''geo_risk'', 6 / 100),
      (''port_risk'', 5 / 100),
      (''historical_activity'', 3 / 100)]"

fun confidence_score :: "confidence \<Rightarrow> real" where
  "confidence_score CUnknown = 2 / 10"
| "confidence_score CLow = 4 / 10"
| "confidence_score CMedium = 6 / 10"
| "confidence_score CHigh = 8 / 10"
| "confidence_score CConfirmed = 1"

definition risky_ports :: "int list" where
  "risky_ports = [21, 22, 23, 135, 139, 445, 1433, 3306, 3389, 4444, 5900, 6379, 8080, 9001, 9050]"

definition high_risk_geos :: "string list" where
  "high_risk_geos = [''RU'', ''CN'', ''KP'', ''IR'', ''BY'']"

definition clamp01 :: "real \<Rightarrow> real" where
  "clamp01 value = max 0 (min 1 value)"

definition detection_ratio :: "int \<Rightarrow> int \<Rightarrow> real" where
  "detection_ratio detected total_engines =
     (if total_engines \<le> 0 then 0 else clamp01 (of_int detected / of_int total_engines))"

definition recency_score :: "real \<Rightarrow> real \<Rightarrow> real" where
  "recency_score age_days half_life_days =
     (let age = (if age_days < 0 then 0 else age_days)
      in clamp01 ((1 / 2) powr (age / half_life_days)))"

definition frequency_score :: "int \<Rightarrow> int \<Rightarrow> real" where
  "frequency_score sightings saturate_at =
     (if sightings \<le> 0 then 0
      else clamp01 (ln (1 + of_int sightings) / ln (1 + of_int saturate_at)))"

definition source_reputation_score :: "int \<Rightarrow> int \<Rightarrow> real" where
  "source_reputation_score reputable_sources saturate_at =
     (if reputable_sources \<le> 0 then 0
      else clamp01 (of_int reputable_sources / of_int saturate_at))"

definition geo_risk_score :: "string option \<Rightarrow> real" where
  "geo_risk_score country_code =
     (case country_code of
        None \<Rightarrow> 0
      | Some c \<Rightarrow> if c = [] then 0 else if py_upper c \<in> set high_risk_geos then 1 else 0)"

definition port_risk_score :: "int list option \<Rightarrow> real" where
  "port_risk_score open_ports =
     (case open_ports of
        None \<Rightarrow> 0
      | Some ps \<Rightarrow> if ps = [] then 0
                   else clamp01 (of_nat (length (filter (\<lambda>p. p \<in> set risky_ports) ps)) / 3))"

text \<open>The keyword defaults the callers use.\<close>

definition default_half_life :: real where "default_half_life = 30"
definition default_frequency_cap :: int where "default_frequency_cap = 20"
definition default_source_cap :: int where "default_source_cap = 4"

section \<open>The score\<close>

record score_signals =
  sig_source_reputation :: real
  sig_detection_ratio :: real
  sig_blacklist_presence :: real
  sig_confidence :: real
  sig_recency :: real
  sig_frequency :: real
  sig_geo_risk :: real
  sig_port_risk :: real
  sig_historical_activity :: real

definition default_signals :: score_signals where
  "default_signals =
     \<lparr>sig_source_reputation = 0, sig_detection_ratio = 0, sig_blacklist_presence = 0,
      sig_confidence = 0, sig_recency = 0, sig_frequency = 0, sig_geo_risk = 0,
      sig_port_risk = 0, sig_historical_activity = 0\<rparr>"

record score_result =
  score :: int
  level :: threat_level
  contributions :: "(string \<times> real) list"

definition level_for_score :: "real \<Rightarrow> threat_level" where
  "level_for_score s =
     (if s \<ge> 85 then Critical
      else if s \<ge> 65 then High
      else if s \<ge> 40 then Medium
      else if s \<ge> 15 then Low
      else Clean)"

definition signal_values :: "score_signals \<Rightarrow> (string \<times> real) list" where
  "signal_values s =
     [(''source_reputation'', clamp01 (sig_source_reputation s)),
      (''detection_ratio'', clamp01 (sig_detection_ratio s)),
      (''blacklist_presence'', clamp01 (sig_blacklist_presence s)),
      (''confidence'', clamp01 (sig_confidence s)),
      (''recency'', clamp01 (sig_recency s)),
      (''frequency'', clamp01 (sig_frequency s)),
      (''geo_risk'', clamp01 (sig_geo_risk s)),
      (''port_risk'', clamp01 (sig_port_risk s)),
      (''historical_activity'', clamp01 (sig_historical_activity s))]"

definition total_weight :: real where
  "total_weight = sum_list (map snd weights)"

definition raw_contributions :: "score_signals \<Rightarrow> (string \<times> real) list" where
  "raw_contributions s =
     map (\<lambda>(name, w). (name, the (map_of (signal_values s) name) * w)) weights"

definition raw_score :: "score_signals \<Rightarrow> real" where
  "raw_score s = sum_list (map snd (raw_contributions s)) / total_weight"

definition compute_threat_score :: "score_signals \<Rightarrow> score_result" where
  "compute_threat_score s =
     (let sc = round_half_even (raw_score s * 100) in
      \<lparr>score = sc,
       level = level_for_score (of_int sc),
       contributions = map (\<lambda>(k, v). (k, round2 (v / total_weight * 100))) (raw_contributions s)\<rparr>)"

section \<open>Lemmas\<close>

lemma clamp01_bounds: "0 \<le> clamp01 v" "clamp01 v \<le> 1"
  by (simp_all add: clamp01_def)

lemma clamp01_mono: "u \<le> v \<Longrightarrow> clamp01 u \<le> clamp01 v"
  by (auto simp: clamp01_def)

lemma clamp01_id: "0 \<le> v \<Longrightarrow> v \<le> 1 \<Longrightarrow> clamp01 v = v"
  by (simp add: clamp01_def)

lemma total_weight_1: "total_weight = 1"
  by (simp add: total_weight_def weights_def)

lemma raw_score_eq:
  "raw_score s =
     clamp01 (sig_source_reputation s) * (22 / 100) + clamp01 (sig_detection_ratio s) * (20 / 100) +
     clamp01 (sig_blacklist_presence s) * (14 / 100) + clamp01 (sig_confidence s) * (12 / 100) +
     clamp01 (sig_recency s) * (10 / 100) + clamp01 (sig_frequency s) * (8 / 100) +
     clamp01 (sig_geo_risk s) * (6 / 100) + clamp01 (sig_port_risk s) * (5 / 100) +
     clamp01 (sig_historical_activity s) * (3 / 100)"
  by (simp add: raw_score_def total_weight_1 raw_contributions_def weights_def signal_values_def)

lemma raw_score_bounds: "0 \<le> raw_score s" "raw_score s \<le> 1"
  using clamp01_bounds [of "sig_source_reputation s"] clamp01_bounds [of "sig_detection_ratio s"]
    clamp01_bounds [of "sig_blacklist_presence s"] clamp01_bounds [of "sig_confidence s"]
    clamp01_bounds [of "sig_recency s"] clamp01_bounds [of "sig_frequency s"]
    clamp01_bounds [of "sig_geo_risk s"] clamp01_bounds [of "sig_port_risk s"]
    clamp01_bounds [of "sig_historical_activity s"]
  unfolding raw_score_eq by linarith+

lemma level_mono: "x \<le> y \<Longrightarrow> level_for_score x \<le> level_for_score y"
  by (auto simp: level_for_score_def less_eq_threat_level_def)

text \<open>Every signal of \<open>s\<close> is at most that of \<open>t\<close>.\<close>

definition signals_le :: "score_signals \<Rightarrow> score_signals \<Rightarrow> bool" where
  "signals_le s t \<longleftrightarrow>
     sig_source_reputation s \<le> sig_source_reputation t \<and> sig_detection_ratio s \<le> sig_detection_ratio t \<and>
     sig_blacklist_presence s \<le> sig_blacklist_presence t \<and> sig_confidence s \<le> sig_confidence t \<and>
     sig_recency s \<le> sig_recency t \<and> sig_frequency s \<le> sig_frequency t \<and>
     sig_geo_risk s \<le> sig_geo_risk t \<and> sig_port_risk s \<le> sig_port_risk t \<and>
     sig_historical_activity s \<le> sig_historical_activity t"

lemma raw_score_mono: "signals_le s t \<Longrightarrow> raw_score s \<le> raw_score t"
  unfolding raw_score_eq signals_le_def
  by (intro add_mono mult_right_mono clamp01_mono) simp_all

lemma sum_round2:
  "\<bar>sum_list (map (\<lambda>x. round2 (g x)) xs) - sum_list (map g xs)\<bar> \<le> of_nat (length xs) / 200"
proof (induction xs)
  case (Cons x xs)
  let ?a = "sum_list (map (\<lambda>x. round2 (g x)) xs)" and ?b = "sum_list (map g xs)"
  have "\<bar>(round2 (g x) + ?a) - (g x + ?b)\<bar> \<le> \<bar>round2 (g x) - g x\<bar> + \<bar>?a - ?b\<bar>" by linarith
  also have "\<dots> \<le> 1 / 200 + of_nat (length xs) / 200"
    using Cons.IH round2_near by (rule add_mono [rotated])
  finally show ?case by (simp add: add_divide_distrib)
qed simp

lemma score_range:
  "0 \<le> score (compute_threat_score s) \<and> score (compute_threat_score s) \<le> 100 \<and>
   level (compute_threat_score s) = level_for_score (of_int (score (compute_threat_score s)))"
proof -
  have "round_half_even (of_int 0) \<le> round_half_even (raw_score s * 100)"
    "round_half_even (raw_score s * 100) \<le> round_half_even (of_int 100)"
    using raw_score_bounds [of s] by (intro round_half_even_mono; simp)+
  moreover have r: "round_half_even 0 = 0" "round_half_even 100 = 100"
    using round_half_even_int [of 0] round_half_even_int [of 100] by simp_all
  ultimately show ?thesis by (simp add: compute_threat_score_def Let_def)
qed

section \<open>Properties\<close>

text \<open>The score is an integer between 0 and 100, the level is the bucket of that very score,
  and a source at its worst on every signal scores exactly 100, one at its best exactly 0.\<close>

theorem score_bounds:
  "0 \<le> score (compute_threat_score s) \<and> score (compute_threat_score s) \<le> 100 \<and>
   level (compute_threat_score s) = level_for_score (of_int (score (compute_threat_score s))) \<and>
   score (compute_threat_score default_signals) = 0 \<and>
   score (compute_threat_score
     \<lparr>sig_source_reputation = 1, sig_detection_ratio = 1, sig_blacklist_presence = 1,
      sig_confidence = 1, sig_recency = 1, sig_frequency = 1, sig_geo_risk = 1,
      sig_port_risk = 1, sig_historical_activity = 1\<rparr>) = 100"
proof -
  have "round_half_even 0 = 0" "round_half_even 100 = 100"
    using round_half_even_int [of 0] round_half_even_int [of 100] by simp_all
  moreover have "raw_score default_signals = 0"
    by (simp add: raw_score_eq default_signals_def clamp01_def)
  moreover have "raw_score \<lparr>sig_source_reputation = 1, sig_detection_ratio = 1,
      sig_blacklist_presence = 1, sig_confidence = 1, sig_recency = 1, sig_frequency = 1,
      sig_geo_risk = 1, sig_port_risk = 1, sig_historical_activity = 1\<rparr> = 1"
    by (simp add: raw_score_eq clamp01_def)
  ultimately show ?thesis using score_range [of s] by (simp add: compute_threat_score_def Let_def)
qed

text \<open>C20: Scoring is monotone: raising any signal never lowers the score or the threat level.\<close>

theorem score_monotone:
  "signals_le s t \<Longrightarrow>
   score (compute_threat_score s) \<le> score (compute_threat_score t) \<and>
   level (compute_threat_score s) \<le> level (compute_threat_score t)"
  using round_half_even_mono [of "raw_score s * 100" "raw_score t * 100"] raw_score_mono [of s t]
  by (auto simp: compute_threat_score_def Let_def intro!: level_mono)

theorem score_monotone_witness:
  "score (compute_threat_score default_signals) \<le>
   score (compute_threat_score (default_signals\<lparr>sig_recency := 1\<rparr>))"
  using score_monotone [of default_signals "default_signals\<lparr>sig_recency := 1\<rparr>"]
  by (simp add: signals_le_def default_signals_def)

text \<open>C24: The reported contributions explain the score: they name every weighted signal once, and
  their sum differs from the score only by rounding (half a point for the score, half a
  hundredth for each contribution).\<close>

theorem score_explained:
  "map fst (contributions (compute_threat_score s)) = map fst weights \<and>
   \<bar>sum_list (map snd (contributions (compute_threat_score s))) -
     of_int (score (compute_threat_score s))\<bar> \<le> 1 / 2 + 9 / 200"
proof -
  let ?c = "raw_contributions s"
  have names: "map fst (contributions (compute_threat_score s)) = map fst weights"
    by (simp add: compute_threat_score_def Let_def raw_contributions_def weights_def)
  have snds: "map snd (contributions (compute_threat_score s)) =
      map (\<lambda>kv. round2 (snd kv * 100)) ?c"
    by (simp add: compute_threat_score_def Let_def total_weight_1 comp_def case_prod_beta)
  have "sum_list (map (\<lambda>kv. snd kv * 100) ?c) = raw_score s * 100"
    by (simp add: raw_score_def total_weight_1 sum_list_mult_const)
  moreover have "length ?c = 9" by (simp add: raw_contributions_def weights_def)
  ultimately have "\<bar>sum_list (map snd (contributions (compute_threat_score s))) - raw_score s * 100\<bar> \<le> 9 / 200"
    using sum_round2 [of "\<lambda>kv. snd kv * 100" ?c] unfolding snds by simp
  moreover have "\<bar>of_int (score (compute_threat_score s)) - raw_score s * 100\<bar> \<le> 1 / 2"
    using round_half_even_near by (simp add: compute_threat_score_def Let_def)
  ultimately show ?thesis using names by linarith
qed

text \<open>Every helper yields a normalised signal, and the recency signal halves with each half-life:
  it is 1 for a fresh (or future-dated) indicator and never grows with age.\<close>

theorem signal_helpers:
  "{detection_ratio d n, recency_score a h, frequency_score k c, source_reputation_score r q,
    geo_risk_score g, port_risk_score p} \<subseteq> {0..1} \<and>
   recency_score (min a 0) default_half_life = 1 \<and>
   recency_score (a + \<bar>b\<bar>) default_half_life \<le> recency_score a default_half_life \<and>
   recency_score \<bar>b\<bar> default_half_life = (1 / 2) powr (\<bar>b\<bar> / default_half_life)"
proof (intro conjI)
  show "{detection_ratio d n, recency_score a h, frequency_score k c, source_reputation_score r q,
    geo_risk_score g, port_risk_score p} \<subseteq> {0..1}"
    using clamp01_bounds
    by (auto simp: detection_ratio_def recency_score_def frequency_score_def
        source_reputation_score_def geo_risk_score_def port_risk_score_def Let_def split: option.splits)
  show "recency_score (min a 0) default_half_life = 1"
    by (auto simp: recency_score_def clamp01_def Let_def min_def)
  have anti: "(1 / 2 :: real) powr (y / 30) \<le> (1 / 2) powr (x / 30)" if "x \<le> y" for x y
    using that by (intro powr_mono') simp_all
  then show "recency_score (a + \<bar>b\<bar>) default_half_life \<le> recency_score a default_half_life"
    unfolding recency_score_def Let_def default_half_life_def by (intro clamp01_mono anti) auto
  show "recency_score \<bar>b\<bar> default_half_life = (1 / 2) powr (\<bar>b\<bar> / default_half_life)"
    using anti [of 0 "\<bar>b\<bar>"] by (simp add: recency_score_def default_half_life_def clamp01_id)
qed

end
