(* ===== verification/Indicators.thy ===== *)
theory Indicators
  imports PyNet Errors IocTypes
begin

text \<open>
  Indicator parsing, classification and (de)fanging: \<open>app/ioc/indicators.py\<close>.  The
  text of an exception raised inside the standard library is not modelled; \<open>PyExc\<close>
  carries the name of the function that raised it.
\<close>

section \<open>Refanging and defanging\<close>

definition refang_replacements :: "(string \<times> string) list" where
  "refang_replacements =
     [(''hxxps'', ''https''),
      (''hxxp'', ''http''),
      (''fxp'', ''ftp''),
      (''[.]'', ''.''),
      (''(.)'', ''.''),
      (''{.}'', ''.''),
      (''[dot]'', ''.''),
      (''(dot)'', ''.''),
      ('' dot '', ''.''),
      (''[:]'', '':''),
      (''[://]'', ''://''),
      (''[at]'', ''@''),
      (''(at)'', ''@''),
      (''[@]'', ''@''),
      ([CHR 0x5C, CHR ''.''], ''.'')]"

definition refang_step :: "string \<Rightarrow> string \<times> string \<Rightarrow> string" where
  "refang_step lowered tr =
     (if py_isalpha (fst tr) \<or> startswith (fst tr) ''h'' \<or> startswith (fst tr) ''f''
      then re_sub_ci (fst tr) (snd tr) lowered
      else py_replace (fst tr) (snd tr) lowered)"

definition refang :: "string \<Rightarrow> string" where
  "refang value = py_strip (foldl refang_step (py_strip value) refang_replacements)"

definition defang :: "string \<Rightarrow> string" where
  "defang value =
     py_replace ''@'' ''[at]''
       (py_replace ''://'' ''[://]''
         (py_replace ''.'' ''[.]''
           (py_replace ''http'' ''hxxp'' value)))"

section \<open>The patterns\<close>

abbreviation lit :: "char \<Rightarrow> re" where
  "lit x \<equiv> Cls (\<lambda>c. c = x)"

abbreviation lit_ci :: "char \<Rightarrow> re" where
  "lit_ci x \<equiv> Cls (\<lambda>c. ci_eq c x)"

definition is_local_char :: "char \<Rightarrow> bool" where
  "is_local_char c \<longleftrightarrow> is_alnum c \<or> c \<in> set ''._%+-''"

definition is_mail_host_char :: "char \<Rightarrow> bool" where
  "is_mail_host_char c \<longleftrightarrow> is_alnum c \<or> c \<in> set ''.-''"

definition is_label_char :: "char \<Rightarrow> bool" where
  "is_label_char c \<longleftrightarrow> is_alnum c \<or> c = CHR ''-''"

definition hash_re :: "nat \<Rightarrow> re" where
  "hash_re n = seqs [Bol, Rep n (Some n) (Cls is_hex), Eol]"

definition cve_re :: re where
  "cve_re = seqs [Bol, lit_ci CHR ''C'', lit_ci CHR ''V'', lit_ci CHR ''E'', lit CHR ''-'',
     Rep 4 (Some 4) (Cls is_digit), lit CHR ''-'', Rep 4 (Some 7) (Cls is_digit), Eol]"

definition technique_re :: re where
  "technique_re = seqs [Bol, lit CHR ''T'', Rep 4 (Some 4) (Cls is_digit),
     Rep 0 (Some 1) (Seq (lit CHR ''.'') (Rep 3 (Some 3) (Cls is_digit))), Eol]"

definition email_re :: re where
  "email_re = seqs [Bol, Rep 1 None (Cls is_local_char), lit CHR ''@'',
     Rep 1 None (Cls is_mail_host_char), lit CHR ''.'', Rep 2 None (Cls is_letter), Eol]"

definition domain_re :: re where
  "domain_re = seqs [Bol,
     Ahead (Seq (Rep 1 (Some 253) (Cls (\<lambda>c. c \<noteq> CHR 0x0A))) Eol),
     NotAhead (lit CHR ''-''),
     Rep 1 None (Seq (Rep 1 (Some 63) (Cls is_label_char)) (lit CHR ''.'')),
     Rep 2 (Some 63) (Cls is_letter), Eol]"

section \<open>Classification\<close>

record parsed_indicator =
  ptype :: ioc_type
  pvalue :: string

definition is_hash :: "string \<Rightarrow> bool" where
  "is_hash value =
     (let v = py_strip value in
      re_match (hash_re 32) v \<or> re_match (hash_re 40) v \<or> re_match (hash_re 64) v)"

definition hash_type :: "string \<Rightarrow> ioc_type option" where
  "hash_type value =
     (if re_match (hash_re 32) value then Some Md5
      else if re_match (hash_re 40) value then Some Sha1
      else if re_match (hash_re 64) value then Some Sha256
      else None)"

definition ip_type :: "string \<Rightarrow> ioc_type option" where
  "ip_type value =
     (case ip_address value of
        None \<Rightarrow> None
      | Some ip \<Rightarrow> Some (if ip_version ip = 6 then Ipv6 else Ipv4))"

text \<open>\<open>repr\<close> of a string, which error messages embed.\<close>

definition repr_char :: "char \<Rightarrow> char \<Rightarrow> string" where
  "repr_char q c =
     (if c = q \<or> c = CHR 0x5C then [CHR 0x5C, c]
      else if c = CHR 0x0A then [CHR 0x5C, CHR ''n'']
      else if c = CHR 0x0D then [CHR 0x5C, CHR ''r'']
      else if c = CHR 0x09 then [CHR 0x5C, CHR ''t'']
      else if ord_of c < 32 \<or> ord_of c = 127
      then [CHR 0x5C, CHR ''x'', digit_char (ord_of c div 16), digit_char (ord_of c mod 16)]
      else [c])"

definition py_repr :: "string \<Rightarrow> string" where
  "py_repr s =
     (let q = (if CHR 0x27 \<in> set s \<and> CHR 0x22 \<notin> set s then CHR 0x22 else CHR 0x27)
      in q # concat (map (repr_char q) s) @ [q])"

definition unrecognised :: "string \<Rightarrow> exn" where
  "unrecognised raw = raise_app UnknownIndicatorError
     (Some (''Unrecognised indicator: '' @ py_repr raw)) [(''value'', JStr raw)]"

text \<open>
  Does the value read as a URL?  \<open>urlsplit\<close> raises \<open>ValueError\<close> on a malformed network
  location, and nothing catches it.
\<close>

definition reads_as_url :: "string \<Rightarrow> exn + bool" where
  "reads_as_url value =
     (if py_in ''://'' value
      then (case urlsplit value of
              None \<Rightarrow> Inl (PyExc ValueError ''urlsplit'')
            | Some parts \<Rightarrow> Inr (scheme parts \<noteq> [] \<and> netloc parts \<noteq> []))
      else Inr False)"

definition bare_host :: "string \<Rightarrow> string" where
  "bare_host value =
     (if py_count CHR '':'' value = 1 \<and> CHR ''.'' \<in> set value
      then before CHR '':'' value else value)"

definition classify_name :: "string \<Rightarrow> string \<Rightarrow> exn + parsed_indicator" where
  "classify_name raw value =
     (if re_match email_re value then Inr \<lparr>ptype = Email, pvalue = py_lower value\<rparr>
      else case ip_type (bare_host value) of
        Some t \<Rightarrow> Inr \<lparr>ptype = t, pvalue = bare_host value\<rparr>
      | None \<Rightarrow>
          if re_match domain_re value then Inr \<lparr>ptype = Domain, pvalue = py_lower value\<rparr>
          else Inl (unrecognised raw))"

definition classify_value :: "string \<Rightarrow> string \<Rightarrow> exn + parsed_indicator" where
  "classify_value raw value =
     (if value = []
      then Inl (raise_app UnknownIndicatorError (Some ''Empty indicator.'') [])
      else case hash_type value of
        Some t \<Rightarrow> Inr \<lparr>ptype = t, pvalue = py_lower value\<rparr>
      | None \<Rightarrow>
          if re_match cve_re value then Inr \<lparr>ptype = Cve, pvalue = py_upper value\<rparr>
          else if re_match technique_re value
          then Inr \<lparr>ptype = MitreTechnique, pvalue = py_upper value\<rparr>
          else bindE (reads_as_url value) (\<lambda>url.
            if url then Inr \<lparr>ptype = Url, pvalue = value\<rparr>
            else classify_name raw value))"

definition classify_indicator :: "string \<Rightarrow> exn + parsed_indicator" where
  "classify_indicator raw = classify_value raw (py_strip (refang raw))"

definition extract_host :: "string \<Rightarrow> ioc_type \<Rightarrow> exn + string option" where
  "extract_host indicator_value t =
     (if t \<in> {Ipv4, Ipv6, Domain, Hostname} then Inr (Some indicator_value)
      else if t = Url
      then (case urlsplit indicator_value of
              None \<Rightarrow> Inl (PyExc ValueError ''urlsplit'')
            | Some u \<Rightarrow> Inr (hostname u))
      else Inr None)"

section \<open>What the patterns match\<close>

text \<open>
  A stripped text has no final newline, so each anchored pattern matches exactly the
  texts of its shape.
\<close>

definition trimmed :: "string \<Rightarrow> bool" where
  "trimmed s \<longleftrightarrow> s = [] \<or> \<not> is_space (hd s) \<and> \<not> is_space (last s)"

lemma trimmed_strip [simp]: "trimmed (py_strip s)"
  using strip_hd strip_last unfolding trimmed_def by blast

lemma trimmed_id: "trimmed s \<Longrightarrow> py_strip s = s"
  unfolding trimmed_def by (rule strip_id)

lemma trimmed_no_space: "\<forall>c\<in>set s. \<not> is_space c \<Longrightarrow> trimmed s"
  by (auto simp: trimmed_def)

lemma trimmed_end: "trimmed s \<Longrightarrow> s = [] \<or> last s \<noteq> CHR 0x0A"
  by (auto simp: trimmed_def is_space_def)

lemmas match_lang = anchored_match [OF trimmed_end]

lemma hash_re_iff:
  "trimmed s \<Longrightarrow> re_match (hash_re n) s \<longleftrightarrow> list_all is_hex s \<and> length s = n"
  using match_lang [of s "[Rep n (Some n) (Cls is_hex)]"]
  by (auto simp: hash_re_def lang_Rep_Cls simp del: lang.simps(5))

text \<open>The shapes, as executable predicates.\<close>

definition cve_shape :: "string \<Rightarrow> bool" where
  "cve_shape s \<longleftrightarrow>
     py_upper (take 4 s) = ''CVE-'' \<and>
     list_all is_digit (take 4 (drop 4 s)) \<and> s ! 8 = CHR ''-'' \<and>
     list_all is_digit (drop 9 s) \<and> 13 \<le> length s \<and> length s \<le> 16"

definition technique_shape :: "string \<Rightarrow> bool" where
  "technique_shape s \<longleftrightarrow>
     startswith s ''T'' \<and> list_all is_digit (take 4 (drop 1 s)) \<and>
     (length s = 5 \<or>
      length s = 9 \<and> s ! 5 = CHR ''.'' \<and> list_all is_digit (drop 6 s))"

definition email_shape :: "string \<Rightarrow> bool" where
  "email_shape s \<longleftrightarrow>
     (let host = after CHR ''@'' s; tld = after_last CHR ''.'' host in
      py_count CHR ''@'' s = 1 \<and>
      before CHR ''@'' s \<noteq> [] \<and> list_all is_local_char (before CHR ''@'' s) \<and>
      list_all is_mail_host_char host \<and> CHR ''.'' \<in> set host \<and>
      before_last CHR ''.'' host \<noteq> [] \<and> list_all is_letter tld \<and> 2 \<le> length tld)"

definition domain_shape :: "string \<Rightarrow> bool" where
  "domain_shape s \<longleftrightarrow>
     (let ls = split_on CHR ''.'' s in
      length s \<le> 253 \<and> \<not> startswith s ''-'' \<and> 2 \<le> length ls \<and>
      list_all (\<lambda>l. l \<noteq> [] \<and> length l \<le> 63 \<and> list_all is_label_char l) ls \<and>
      list_all is_letter (last ls) \<and> 2 \<le> length (last ls))"

lemma lang_Seq_Cls:
  "w \<in> lang (Seq (Cls p) b) \<longleftrightarrow> w \<noteq> [] \<and> p (hd w) \<and> tl w \<in> lang b"
proof -
  have "w \<in> lang (Seq (Cls p) b) \<longleftrightarrow> (\<exists>x v. w = x # v \<and> p x \<and> v \<in> lang b)"
    by (simp only: lang.simps mem_Collect_eq) (metis append_Cons append_Nil)
  then show ?thesis by (cases w) simp_all
qed

lemma lang_Seq_Rep:
  "w \<in> lang (Seq (Rep n (Some n) (Cls p)) b) \<longleftrightarrow>
     n \<le> length w \<and> list_all p (take n w) \<and> drop n w \<in> lang b"
proof -
  have "w \<in> lang (Seq (Rep n (Some n) (Cls p)) b) \<longleftrightarrow>
      (\<exists>u v. w = u @ v \<and> list_all p u \<and> length u = n \<and> v \<in> lang b)"
    unfolding lang.simps(3) mem_Collect_eq lang_Rep_Cls count_in_simps by (metis order_antisym order_refl)
  also have "\<dots> \<longleftrightarrow> n \<le> length w \<and> list_all p (take n w) \<and> drop n w \<in> lang b"
    by (metis append_eq_conv_conj append_take_drop_id length_take length_append le_add1 min.absorb2)
  finally show ?thesis .
qed

lemma lang_opt: "w \<in> lang (Rep 0 (Some 1) r) \<longleftrightarrow> w = [] \<or> w \<in> lang r"
proof
  assume "w \<in> lang (Rep 0 (Some 1) r)"
  then obtain ws where "w = concat ws" "set ws \<subseteq> lang r" "length ws \<le> 1" by auto
  then show "w = [] \<or> w \<in> lang r" by (cases ws) auto
next
  assume "w = [] \<or> w \<in> lang r"
  then have "(w = concat [] \<and> set [] \<subseteq> lang r \<and> count_in (length ([] :: string list)) 0 (Some 1)) \<or>
     (w = concat [w] \<and> set [w] \<subseteq> lang r \<and> count_in (length [w]) 0 (Some 1))" by auto
  then show "w \<in> lang (Rep 0 (Some 1) r)" unfolding lang.simps by blast
qed

lemmas lang_mem = lang_Seq_Cls lang_Seq_Rep lang_opt lang_Rep_Cls count_in_simps

lemma tl_drop_Suc: "tl (drop n xs) = drop (Suc n) xs"
  by (simp add: drop_Suc tl_drop)

lemma upper_dash: "upper_char d = CHR ''-'' \<longleftrightarrow> d = CHR ''-''"
  by (rule upper_char_fix) code_simp

lemma cve_re_iff:
  assumes t: "trimmed s"
  shows "re_match cve_re s \<longleftrightarrow> cve_shape s"
proof -
  have up: "upper_char CHR ''C'' = CHR ''C''" "upper_char CHR ''V'' = CHR ''V''"
    "upper_char CHR ''E'' = CHR ''E''" by code_simp+
  have m: "re_match cve_re s \<longleftrightarrow> s \<in> lang (seqs [lit_ci CHR ''C'', lit_ci CHR ''V'',
     lit_ci CHR ''E'', lit CHR ''-'',
     Rep 4 (Some 4) (Cls is_digit), lit CHR ''-'', Rep 4 (Some 7) (Cls is_digit)])"
    unfolding cve_re_def by (subst match_lang [OF t, symmetric]) simp_all
  show ?thesis
    unfolding m seqs.simps lang_mem cve_shape_def
    using up
    by (cases s; cases "tl s"; cases "tl (tl s)"; cases "tl (tl (tl s))")
      (auto simp: py_upper_def upper_dash hd_drop_conv_nth tl_drop_Suc simp flip: upper_eq_iff_ci) 
qed

lemma technique_re_iff:
  assumes t: "trimmed s"
  shows "re_match technique_re s \<longleftrightarrow> technique_shape s"
proof -
  have m: "re_match technique_re s \<longleftrightarrow> s \<in> lang (seqs [lit CHR ''T'', Rep 4 (Some 4) (Cls is_digit),
      Rep 0 (Some 1) (Seq (lit CHR ''.'') (Rep 3 (Some 3) (Cls is_digit)))])"
    unfolding technique_re_def by (subst match_lang [OF t, symmetric]) simp_all
  show ?thesis
    unfolding m seqs.simps lang_mem technique_shape_def startswith_def
    by (cases s) (auto simp: hd_drop_conv_nth tl_drop_Suc)
qed

lemma email_re_iff:
  assumes t: "trimmed s"
  shows "re_match email_re s \<longleftrightarrow> email_shape s"
proof -
  let ?shape = "\<lambda>l h t. s = l @ CHR ''@'' # h @ CHR ''.'' # t \<and>
      list_all is_local_char l \<and> l \<noteq> [] \<and> list_all is_mail_host_char h \<and> h \<noteq> [] \<and>
      list_all is_letter t \<and> 2 \<le> length t"
  have at: "\<not> is_local_char CHR ''@''" "\<not> is_mail_host_char CHR ''@''" "\<not> is_letter CHR ''.''"
    "is_mail_host_char CHR ''.''" by code_simp+
  have letter: "is_letter x \<Longrightarrow> is_mail_host_char x" for x
    by (simp add: is_mail_host_char_def is_alnum_def)
  have "re_match email_re s \<longleftrightarrow> s \<in> lang (seqs [Rep 1 None (Cls is_local_char), lit CHR ''@'',
     Rep 1 None (Cls is_mail_host_char), lit CHR ''.'', Rep 2 None (Cls is_letter)])"
    unfolding email_re_def by (subst match_lang [OF t, symmetric]) simp_all
  also have "\<dots> \<longleftrightarrow> (\<exists>l h t. ?shape l h t)"
    unfolding seqs.simps lang.simps(1,3) mem_Collect_eq lang_Rep_Cls count_in_simps
    by (simp add: Suc_le_eq) blast
  finally have m: "re_match email_re s \<longleftrightarrow> (\<exists>l h t. ?shape l h t)" .
  show ?thesis
  proof
    assume "re_match email_re s"
    then obtain l h t where sh: "?shape l h t" unfolding m by blast
    then have no: "CHR ''@'' \<notin> set l" "CHR ''@'' \<notin> set h" "CHR ''.'' \<notin> set t" "CHR ''@'' \<notin> set t"
      using at letter by (auto simp: list_all_iff)
    have s: "s = l @ CHR ''@'' # h @ CHR ''.'' # t" using sh by blast
    have "before CHR ''@'' s = l" "after CHR ''@'' s = h @ CHR ''.'' # t"
      unfolding s using no by (simp_all add: before_append after_append)
    moreover have "before_last CHR ''.'' (h @ CHR ''.'' # t) = h"
      "after_last CHR ''.'' (h @ CHR ''.'' # t) = t"
      using no by (simp_all add: before_last_append after_last_append)
    moreover have "py_count CHR ''@'' s = 1" 
      unfolding s py_count_def using no by (simp add: count_notin)
    ultimately show "email_shape s"
      unfolding email_shape_def Let_def using sh at letter by (auto simp: list_all_iff)
  next
    assume e: "email_shape s"
    let ?host = "after CHR ''@'' s"
    from e have "CHR ''@'' \<in> set s" "CHR ''.'' \<in> set ?host"
      by (auto simp: email_shape_def py_count_def Let_def count_list_0_iff simp flip: neq0_conv)
        (metis One_nat_def count_notin zero_neq_one)
    then have "s = before CHR ''@'' s @ CHR ''@'' # before_last CHR ''.'' ?host @ CHR ''.'' #
        after_last CHR ''.'' ?host"
      and h: "?host = before_last CHR ''.'' ?host @ CHR ''.'' # after_last CHR ''.'' ?host"
      by (metis before_after before_after_last)+
    moreover have "list_all is_mail_host_char (before_last CHR ''.'' ?host)"
    proof -
      have "list_all is_mail_host_char ?host" using e by (simp add: email_shape_def Let_def)
      then show ?thesis by (subst (asm) h) simp
    qed
    ultimately have "?shape (before CHR ''@'' s) (before_last CHR ''.'' ?host) (after_last CHR ''.'' ?host)"
      using e by (simp add: email_shape_def Let_def)
    then show "re_match email_re s" unfolding m by blast
  qed
qed

lemma lang_labels:
  "w \<in> lang (Rep 1 None (Seq (Rep 1 (Some 63) (Cls is_label_char)) (lit CHR ''.''))) \<longleftrightarrow>
   (\<exists>ls. w = concat (map (\<lambda>l. l @ ''.'') ls) \<and> ls \<noteq> [] \<and>
     list_all (\<lambda>l. l \<noteq> [] \<and> length l \<le> 63 \<and> list_all is_label_char l) ls)" (is "_ \<longleftrightarrow> ?r w")
proof -
  let ?ok = "\<lambda>l. l \<noteq> [] \<and> length l \<le> 63 \<and> list_all is_label_char l"
  have lab: "lang (Seq (Rep 1 (Some 63) (Cls is_label_char)) (lit CHR ''.'')) = (\<lambda>l. l @ ''.'') ` Collect ?ok"
    unfolding lang.simps(1,3) set_eq_iff mem_Collect_eq lang_Rep_Cls count_in_simps
    by (auto simp: Suc_le_eq)
  have "w \<in> lang (Rep 1 None (Seq (Rep 1 (Some 63) (Cls is_label_char)) (lit CHR ''.''))) \<longleftrightarrow>
      (\<exists>ws. w = concat ws \<and> set ws \<subseteq> (\<lambda>l. l @ ''.'') ` Collect ?ok \<and> ws \<noteq> [])"
    unfolding lang.simps(5) lab by (auto simp: Suc_le_eq)
  also have "\<dots> \<longleftrightarrow> ?r w"
  proof
    assume "\<exists>ws. w = concat ws \<and> set ws \<subseteq> (\<lambda>l. l @ ''.'') ` Collect ?ok \<and> ws \<noteq> []"
    then obtain ws where ws: "w = concat ws" "ws \<noteq> []" "set ws \<subseteq> (\<lambda>l. l @ ''.'') ` Collect ?ok" by blast
    from ws(3) have "ws \<in> map (\<lambda>l. l @ ''.'') ` lists (Collect ?ok)"
      unfolding lists_image [symmetric] by (auto simp: lists_eq_set)
    then obtain ls where "ws = map (\<lambda>l. l @ ''.'') ls" "set ls \<subseteq> Collect ?ok"
      unfolding lists_eq_set by blast
    with ws show "?r w" by (auto simp: list_all_iff)
  next
    assume "?r w"
    then obtain ls where "w = concat (map (\<lambda>l. l @ ''.'') ls)" "ls \<noteq> []" "list_all ?ok ls"
      by blast
    then show "\<exists>ws. w = concat ws \<and> set ws \<subseteq> (\<lambda>l. l @ ''.'') ` Collect ?ok \<and> ws \<noteq> []"
      by (intro exI [of _ "map (\<lambda>l. l @ ''.'') ls"]) (auto simp: list_all_iff)
  qed
  finally show ?thesis .
qed


lemma domain_re_iff:
  assumes t: "trimmed s"
  shows "re_match domain_re s \<longleftrightarrow> domain_shape s"
proof -
  let ?A = "Rep 1 None (Seq (Rep 1 (Some 63) (Cls is_label_char)) (lit CHR ''.''))"
  let ?B = "Rep 2 (Some 63) (Cls is_letter)"
  let ?ok = "\<lambda>l. l \<noteq> [] \<and> length l \<le> 63 \<and> list_all is_label_char l"
  let ?shape = "\<lambda>ls t. s = concat (map (\<lambda>l. l @ ''.'') ls) @ t \<and> ls \<noteq> [] \<and> list_all ?ok ls \<and>
      list_all is_letter t \<and> 2 \<le> length t \<and> length t \<le> 63"
  have dot: "\<not> is_label_char CHR ''.''" "\<not> is_letter CHR ''.''" by code_simp+
  have nl: "\<not> is_label_char CHR 0x0A" "\<not> is_letter CHR 0x0A" by code_simp+
  have body: "re_match (Seq Bol (seqs ([?A, ?B] @ [Eol]))) s \<longleftrightarrow> (\<exists>ls t. ?shape ls t)"
  proof (subst match_lang [OF t])
    show "s \<in> lang (seqs [?A, ?B]) \<longleftrightarrow> (\<exists>ls t. ?shape ls t)"
      unfolding seqs.simps lang.simps(3) mem_Collect_eq lang_labels lang_Rep_Cls count_in_simps
      by blast
  qed simp_all
  have ahead: "runs (Ahead (Seq (Rep 1 (Some 253) (Cls (\<lambda>c. c \<noteq> CHR 0x0A))) Eol)) ([], s) =
      (if 1 \<le> length s \<and> length s \<le> 253 \<and> CHR 0x0A \<notin> set s then [([], s)] else [])"
  proof -
    have "re_match (Seq Bol (seqs ([Rep 1 (Some 253) (Cls (\<lambda>c. c \<noteq> CHR 0x0A))] @ [Eol]))) s \<longleftrightarrow>
        1 \<le> length s \<and> length s \<le> 253 \<and> CHR 0x0A \<notin> set s"
      by (subst match_lang [OF t]) (auto simp: lang_Rep_Cls list_all_iff simp del: lang.simps(5))
    then show ?thesis by (auto simp: re_match_runs)
  qed
  have notahead: "runs (NotAhead (lit CHR ''-'')) ([], s) =
      (if startswith s ''-'' then [] else [([], s)])"
    by (cases s) (auto simp: startswith_def)
  have "re_match domain_re s \<longleftrightarrow>
      (1 \<le> length s \<and> length s \<le> 253 \<and> CHR 0x0A \<notin> set s) \<and> \<not> startswith s ''-'' \<and>
      (\<exists>ls t. ?shape ls t)"
    unfolding body [symmetric] re_match_runs domain_re_def seqs.simps append_Cons append_Nil
      runs.simps(3) [of Bol]
    unfolding runs.simps(3) [of "Ahead r" for r] runs.simps(3) [of "NotAhead r" for r]
    by (simp add: ahead notahead del: runs.simps(3,5,9,10) One_nat_def)
  also have "\<dots> \<longleftrightarrow> domain_shape s"
  proof (intro iffI; (elim conjE exE)?)
    fix ls t
    assume l: "length s \<le> 253" "\<not> startswith s ''-''" and
      s: "s = concat (map (\<lambda>l. l @ ''.'') ls) @ t" "ls \<noteq> []" "list_all ?ok ls"
      "list_all is_letter t" "2 \<le> length t" "length t \<le> 63"
    have "split_on CHR ''.'' s = ls @ [t]"
      unfolding s(1) using s dot by (intro split_on_labels) (auto simp: list_all_iff)
    moreover have "list_all is_label_char t"
      using s(4) by (auto simp: list_all_iff is_label_char_def is_alnum_def)
    moreover have "t \<noteq> []" "1 \<le> length ls" using s by (auto simp: Suc_le_eq)
    ultimately show "domain_shape s"
      using l s by (simp add: domain_shape_def)
  next
    assume d: "domain_shape s"
    let ?ls = "butlast (split_on CHR ''.'' s)" and ?t = "last (split_on CHR ''.'' s)"
    have s: "s = concat (map (\<lambda>l. l @ ''.'') ?ls) @ ?t" by (rule labels_split_on)
    have eq: "split_on CHR ''.'' s = ?ls @ [?t]" by simp
    have "1 \<le> length ?ls" using d unfolding domain_shape_def Let_def length_butlast by linarith
    then have "?ls \<noteq> []" by fastforce
    moreover have oks: "list_all ?ok (?ls @ [?t])"
      using d by (simp add: domain_shape_def Let_def)
    then have "list_all ?ok ?ls" "length ?t \<le> 63"
      unfolding list_all_append by simp_all
    moreover note this
    moreover have "list_all is_letter ?t" "2 \<le> length ?t"
      using d by (simp_all add: domain_shape_def Let_def)
    ultimately have sh: "?shape ?ls ?t"
      by - (intro conjI, rule s, simp_all)
    have "1 \<le> length s" using d by (cases s) (auto simp: domain_shape_def)
    moreover have "CHR 0x0A \<notin> set s"
    proof -
      have "\<forall>x\<in>set s. is_label_char x \<or> x = CHR ''.''"
        using oks set_split_on [of _ s "CHR ''.''"] unfolding eq [symmetric] list_all_iff by blast
      then show ?thesis using nl by auto
    qed
    ultimately show "(1 \<le> length s \<and> length s \<le> 253 \<and> CHR 0x0A \<notin> set s) \<and>
        \<not> startswith s ''-'' \<and> (\<exists>ls t. ?shape ls t)"
      using d sh unfolding domain_shape_def Let_def by blast
  qed
  finally show ?thesis .
qed

section \<open>Refanging\<close>

lemma refang_steps:
  "foldl refang_step s refang_replacements =
   py_replace [CHR 0x5C, CHR ''.''] ''.'' (py_replace ''[@]'' ''@'' (py_replace ''(at)'' ''@''
     (py_replace ''[at]'' ''@'' (py_replace ''[://]'' ''://'' (py_replace ''[:]'' '':''
       (py_replace '' dot '' ''.'' (py_replace ''(dot)'' ''.'' (py_replace ''[dot]'' ''.''
         (py_replace ''{.}'' ''.'' (py_replace ''(.)'' ''.'' (py_replace ''[.]'' ''.''
           (re_sub_ci ''fxp'' ''ftp'' (re_sub_ci ''hxxp'' ''http''
             (re_sub_ci ''hxxps'' ''https'' s))))))))))))))"
proof -
  have a: "py_isalpha ''hxxps''" "py_isalpha ''hxxp''" "py_isalpha ''fxp''"
    "\<not> py_isalpha ''[.]''" "\<not> py_isalpha ''(.)''" "\<not> py_isalpha ''{.}''" "\<not> py_isalpha ''[dot]''"
    "\<not> py_isalpha ''(dot)''" "\<not> py_isalpha '' dot ''" "\<not> py_isalpha ''[:]''"
    "\<not> py_isalpha ''[://]''" "\<not> py_isalpha ''[at]''" "\<not> py_isalpha ''(at)''"
    "\<not> py_isalpha ''[@]''" "\<not> py_isalpha [CHR 0x5C, CHR ''.'']"
    by code_simp+
  show ?thesis
    by (simp add: refang_replacements_def refang_step_def a startswith_def)
qed

text \<open>The scheme tokens are gone after refanging, in any case.\<close>

definition fanged :: "string \<Rightarrow> bool" where
  "fanged s \<longleftrightarrow> \<not> occurs ci_eq ''hxxp'' s \<and> \<not> occurs ci_eq ''fxp'' s"

lemma occurs_ci_lower: "occurs ci_eq t (py_lower s) = occurs ci_eq t s"
proof -
  have p: "at_prefix ci_eq u (map lower_char s) = at_prefix ci_eq u s" for u s
    by (induction "ci_eq" u s rule: at_prefix.induct) (auto simp: ci_eq_def)
  show ?thesis
    unfolding py_lower_def
  proof (induction s)
    case (Cons c s)
    then show ?case using p [of t "c # s"] by simp
  qed simp
qed

lemma fanged_lower [simp]: "fanged (py_lower s) = fanged s"
  by (simp add: fanged_def occurs_ci_lower)

lemma fanged_replace:
  assumes "fanged s" "new \<in> {''.'', '':'', ''://'', ''@''}"
  shows "fanged (py_replace old new s)"
proof -
  have "blocks ci_eq ''hxxp'' new" "blocks ci_eq ''fxp'' new"
    using assms(2)
    by (auto simp: blocks_def ci_eq_def lower_char_def is_upper_def less_Suc_eq numeral_3_eq_3)
  then show ?thesis
    using assms(1) unfolding fanged_def py_replace_def by (simp add: sub_with_no_new)
qed

lemma refang_fanged: "fanged (refang raw)"
proof -
  let ?a = "re_sub_ci ''hxxp'' ''http'' (re_sub_ci ''hxxps'' ''https'' (py_strip raw))"
  have b: "blocks ci_eq ''hxxp'' ''http''" "blocks ci_eq ''hxxp'' ''ftp''" "blocks ci_eq ''fxp'' ''ftp''"
    by (auto simp: blocks_def ci_eq_def lower_char_def is_upper_def less_Suc_eq eval_nat_numeral)
  have "\<not> occurs ci_eq ''hxxp'' ?a"
    unfolding re_sub_ci_def by (rule sub_with_removes) (simp_all add: b)
  then have "\<not> occurs ci_eq ''hxxp'' (re_sub_ci ''fxp'' ''ftp'' ?a)"
    unfolding re_sub_ci_def [of "''fxp''"] by (rule sub_with_no_new [OF b(2) list.distinct(2)])
  moreover have "\<not> occurs ci_eq ''fxp'' (re_sub_ci ''fxp'' ''ftp'' ?a)"
    unfolding re_sub_ci_def by (rule sub_with_removes) (simp_all add: b)
  ultimately have "fanged (re_sub_ci ''fxp'' ''ftp'' ?a)" by (simp add: fanged_def)
  then have "fanged (foldl refang_step (py_strip raw) refang_replacements)"
    by (simp add: refang_steps fanged_replace)
  then show ?thesis unfolding refang_def fanged_def using occurs_strip by blast
qed

text \<open>Text without brackets, braces, spaces and backslashes holds no other token.\<close>

definition plain_char :: "char \<Rightarrow> bool" where
  "plain_char c \<longleftrightarrow> c \<notin> {CHR ''['', CHR ''('', CHR ''{'', CHR 0x5C} \<and> \<not> is_space c"

lemma replace_absent: "x \<in> set old \<Longrightarrow> x \<notin> set s \<Longrightarrow> py_replace old new s = s"
  unfolding py_replace_def by (rule sub_with_id) (auto dest: occurs_chars)

lemma occurs_longer: "occurs eq (t @ u) s \<Longrightarrow> occurs eq t s"
proof (induction s)
  case (Cons c s)
  have "at_prefix eq (t @ u) r \<Longrightarrow> at_prefix eq t r" for r
    by (induction eq t r rule: at_prefix.induct) auto
  with Cons show ?case by auto
qed simp

lemma refang_plain:
  assumes "list_all plain_char s" "fanged s"
  shows "refang s = s"
proof -
  have ns: "\<forall>c\<in>set s. \<not> is_space c" and
    no: "CHR ''['' \<notin> set s" "CHR ''('' \<notin> set s" "CHR ''{'' \<notin> set s" "CHR 0x5C \<notin> set s"
    using assms(1) by (auto simp: list_all_iff plain_char_def)
  have sp: "CHR '' '' \<notin> set s" using ns by (auto simp: is_space_def)
  have "\<not> occurs ci_eq ''hxxps'' s"
    using assms(2) occurs_longer [of ci_eq "''hxxp''" "''s''" s] by (auto simp: fanged_def)
  with assms(2) have "re_sub_ci ''fxp'' ''ftp'' (re_sub_ci ''hxxp'' ''http''
      (re_sub_ci ''hxxps'' ''https'' s)) = s"
    by (simp add: re_sub_ci_def fanged_def sub_with_id)
  then have "foldl refang_step s refang_replacements = s"
    using no sp
    by (simp add: refang_steps replace_absent [of "CHR ''[''"] replace_absent [of "CHR ''(''"]
      replace_absent [of "CHR ''{''"] replace_absent [of "CHR 0x5C"] replace_absent [of "CHR '' ''"])
  then show ?thesis by (simp add: refang_def strip_no_space ns)
qed

section \<open>Defanging\<close>

text \<open>What \<open>defang\<close> does to a character other than those of \<open>http\<close>.\<close>

definition bracket :: "char \<Rightarrow> string" where
  "bracket c = (if c = CHR ''.'' then ''[.]'' else if c = CHR ''@'' then ''[at]'' else [c])"

lemma concat_map_two:
  "concat (map (\<lambda>x. if x = CHR ''@'' then ''[at]'' else [x])
     (concat (map (\<lambda>x. if x = CHR ''.'' then ''[.]'' else [x]) u))) = concat (map bracket u)"
  by (induction u) (auto simp: bracket_def)

lemma defang_bracket:
  assumes "CHR ''/'' \<notin> set v"
  shows "defang v = concat (map bracket (py_replace ''http'' ''hxxp'' v))"
proof -
  have sub: "set (py_replace ''http'' ''hxxp'' v) \<subseteq> set v \<union> set ''hxxp''"
    unfolding py_replace_def
    by (induction "(=) :: char \<Rightarrow> char \<Rightarrow> bool" "''http''" "''hxxp''" v rule: sub_with.induct)
      (auto dest: in_set_dropD)
  let ?u = "py_replace ''http'' ''hxxp'' v"
  have dots: "py_replace ''.'' ''[.]'' ?u = concat (map (\<lambda>x. if x = CHR ''.'' then ''[.]'' else [x]) ?u)"
    by (rule replace_char)
  have "CHR ''/'' \<notin> set (py_replace ''.'' ''[.]'' ?u)"
    unfolding dots using sub assms by (auto split: if_splits)
  then have "defang v = py_replace ''@'' ''[at]'' (py_replace ''.'' ''[.]'' ?u)"
    unfolding defang_def by (subst replace_absent [of "CHR ''/''" "''://''"]) auto
  also have "\<dots> = concat (map (\<lambda>x. if x = CHR ''@'' then ''[at]'' else [x])
      (concat (map (\<lambda>x. if x = CHR ''.'' then ''[.]'' else [x]) ?u)))"
    by (simp add: replace_char)
  also have "\<dots> = concat (map bracket ?u)"
    by (rule concat_map_two)
  finally show ?thesis .
qed

definition inert :: "string \<Rightarrow> string \<Rightarrow> bool" where
  "inert tok w \<longleftrightarrow> (\<forall>i<length w. \<forall>r. \<not> prefix tok (drop i w @ r))"

lemma replace_inert_append:
  "inert tok w \<Longrightarrow> py_replace tok new (w @ r) = w @ py_replace tok new r"
proof (induction w)
  case (Cons c w)
  have "inert tok w"
    unfolding inert_def
  proof (intro allI impI)
    fix i r assume "i < length w"
    then show "\<not> prefix tok (drop i w @ r)"
      using Cons.prems [unfolded inert_def, rule_format, of "Suc i" r] by simp
  qed
  moreover have "\<not> prefix tok (c # w @ r)"
    using Cons.prems [unfolded inert_def, rule_format, of 0 r] by simp
  ultimately show ?case
    using Cons.IH by (simp add: py_replace_def at_prefix_eq)
qed (simp add: py_replace_def)

lemma replace_tokens:
  assumes "tok \<noteq> []" "\<forall>c\<in>set s. f c = tok \<or> inert tok (f c)"
  shows "py_replace tok new (concat (map f s)) =
    concat (map (\<lambda>c. if f c = tok then new else f c) s)"
  using assms
proof (induction s)
  case (Cons c s)
  show ?case
  proof (cases "f c = tok")
    case True
    have "py_replace tok new (tok @ r) = new @ py_replace tok new r" for r
      using Cons.prems(1) by (cases tok) (auto simp: py_replace_def at_prefix_eq)
    with True Cons show ?thesis by simp
  next
    case False
    with Cons show ?thesis by (simp add: replace_inert_append)
  qed
qed (simp add: py_replace_def)

lemma inert_Nil [simp]: "inert tok []"
  by (simp add: inert_def)

lemma inert_Cons: "inert tok (c # w) \<longleftrightarrow> (\<forall>r. \<not> prefix tok (c # w @ r)) \<and> inert tok w"
  unfolding inert_def by (auto simp: less_Suc_eq_0_disj)

lemma inert_char: "tok \<noteq> [] \<Longrightarrow> c \<noteq> hd tok \<Longrightarrow> inert tok [c]"
  by (cases tok) (auto simp: inert_def)

lemma inert_brackets:
  "inert ''[dot]'' ''[.]''" "inert ''[:]'' ''[.]''" "inert ''[://]'' ''[.]''" "inert ''[at]'' ''[.]''"
  "inert ''[@]'' ''[.]''" "inert ''[.]'' ''[at]''" "inert ''[dot]'' ''[at]''" "inert ''[:]'' ''[at]''"
  "inert ''[://]'' ''[at]''" "inert ''[@]'' ''[at]''"
  by (simp_all add: inert_Cons)

definition bracket_at :: "char \<Rightarrow> string" where
  "bracket_at c = (if c = CHR ''@'' then ''[at]'' else [c])"

lemma refang_brackets:
  assumes "list_all plain_char v"
  shows "py_replace ''[.]'' ''.'' (concat (map bracket v)) = concat (map bracket_at v)"
    and "tok \<in> {''[dot]'', ''[:]'', ''[://]''} \<Longrightarrow>
      py_replace tok new (concat (map bracket_at v)) = concat (map bracket_at v)"
    and "py_replace ''[at]'' ''@'' (concat (map bracket_at v)) = v"
proof -
  have v: "\<forall>c\<in>set v. c \<noteq> CHR ''[''" using assms by (auto simp: list_all_iff plain_char_def)
  have b: "bracket c = ''[.]'' \<or> inert ''[.]'' (bracket c)" if "c \<in> set v" for c
    using that v by (simp add: bracket_def inert_brackets inert_char)
  have ba: "inert tok (bracket_at c)"
    if "c \<in> set v" "tok \<in> {''[dot]'', ''[:]'', ''[://]''}" for c tok
  proof -
    have "inert tok ''[at]''" "hd tok = CHR ''[''" "tok \<noteq> []"
      using that(2) inert_brackets by (blast, auto)
    moreover have "c \<noteq> CHR ''[''" using v that(1) by blast
    ultimately show ?thesis by (simp add: bracket_at_def inert_char)
  qed
  have bat: "bracket_at c = ''[at]'' \<or> inert ''[at]'' (bracket_at c)" if "c \<in> set v" for c
    using that v by (simp add: bracket_at_def inert_char)
  have "py_replace ''[.]'' ''.'' (concat (map bracket v)) =
      concat (map (\<lambda>c. if bracket c = ''[.]'' then ''.'' else bracket c) v)"
    by (rule replace_tokens) (use b in simp_all)
  also have "\<dots> = concat (map bracket_at v)"
    by (rule arg_cong [of _ _ concat], rule map_cong) (auto simp: bracket_def bracket_at_def)
  finally show "py_replace ''[.]'' ''.'' (concat (map bracket v)) = concat (map bracket_at v)" .
  show "py_replace tok new (concat (map bracket_at v)) = concat (map bracket_at v)"
    if "tok \<in> {''[dot]'', ''[:]'', ''[://]''}"
  proof -
    have "py_replace tok new (concat (map bracket_at v)) =
        concat (map (\<lambda>c. if bracket_at c = tok then new else bracket_at c) v)"
      by (rule replace_tokens) (use ba [OF _ that] that in auto)
    also have "\<dots> = concat (map bracket_at v)"
      by (rule arg_cong [of _ _ concat], rule map_cong) (use that in \<open>auto simp: bracket_at_def\<close>)
    finally show ?thesis .
  qed
  have "py_replace ''[at]'' ''@'' (concat (map bracket_at v)) =
      concat (map (\<lambda>c. if bracket_at c = ''[at]'' then ''@'' else bracket_at c) v)"
    by (rule replace_tokens) (use bat in simp_all)
  also have "\<dots> = v" by (induction v) (auto simp: bracket_at_def)
  finally show "py_replace ''[at]'' ''@'' (concat (map bracket_at v)) = v" .
qed

text \<open>Bracketing and the scheme tokens do not interfere.\<close>

lemma at_prefix_bracket:
  assumes "\<forall>x\<in>set t. is_letter x"
  shows "at_prefix ci_eq t (concat (map bracket s)) = at_prefix ci_eq t s"
  using assms
proof (induction ci_eq t s rule: at_prefix.induct)
  case (3 x xs y ys)
  have "ci_eq x y \<Longrightarrow> is_letter y" for y
    using 3(2) unfolding ci_eq_def by (metis list.set_intros(1) lower_char_classes(2))
  moreover have "\<not> is_letter CHR ''.''" "\<not> is_letter CHR ''@''" "\<not> is_letter CHR ''[''"
    by code_simp+
  ultimately have "\<not> ci_eq x CHR ''[''" "\<not> ci_eq x CHR ''.''" "\<not> ci_eq x CHR ''@''" by blast+
  with 3 show ?case by (auto simp: bracket_def)
qed auto

lemma drop_bracket:
  assumes "\<forall>x\<in>set t. is_letter x" "at_prefix ci_eq t s"
  shows "drop (length t) (concat (map bracket s)) = concat (map bracket (drop (length t) s))"
  using assms
proof (induction ci_eq t s rule: at_prefix.induct)
  case (3 x xs y ys)
  have "ci_eq x y \<Longrightarrow> is_letter y"
    using 3(2) unfolding ci_eq_def by (metis list.set_intros(1) lower_char_classes(2))
  moreover have "\<not> is_letter CHR ''.''" "\<not> is_letter CHR ''@''" by code_simp+
  ultimately have "ci_eq x y \<Longrightarrow> bracket y = [y]" by (auto simp: bracket_def)
  with 3 show ?case by auto
qed auto

lemma sub_bracket:
  assumes "t \<in> {''hxxps'', ''hxxp'', ''fxp''}" "\<forall>x\<in>set new. x \<noteq> CHR ''.'' \<and> x \<noteq> CHR ''@''"
  shows "re_sub_ci t new (concat (map bracket s)) = concat (map bracket (re_sub_ci t new s))"
proof -
  have l: "\<forall>x\<in>set t. is_letter x" using assms(1) by (auto simp: char_class_defs)
  have n: "concat (map bracket new) = new"
    using assms(2) by (induction new) (auto simp: bracket_def)
  have skip: "sub_with ci_eq t new (bracket c @ r) = bracket c @ sub_with ci_eq t new r"
    if "\<not> at_prefix ci_eq t (bracket c @ r)" for c r
  proof -
    have "list_all (\<lambda>x. \<not> ci_eq CHR ''h'' x \<and> \<not> ci_eq CHR ''f'' x) ''[.]at''"
      by code_simp
    then have "\<not> ci_eq (hd t) x" if "x \<in> set ''[.]at''" for x
      using assms(1) that by (auto simp: list_all_iff)
    moreover obtain h u where "t = h # u" using assms(1) by (cases t) auto
    ultimately show ?thesis
      using that by (auto simp: bracket_def split: if_splits)
  qed
  show ?thesis
    using assms l n skip unfolding re_sub_ci_def
  proof (induction ci_eq t new s rule: sub_with.induct)
    case (2 old new c cs)
    show ?case
    proof (cases "at_prefix ci_eq old (c # cs)")
      case True
      have ne: "old \<noteq> []" using 2(3) by auto
      have a: "at_prefix ci_eq old (concat (map bracket (c # cs)))"
        using True 2(5) by (subst at_prefix_bracket)
      have "concat (map bracket (c # cs)) \<noteq> []" by (simp add: bracket_def)
      then have "sub_with ci_eq old new (concat (map bracket (c # cs))) =
          new @ sub_with ci_eq old new (drop (length old) (concat (map bracket (c # cs))))"
        using a ne by (cases "concat (map bracket (c # cs))") auto
      also have "drop (length old) (concat (map bracket (c # cs))) =
          concat (map bracket (drop (length old) (c # cs)))"
        using 2(5) True by (rule drop_bracket)
      finally show ?thesis using True ne 2 by simp
    next
      case False
      then have "\<not> at_prefix ci_eq old (concat (map bracket (c # cs)))"
        using 2(5) by (subst at_prefix_bracket)
      with False 2 show ?thesis by simp
    qed
  qed simp
qed

lemma unfang_hxxp:
  assumes "\<not> occurs ci_eq ''hxxp'' v" "\<forall>c\<in>set v. \<not> is_upper c"
  shows "re_sub_ci ''hxxp'' ''http'' (re_sub_ci ''hxxps'' ''https''
     (py_replace ''http'' ''hxxp'' v)) = v"
  using assms
proof (induction "length v" arbitrary: v rule: less_induct)
  case less
  let ?u = "py_replace ''http'' ''hxxp''" and ?S1 = "re_sub_ci ''hxxps'' ''https''"
    and ?S2 = "re_sub_ci ''hxxp'' ''http''"
  have ci: "\<not> ci_eq CHR ''x'' CHR ''h''" "\<not> ci_eq CHR ''p'' CHR ''h''" "\<not> ci_eq CHR ''s'' CHR ''h''"
    "\<not> ci_eq CHR ''h'' CHR ''x''" "\<not> ci_eq CHR ''h'' CHR ''p''" "\<not> ci_eq CHR ''x'' CHR ''t''"
    "\<not> ci_eq CHR ''h'' CHR ''t''" "\<not> ci_eq CHR ''h'' CHR ''s''"
    "ci_eq CHR ''h'' CHR ''h''" "ci_eq CHR ''x'' CHR ''x''" "ci_eq CHR ''p'' CHR ''p''"
    "ci_eq CHR ''s'' CHR ''s''"
    by code_simp+
  have sub: "\<not> occurs ci_eq ''hxxp'' w \<and> (\<forall>c\<in>set w. \<not> is_upper c)" if "v = z @ w" for w z
    using less.prems occurs_append2 [of ci_eq "''hxxp''" w z] that by auto
  show ?case
  proof (cases "prefix ''http'' v")
    case True
    then obtain r where r: "v = ''http'' @ r" by (auto simp: prefix_def)
    have uv: "?u v = ''hxxp'' @ ?u r" unfolding r by (simp add: py_replace_def)
    show ?thesis
    proof (cases "\<exists>r'. r = CHR ''s'' # r'")
      case True
      then obtain r' where r': "r = CHR ''s'' # r'" by blast
      have "?u v = ''hxxps'' @ ?u r'" unfolding uv r' by (simp add: py_replace_def)
      then have "?S1 (?u v) = ''https'' @ ?S1 (?u r')" by (simp add: re_sub_ci_def ci)
      then have "?S2 (?S1 (?u v)) = ''https'' @ ?S2 (?S1 (?u r'))" by (simp add: re_sub_ci_def ci)
      also have "?S2 (?S1 (?u r')) = r'"
        using less.hyps [of r'] sub [of "''https''" r'] r r' by simp
      finally show ?thesis by (simp add: r r')
    next
      case False
      have ns: "\<not> at_prefix ci_eq ''s'' (?u r)"
      proof
        assume "at_prefix ci_eq ''s'' (?u r)"
        then have "at_prefix ci_eq ''s'' r"
          unfolding py_replace_def by (rule at_prefix_sub [rotated 2]) (simp_all add: ci)
        then obtain d r' where d: "r = d # r'" "ci_eq CHR ''s'' d" by (cases r) auto
        from sub [of "''http''" r] r d have "\<not> is_upper d" by simp
        moreover have "lower_char CHR ''s'' = CHR ''s''" by code_simp
        ultimately have "d = CHR ''s''" using d(2) by (simp add: ci_eq_def lower_char_def [of d])
        with d False show False by blast
      qed
      then have "?S1 (?u v) = ''hxxp'' @ ?S1 (?u r)" unfolding uv by (simp add: re_sub_ci_def ci)
      then have "?S2 (?S1 (?u v)) = ''http'' @ ?S2 (?S1 (?u r))" by (simp add: re_sub_ci_def ci)
      also have "?S2 (?S1 (?u r)) = r"
        using less.hyps [of r] sub [of "''http''" r] r by simp
      finally show ?thesis by (simp add: r)
    qed
  next
    case False
    show ?thesis
    proof (cases v)
      case (Cons c cs)
      have uv: "?u v = c # ?u cs"
        using False unfolding Cons py_replace_def by (auto simp: at_prefix_eq)
      have keep: "at_prefix ci_eq t (?u cs) \<Longrightarrow> at_prefix ci_eq t cs" if "set t \<subseteq> set ''xps''" for t
        unfolding py_replace_def by (rule at_prefix_sub [rotated 2]) (use that ci in auto)
      have no: "\<not> (ci_eq CHR ''h'' c \<and> at_prefix ci_eq ''xxp'' (?u cs))"
        using keep [of "''xxp''"] less.prems(1) Cons by auto
      have "\<not> at_prefix ci_eq ''hxxps'' (c # ?u cs)"
      proof
        assume "at_prefix ci_eq ''hxxps'' (c # ?u cs)"
        then have "ci_eq CHR ''h'' c \<and> at_prefix ci_eq (''xxp'' @ ''s'') (?u cs)" by simp
        moreover have "at_prefix ci_eq (t @ u) w \<Longrightarrow> at_prefix ci_eq t w" for t u w
          by (induction ci_eq t w rule: at_prefix.induct) auto
        ultimately show False using no by blast
      qed
      then have s1: "?S1 (?u v) = c # ?S1 (?u cs)" unfolding uv by (auto simp: re_sub_ci_def)
      have "\<not> at_prefix ci_eq ''hxxp'' (c # ?S1 (?u cs))"
      proof
        assume "at_prefix ci_eq ''hxxp'' (c # ?S1 (?u cs))"
        then have "ci_eq CHR ''h'' c" "at_prefix ci_eq ''xxp'' (?S1 (?u cs))" by simp_all
        moreover have "at_prefix ci_eq ''xxp'' (?u cs)"
          using calculation(2) unfolding re_sub_ci_def
          by (rule at_prefix_sub [rotated 2]) (simp_all add: ci)
        ultimately show False using no by blast
      qed
      then have "?S2 (?S1 (?u v)) = c # ?S2 (?S1 (?u cs))" unfolding s1 by (auto simp: re_sub_ci_def)
      also have "?S2 (?S1 (?u cs)) = cs" using less.hyps [of cs] sub [of "[c]" cs] Cons by simp
      finally show ?thesis by (simp add: Cons)
    qed (simp add: re_sub_ci_def py_replace_def)
  qed
qed

lemma unfang_schemes:
  assumes "fanged v" "(\<forall>c\<in>set v. \<not> is_upper c) \<or> CHR ''h'' \<notin> set v"
  shows "re_sub_ci ''fxp'' ''ftp'' (re_sub_ci ''hxxp'' ''http'' (re_sub_ci ''hxxps'' ''https''
     (py_replace ''http'' ''hxxp'' v))) = v"
proof -
  have "\<not> occurs ci_eq ''hxxps'' v"
    using assms(1) occurs_longer [of ci_eq "''hxxp''" "''s''" v] by (auto simp: fanged_def)
  then have "re_sub_ci ''hxxp'' ''http'' (re_sub_ci ''hxxps'' ''https''
      (py_replace ''http'' ''hxxp'' v)) = v"
    using assms unfang_hxxp [of v] replace_absent [of "CHR ''h''" "''http''" v]
    by (auto simp: fanged_def re_sub_ci_def sub_with_id)
  then show ?thesis using assms(1) by (simp add: fanged_def re_sub_ci_def sub_with_id)
qed

theorem refang_defang:
  assumes p: "list_all plain_char v" and f: "fanged v" and "CHR ''/'' \<notin> set v"
    and "(\<forall>c\<in>set v. \<not> is_upper c) \<or> CHR ''h'' \<notin> set v"
  shows "refang (defang v) = v"
proof -
  let ?u = "py_replace ''http'' ''hxxp'' v"
  let ?B = "concat (map bracket ?u)"
  have d: "defang v = ?B" by (rule defang_bracket) fact
  have sub: "set ?u \<subseteq> set v \<union> set ''hxxp''"
    unfolding py_replace_def
    by (induction "(=) :: char \<Rightarrow> char \<Rightarrow> bool" "''http''" "''hxxp''" v rule: sub_with.induct)
      (auto dest: in_set_dropD)
  have "list_all (\<lambda>c. \<not> is_space c) ''hxxp[]at''" by code_simp
  then have "\<forall>c\<in>set ''hxxp[]at''. \<not> is_space c"
    unfolding list_all_iff by blast
  moreover have chars: "set ?B \<subseteq> set ?u \<union> set ''[]at''" by (auto simp: bracket_def split: if_splits)
  moreover have "\<forall>c\<in>set v. \<not> is_space c" using p by (auto simp: list_all_iff plain_char_def)
  ultimately have ns: "\<forall>c\<in>set ?B. \<not> is_space c" using sub by fastforce
  let ?A = "concat (map bracket_at v)"
  have schemes: "re_sub_ci ''fxp'' ''ftp'' (re_sub_ci ''hxxp'' ''http'' (re_sub_ci ''hxxps'' ''https'' ?B)) =
      concat (map bracket v)"
    by (simp add: sub_bracket unfang_schemes f assms(4))
  have at: "set ?A \<subseteq> set v \<union> set ''[at]''" by (auto simp: bracket_at_def split: if_splits)
  have nv: "x \<notin> set v" if "x \<in> {CHR ''['', CHR ''('', CHR ''{'', CHR '' '', CHR 0x5C}" for x
  proof -
    have "\<not> plain_char x" using that by (elim insertE emptyE) (simp_all add: plain_char_def is_space_def)
    then show ?thesis using p unfolding list_all_iff by blast
  qed
  have no: "x \<notin> set ?A" if "x \<in> {CHR ''('', CHR ''{'', CHR '' '', CHR 0x5C}" for x
  proof -
    have "x \<notin> set ''[at]''" using that by (elim insertE emptyE) simp_all
    then show ?thesis using at nv [of x] that by blast
  qed
  have a0: "py_replace ''(.)'' new ?A = ?A" for new
    by (rule replace_absent [OF _ no [of "CHR ''(''"]]) simp_all
  have a1: "py_replace ''{.}'' new ?A = ?A" for new
    by (rule replace_absent [OF _ no [of "CHR ''{''"]]) simp_all
  have a2: "py_replace ''(dot)'' new ?A = ?A" for new
    by (rule replace_absent [OF _ no [of "CHR ''(''"]]) simp_all
  have a3: "py_replace '' dot '' new ?A = ?A" for new
    by (rule replace_absent [OF _ no [of "CHR '' ''"]]) simp_all
  have v0: "py_replace ''(at)'' new v = v" for new
    by (rule replace_absent [OF _ nv [of "CHR ''(''"]]) simp_all
  have v1: "py_replace ''[@]'' new v = v" for new
    by (rule replace_absent [OF _ nv [of "CHR ''[''"]]) simp_all
  have v2: "py_replace [CHR 0x5C, CHR ''.''] new v = v" for new
    by (rule replace_absent [OF _ nv [of "CHR 0x5C"]]) simp_all
  have "foldl refang_step ?B refang_replacements = v"
    unfolding refang_steps schemes
    by (simp only: refang_brackets [OF p] a0 a1 a2 a3 v0 v1 v2 insert_iff simp_thms)
  moreover have "py_strip v = v"
    by (rule strip_no_space) (use p in \<open>auto simp: list_all_iff plain_char_def\<close>)
  ultimately show ?thesis unfolding refang_def d strip_no_space [OF ns] by simp
qed

section \<open>Canonical indicators\<close>

definition no_upper :: "string \<Rightarrow> bool" where
  "no_upper s \<longleftrightarrow> list_all (\<lambda>c. \<not> is_upper c) s"

text \<open>What a classified indicator looks like, by type.\<close>

definition wf_indicator :: "parsed_indicator \<Rightarrow> bool" where
  "wf_indicator p \<longleftrightarrow> (let v = pvalue p in
     case ptype p of
       Md5 \<Rightarrow> list_all is_hex v \<and> length v = 32 \<and> no_upper v
     | Sha1 \<Rightarrow> list_all is_hex v \<and> length v = 40 \<and> no_upper v
     | Sha256 \<Rightarrow> list_all is_hex v \<and> length v = 64 \<and> no_upper v
     | Cve \<Rightarrow> cve_shape v \<and> py_upper v = v
     | MitreTechnique \<Rightarrow> technique_shape v
     | Url \<Rightarrow> py_in ''://'' v \<and> (case urlsplit v of None \<Rightarrow> False
                | Some u \<Rightarrow> scheme u \<noteq> [] \<and> netloc u \<noteq> [])
     | Email \<Rightarrow> email_shape v \<and> no_upper v
     | Ipv4 \<Rightarrow> ipv4_address v \<noteq> None
     | Ipv6 \<Rightarrow> ipv4_address v = None \<and> ipv6_address v \<noteq> None
     | Domain \<Rightarrow> domain_shape v \<and> no_upper v
     | _ \<Rightarrow> False)"

lemma no_upper_lower [simp]: "no_upper (py_lower s)"
  by (simp add: no_upper_def py_lower_def list_all_iff)

lemma lower_no_upper: "no_upper s \<Longrightarrow> py_lower s = s"
  by (induction s) (auto simp: no_upper_def py_lower_def lower_char_def)

lemma hex_lower [simp]: "list_all is_hex (py_lower s) = list_all is_hex s"
  by (simp add: py_lower_def list_all_iff)

lemma lower_char_self: "\<not> is_letter c \<Longrightarrow> lower_char c = c"
  by (simp add: lower_char_def is_letter_def)

lemma before_lower: "\<not> is_letter c \<Longrightarrow> before c (py_lower s) = py_lower (before c s)"
  by (induction s) (auto simp: before_def py_lower_def lower_char_fix)

lemma after_lower: "\<not> is_letter c \<Longrightarrow> after c (py_lower s) = py_lower (after c s)"
  by (induction s) (auto simp: after_def py_lower_def lower_char_fix)

lemma lower_rev: "py_lower (rev s) = rev (py_lower s)"
  by (simp add: py_lower_def rev_map)

lemma before_last_lower: "\<not> is_letter c \<Longrightarrow> before_last c (py_lower s) = py_lower (before_last c s)"
  by (simp add: before_last_def lower_rev after_lower flip: lower_rev)

lemma after_last_lower: "\<not> is_letter c \<Longrightarrow> after_last c (py_lower s) = py_lower (after_last c s)"
  by (simp add: after_last_def lower_rev before_lower flip: lower_rev)

lemma count_lower: "\<not> is_letter c \<Longrightarrow> py_count c (py_lower s) = py_count c s"
  by (induction s) (auto simp: py_count_def py_lower_def lower_char_fix)

lemma mem_lower: "\<not> is_letter c \<Longrightarrow> c \<in> set (py_lower s) \<longleftrightarrow> c \<in> set s"
  by (induction s) (auto simp: py_lower_def lower_char_fix lower_char_self eq_commute [of c])

lemma split_on_lower: "\<not> is_letter c \<Longrightarrow> split_on c (py_lower s) = map py_lower (split_on c s)"
  by (induction s) (auto simp: py_lower_def lower_char_fix map_tl hd_map)

lemma char_set_lower:
  "list_all (\<lambda>d. \<not> is_letter d) ds \<Longrightarrow> lower_char c \<in> set ds \<longleftrightarrow> c \<in> set ds"
  by (induction ds) (auto simp: lower_char_fix)

lemma mail_classes_lower [simp]:
  "is_local_char (lower_char c) = is_local_char c"
  "is_mail_host_char (lower_char c) = is_mail_host_char c"
  "is_label_char (lower_char c) = is_label_char c"
proof -
  have "list_all (\<lambda>d. \<not> is_letter d) ''._%+-''" "list_all (\<lambda>d. \<not> is_letter d) ''.-''"
    "list_all (\<lambda>d. \<not> is_letter d) ''-''" by code_simp+
  note this [THEN char_set_lower, of c]
  then show "is_local_char (lower_char c) = is_local_char c"
    "is_mail_host_char (lower_char c) = is_mail_host_char c"
    "is_label_char (lower_char c) = is_label_char c"
    unfolding is_local_char_def is_mail_host_char_def is_label_char_def is_alnum_def by simp_all
qed

lemma email_shape_lower: "email_shape (py_lower s) = email_shape s"
proof -
  have n: "\<not> is_letter CHR ''@''" "\<not> is_letter CHR ''.''" by code_simp+
  show ?thesis
    unfolding email_shape_def Let_def
    by (simp add: before_lower after_lower before_last_lower after_last_lower count_lower mem_lower n)
      (simp add: py_lower_def list_all_iff)
qed

lemma domain_shape_lower: "domain_shape (py_lower s) = domain_shape s"
proof -
  have n: "\<not> is_letter CHR ''-''" "\<not> is_letter CHR ''.''" by code_simp+
  have "startswith (py_lower s) ''-'' = startswith s ''-''"
    using n
    by (cases s) (auto simp: startswith_def py_lower_def lower_char_self lower_char_fix eq_commute [of "CHR ''-''"])
  then show ?thesis
    unfolding domain_shape_def Let_def
    by (simp add: split_on_lower n last_map) (simp add: py_lower_def list_all_iff)
qed

lemma cve_shape_upper: "cve_shape (py_upper s) = cve_shape s"
proof -
  have "py_upper (take 4 (py_upper s)) = py_upper (take 4 s)"
    by (simp add: py_upper_def take_map)
  moreover have "list_all is_digit (take 4 (drop 4 (py_upper s))) = list_all is_digit (take 4 (drop 4 s))"
    by (simp add: py_upper_def take_map drop_map list.pred_map comp_def)
  moreover have "list_all is_digit (drop 9 (py_upper s)) = list_all is_digit (drop 9 s)"
    by (simp add: py_upper_def drop_map list.pred_map comp_def)
  moreover have "13 \<le> length s \<Longrightarrow> py_upper s ! 8 = CHR ''-'' \<longleftrightarrow> s ! 8 = CHR ''-''"
    by (simp add: py_upper_def upper_dash)
  ultimately show ?thesis by (auto simp: cve_shape_def)
qed

lemma technique_chars:
  assumes "technique_shape s"
  shows "list_all (\<lambda>c. c = CHR ''T'' \<or> is_digit c \<or> c = CHR ''.'') s"
proof -
  have s: "s = take 1 s @ take 4 (drop 1 s) @ drop 5 s"
    by (cases s) auto
  have "list_all (\<lambda>c. c = CHR ''T'' \<or> is_digit c \<or> c = CHR ''.'') (drop 5 s)"
  proof (cases "length s = 5")
    case False
    with assms have "drop 5 s = s ! 5 # drop 6 s"
      using Cons_nth_drop_Suc [of 5 s] by (simp add: technique_shape_def)
    with assms False show ?thesis by (auto simp: technique_shape_def list_all_iff)
  qed simp
  moreover have "take 1 s = ''T''"
    using assms by (cases s) (auto simp: technique_shape_def startswith_def)
  ultimately show ?thesis
    using assms by (subst s) (auto simp: technique_shape_def list_all_iff)
qed

lemma technique_upper:
  assumes "technique_shape s"
  shows "py_upper s = s"
proof -
  have "\<not> is_lower CHR ''T''" "\<not> is_lower CHR ''.''" by code_simp+
  moreover have "is_digit c \<Longrightarrow> \<not> is_lower c" for c by (simp add: is_lower_def is_digit_def)
  ultimately have "\<forall>c\<in>set s. \<not> is_lower c"
    using technique_chars [OF assms] unfolding list_all_iff by metis
  then have "\<forall>c\<in>set s. upper_char c = c" by (simp add: upper_char_def)
  then show ?thesis unfolding py_upper_def by (simp add: map_idI)
qed

lemma wf_simps:
  "wf_indicator \<lparr>ptype = Cve, pvalue = v\<rparr> \<longleftrightarrow> cve_shape v \<and> py_upper v = v"
  "wf_indicator \<lparr>ptype = MitreTechnique, pvalue = v\<rparr> \<longleftrightarrow> technique_shape v"
  "wf_indicator \<lparr>ptype = Url, pvalue = v\<rparr> \<longleftrightarrow> py_in ''://'' v \<and>
     (\<exists>u. urlsplit v = Some u \<and> scheme u \<noteq> [] \<and> netloc u \<noteq> [])"
  "wf_indicator \<lparr>ptype = Email, pvalue = v\<rparr> \<longleftrightarrow> email_shape v \<and> no_upper v"
  "wf_indicator \<lparr>ptype = Domain, pvalue = v\<rparr> \<longleftrightarrow> domain_shape v \<and> no_upper v"
  by (auto simp: wf_indicator_def split: option.splits)

lemma hash_type_wf:
  "trimmed v \<Longrightarrow> hash_type v = Some t \<Longrightarrow> wf_indicator \<lparr>ptype = t, pvalue = py_lower v\<rparr>"
  by (auto simp: hash_type_def hash_re_iff wf_indicator_def split: if_splits)

lemma ipv6_version: "ipv6_address s = Some a \<Longrightarrow> ip_version a = 6"
  by (auto simp: ipv6_address_def Let_def split: if_splits)

lemma ip_type_wf: "ip_type h = Some t \<Longrightarrow> wf_indicator \<lparr>ptype = t, pvalue = h\<rparr>"
  using ipv6_version by (auto simp: ip_type_def ip_address_def wf_indicator_def split: option.splits if_splits)

lemma classify_wf:
  assumes "classify_indicator raw = Inr p"
  shows "wf_indicator p"
proof -
  define v where "v = py_strip (refang raw)"
  have t: "trimmed v" by (simp add: v_def)
  note iffs = hash_re_iff [OF t] cve_re_iff [OF t] technique_re_iff [OF t] email_re_iff [OF t]
    domain_re_iff [OF t]
  have "classify_value raw v = Inr p" using assms by (simp add: classify_indicator_def v_def)
  then show ?thesis
    unfolding classify_value_def classify_name_def reads_as_url_def iffs
    by (auto simp: bindE_Inr_iff wf_simps email_shape_lower domain_shape_lower cve_shape_upper
       technique_upper hash_type_wf [OF t] ip_type_wf split: if_splits option.splits)
qed

section \<open>Classifying a canonical indicator again\<close>

text \<open>
  The types whose canonical value is made of harmless characters: all but URLs and
  IPv6 addresses with a zone id, which may hold any character.
\<close>

definition restorable :: "parsed_indicator \<Rightarrow> bool" where
  "restorable p \<longleftrightarrow> ptype p \<noteq> Url \<and> (ptype p = Ipv6 \<longrightarrow> CHR ''%'' \<notin> set (pvalue p))"

definition is_safe :: "char \<Rightarrow> bool" where
  "is_safe c \<longleftrightarrow> is_alnum c \<or> c \<in> set ''._%+-@:''"

lemma safe_facts:
  "is_safe c \<Longrightarrow> plain_char c" "is_safe c \<Longrightarrow> c \<noteq> CHR ''/''"
  "is_hex c \<Longrightarrow> is_safe c" "is_digit c \<Longrightarrow> is_safe c" "is_letter c \<Longrightarrow> is_safe c"
  "is_local_char c \<Longrightarrow> is_safe c" "is_mail_host_char c \<Longrightarrow> is_safe c" "is_label_char c \<Longrightarrow> is_safe c"
  "is_safe CHR ''.''" "is_safe CHR '':''" "is_safe CHR ''@''" "is_safe CHR ''-''"
proof -
  have "list_all (\<lambda>c. plain_char c \<and> c \<noteq> CHR ''/'') ''._%+-@:''" by code_simp
  moreover have "list_all (\<lambda>c. \<not> is_alnum c) (CHR 0x5C # ''[({/'')" by code_simp
  moreover have "is_alnum c \<Longrightarrow> \<not> is_space c" by (auto simp: char_class_defs)
  ultimately show "is_safe c \<Longrightarrow> plain_char c" "is_safe c \<Longrightarrow> c \<noteq> CHR ''/''"
    by (auto simp: is_safe_def plain_char_def)
qed (auto simp: is_safe_def is_alnum_def is_hex_def is_letter_def is_upper_def is_lower_def
      is_local_char_def is_mail_host_char_def is_label_char_def)

lemma email_safe: "email_shape v \<Longrightarrow> list_all is_safe v"
proof -
  assume e: "email_shape v"
  then have "CHR ''@'' \<in> set v"
    by (metis count_notin email_shape_def one_neq_zero py_count_def)
  then have "v = before CHR ''@'' v @ CHR ''@'' # after CHR ''@'' v" by (rule before_after)
  moreover have "list_all is_local_char (before CHR ''@'' v)"
    "list_all is_mail_host_char (after CHR ''@'' v)"
    using e by (simp_all add: email_shape_def Let_def)
  ultimately show ?thesis
    using safe_facts unfolding list_all_iff by (metis Un_iff set_ConsD set_append)
qed

lemma domain_chars: "domain_shape v \<Longrightarrow> x \<in> set v \<Longrightarrow> is_label_char x \<or> x = CHR ''.''"
  using set_split_on [of x v "CHR ''.''"] by (auto simp: domain_shape_def list_all_iff Let_def)

lemma cve_chars:
  assumes "cve_shape s"
  shows "list_all (\<lambda>c. is_alnum c \<or> c = CHR ''-'') s"
proof -
  have s: "s = take 4 s @ take 4 (drop 4 s) @ [s ! 8] @ drop 9 s"
  proof -
    have "drop 8 s = s ! 8 # drop 9 s"
      using assms Cons_nth_drop_Suc [of 8 s] by (simp add: cve_shape_def)
    moreover have "s = take 4 s @ take 4 (drop 4 s) @ drop 8 s"
      using append_take_drop_id [of 4 s] append_take_drop_id [of 4 "drop 4 s"] by simp
    ultimately show ?thesis by simp
  qed
  have "py_upper (take 4 s) = ''CVE-''" using assms by (simp add: cve_shape_def)
  then obtain a b c where "take 4 s = [a, b, c, CHR ''-'']" "upper_char a = CHR ''C''"
    "upper_char b = CHR ''V''" "upper_char c = CHR ''E''"
    by (auto simp: py_upper_def map_eq_Cons_conv upper_dash)
  moreover have "is_letter CHR ''C''" "is_letter CHR ''V''" "is_letter CHR ''E''" by code_simp+
  ultimately have t: "list_all (\<lambda>c. is_alnum c \<or> c = CHR ''-'') (take 4 s)"
    using upper_char_classes(2) [of a] upper_char_classes(2) [of b] upper_char_classes(2) [of c]
    by (simp add: is_alnum_def)
  have "list_all is_digit (take 4 (drop 4 s))" "list_all is_digit (drop 9 s)" "s ! 8 = CHR ''-''"
    using assms by (simp_all add: cve_shape_def)
  with t show ?thesis
    unfolding list_all_iff is_alnum_def
    by (subst s) auto
qed

lemma wf_safe:
  assumes "wf_indicator p" "restorable p"
  shows "list_all is_safe (pvalue p)"
proof -
  let ?v = "pvalue p"
  have "is_letter CHR ''T''" by code_simp
  have dig: "ipv4_address ?v = Some n \<Longrightarrow> list_all is_safe ?v" for n
    using ipv4_chars [of ?v n] safe_facts unfolding list_all_iff by metis
  have six: "ipv6_address ?v = Some a \<Longrightarrow> CHR ''%'' \<notin> set ?v \<Longrightarrow> list_all is_safe ?v" for a
    using ipv6_chars [of ?v a] safe_facts unfolding list_all_iff by metis
  have hex: "list_all is_hex ?v \<Longrightarrow> list_all is_safe ?v"
    using safe_facts unfolding list_all_iff by metis
  have dom: "domain_shape ?v \<Longrightarrow> list_all is_safe ?v"
    using domain_chars safe_facts unfolding list_all_iff by metis
  have cve: "cve_shape ?v \<Longrightarrow> list_all is_safe ?v"
    using cve_chars safe_facts unfolding list_all_iff is_alnum_def by metis
  have tec: "technique_shape ?v \<Longrightarrow> list_all is_safe ?v"
    using technique_chars safe_facts \<open>is_letter CHR ''T''\<close> unfolding list_all_iff by metis
  show ?thesis
    using assms
    by (cases "ptype p")
      (auto simp: wf_indicator_def restorable_def Let_def dest: dig six hex dom cve tec email_safe)
qed

lemma wf_case:
  assumes "wf_indicator p" "restorable p"
  shows "(\<forall>c\<in>set (pvalue p). \<not> is_upper c) \<or> CHR ''h'' \<notin> set (pvalue p)"
proof -
  let ?v = "pvalue p"
  have nh: "\<not> is_hex CHR ''h''" "\<not> is_digit CHR ''h''" "upper_char CHR ''h'' \<noteq> CHR ''h''"
    by code_simp+
  have "py_upper ?v = ?v \<Longrightarrow> CHR ''h'' \<notin> set ?v"
    using nh(3) unfolding py_upper_def by (metis in_set_conv_nth length_map nth_map)
  moreover have "ipv4_address ?v = Some n \<Longrightarrow> CHR ''h'' \<notin> set ?v" for n
    using ipv4_chars [of ?v n] nh by auto
  moreover have "ipv6_address ?v = Some a \<Longrightarrow> CHR ''%'' \<notin> set ?v \<Longrightarrow> CHR ''h'' \<notin> set ?v" for a
    using ipv6_chars [of ?v a] nh by auto
  moreover note technique_upper [of ?v]
  ultimately show ?thesis
    using assms
    by (cases "ptype p")
      (auto simp: wf_indicator_def restorable_def no_upper_def list_all_iff Let_def)
qed

lemma classify_canonical:
  assumes w: "wf_indicator p" and r: "restorable p"
  shows "classify_value raw (pvalue p) = Inr p"
proof -
  let ?v = "pvalue p"
  have s: "list_all is_safe ?v" using wf_safe [OF assms] .
  have t: "trimmed ?v"
    by (rule trimmed_no_space) (use s safe_facts(1) in \<open>auto simp: list_all_iff plain_char_def\<close>)
  have url: "\<not> py_in ''://'' ?v"
  proof
    assume "py_in ''://'' ?v"
    then have "CHR ''/'' \<in> set ?v" by (auto simp: py_in_iff)
    with s safe_facts(2) show False by (auto simp: list_all_iff)
  qed
  have nohash: "hash_type ?v = None" if "x \<in> set ?v" "\<not> is_hex x" for x
    using that by (auto simp: hash_type_def hash_re_iff [OF t] list_all_iff)
  have cve: "re_match cve_re ?v = cve_shape ?v" and tec: "re_match technique_re ?v = technique_shape ?v"
    and eml: "re_match email_re ?v = email_shape ?v" and dom: "re_match domain_re ?v = domain_shape ?v"
    by (rule cve_re_iff technique_re_iff email_re_iff domain_re_iff, rule t)+
  have n: "\<not> is_hex CHR ''-''" "\<not> is_hex CHR ''.''" "\<not> is_hex CHR '':''" "\<not> is_hex CHR ''@''"
    "\<not> is_hex CHR ''T''" "\<not> is_alnum CHR ''.''" "\<not> is_alnum CHR '':''" "\<not> is_alnum CHR ''@''"
    "\<not> is_digit CHR '':''" "\<not> is_digit CHR ''@''" "is_upper CHR ''T''" "\<not> is_digit CHR ''T''"
    "\<not> is_label_char CHR ''@''" "\<not> is_label_char CHR '':''" "\<not> is_label_char CHR ''%''"
    by code_simp+
  have nocve: "\<not> cve_shape ?v" if "x \<in> set ?v" "x = CHR ''.'' \<or> x = CHR '':'' \<or> x = CHR ''@''" for x
  proof
    assume "cve_shape ?v"
    then have "is_alnum x \<or> x = CHR ''-''"
      using cve_chars that(1) unfolding list_all_iff by metis
    with that(2) n(6-8) show False by (elim disjE) simp_all
  qed
  have notech: "\<not> technique_shape ?v" if "x \<in> set ?v" "x = CHR '':'' \<or> x = CHR ''@''" for x
  proof
    assume "technique_shape ?v"
    then have "x = CHR ''T'' \<or> is_digit x \<or> x = CHR ''.''"
      using technique_chars that(1) unfolding list_all_iff by metis
    with that(2) n(9,10) show False by (elim disjE) simp_all
  qed
  have hd: "CHR ''T'' \<in> set ?v" if "technique_shape ?v"
    using that unfolding technique_shape_def startswith_def prefix_def by auto
  have at: "CHR ''@'' \<in> set ?v" if "email_shape ?v"
    using that by (metis count_notin email_shape_def one_neq_zero py_count_def)
  have host: "bare_host ?v = ?v" if "py_count CHR '':'' ?v \<noteq> 1"
    using that by (simp add: bare_host_def)
  show ?thesis
  proof (cases "ptype p")
    case Ipv4
    with w obtain m where ip: "ipv4_address ?v = Some m" by (auto simp: wf_indicator_def Let_def)
    then have "length (split_on CHR ''.'' ?v) = 4"
      by (auto simp: ipv4_address_def ipv4_int_def Let_def split: if_splits)
    then have dot: "CHR ''.'' \<in> set ?v" by (auto simp: length_split_on count_list_0_iff intro: ccontr)
    note ch = ipv4_chars [OF ip]
    have no: "CHR ''@'' \<notin> set ?v" "CHR ''T'' \<notin> set ?v" "CHR '':'' \<notin> set ?v"
      using ch [of "CHR ''@''"] ch [of "CHR ''T''"] ch [of "CHR '':''"] n by auto
    then have "py_count CHR '':'' ?v = 0" by (simp add: py_count_def)
    with no dot ip Ipv4 show ?thesis
      using nohash [OF dot] nocve [OF dot] hd at url n host
      by (auto simp: classify_value_def cve tec reads_as_url_def classify_name_def eml
         ip_type_def ip_address_def)
  next
    case Ipv6
    with w r obtain a where ip: "ipv4_address ?v = None" "ipv6_address ?v = Some a" and
      np: "CHR ''%'' \<notin> set ?v"
      by (auto simp: wf_indicator_def restorable_def Let_def)
    have c: "2 \<le> py_count CHR '':'' ?v" using ipv6_colons [OF ip(2) np] .
    then have col: "CHR '':'' \<in> set ?v" by (metis count_notin not_numeral_le_zero py_count_def)
    have no: "CHR ''@'' \<notin> set ?v"
      using ipv6_chars [OF ip(2) np, of "CHR ''@''"] n by auto
    from ip c no Ipv6 col show ?thesis
      using nohash [OF col] nocve [OF col] notech [OF col] at url n host ipv6_version [OF ip(2)]
      by (auto simp: classify_value_def cve tec reads_as_url_def classify_name_def eml
         ip_type_def ip_address_def)
  next
    case Domain
    with w have d: "domain_shape ?v" "no_upper ?v" by (auto simp: wf_indicator_def Let_def)
    then have "2 \<le> length (split_on CHR ''.'' ?v)" by (simp add: domain_shape_def Let_def)
    then have dot: "CHR ''.'' \<in> set ?v" by (auto simp: length_split_on count_list_0_iff intro: ccontr)
    have no: "CHR ''@'' \<notin> set ?v" "CHR '':'' \<notin> set ?v" "CHR ''%'' \<notin> set ?v"
      using domain_chars [OF d(1), of "CHR ''@''"] domain_chars [OF d(1), of "CHR '':''"]
        domain_chars [OF d(1), of "CHR ''%''"] n by auto
    have tech: "\<not> technique_shape ?v" using hd d(2) n by (auto simp: no_upper_def list_all_iff)
    have cnt: "py_count CHR '':'' ?v = 0" using no by (simp add: py_count_def)
    have "ipv4_address ?v = None"
    proof (rule ccontr)
      assume "ipv4_address ?v \<noteq> None"
      then obtain m where m: "ipv4_address ?v = Some m" by blast
      let ?t = "last (split_on CHR ''.'' ?v)"
      from d(1) have "list_all is_letter ?t" "2 \<le> length ?t" by (simp_all add: domain_shape_def Let_def)
      then obtain x where x: "x \<in> set ?t" "is_letter x" by (cases ?t) auto
      have "set ?t \<subseteq> set ?v" by (subst (2) labels_split_on [of ?v "CHR ''.''"]) simp
      with x ipv4_chars [OF m, of x] show False
        by (auto simp: is_letter_def is_upper_def is_lower_def is_digit_def)
    qed
    moreover have "ipv6_address ?v = None"
      using ipv6_colons [of ?v] no cnt by (cases "ipv6_address ?v") auto
    ultimately show ?thesis
      using Domain d dot no cnt nohash [OF dot] nocve [OF dot] tech at url n host
      by (auto simp: classify_value_def cve tec reads_as_url_def classify_name_def eml dom
         ip_type_def ip_address_def lower_no_upper)
  next
    case Email
    with w have e: "email_shape ?v" "no_upper ?v" by (auto simp: wf_indicator_def Let_def)
    note a = at [OF e(1)]
    with e Email show ?thesis
      using nohash [OF a] nocve [OF a] notech [OF a] url n
      by (auto simp: classify_value_def cve tec reads_as_url_def classify_name_def eml lower_no_upper)
  next
    case Cve
    with w have c: "cve_shape ?v" "py_upper ?v = ?v" by (auto simp: wf_indicator_def Let_def)
    then have a: "CHR ''-'' \<in> set ?v" 
      using nth_mem [of 8 ?v] by (auto simp: cve_shape_def)
    with c Cve show ?thesis
      using nohash [OF a] n by (auto simp: classify_value_def cve)
  next
    case MitreTechnique
    with w have m: "technique_shape ?v" by (auto simp: wf_indicator_def Let_def)
    then have "hash_type ?v = None" "\<not> cve_shape ?v"
      by (auto simp: technique_shape_def cve_shape_def hash_type_def hash_re_iff [OF t])
    with m MitreTechnique show ?thesis
      using hd [OF m] technique_upper [OF m] by (auto simp: classify_value_def cve tec)
  qed (use w r in \<open>auto simp: wf_indicator_def restorable_def classify_value_def hash_type_def
      hash_re_iff [OF t] Let_def lower_no_upper\<close>)
qed

lemma occurs_ci_upper: "occurs ci_eq t (py_upper s) = occurs ci_eq t s"
proof -
  have e: "ci_eq x (upper_char y) = ci_eq x y" for x y
    by (metis upper_char_idem upper_eq_iff_ci)
  have p: "at_prefix ci_eq u (map upper_char s) = at_prefix ci_eq u s" for u s
    by (induction "ci_eq" u s rule: at_prefix.induct) (auto simp: e)
  show ?thesis
    unfolding py_upper_def
  proof (induction s)
    case (Cons c s)
    then show ?case using p [of t "c # s"] by simp
  qed simp
qed

lemma fanged_bare_host: "fanged v \<Longrightarrow> fanged (bare_host v)"
proof -
  assume f: "fanged v"
  have "prefix (bare_host v) v" by (simp add: bare_host_def before_def takeWhile_is_prefix)
  then obtain w where "v = bare_host v @ w" by (auto simp: prefix_def)
  with f occurs_append1 [of ci_eq _ "bare_host v" w] show ?thesis
    unfolding fanged_def by metis
qed

lemma classify_fanged:
  assumes "classify_indicator raw = Inr p"
  shows "fanged (pvalue p)"
proof -
  define v where "v = py_strip (refang raw)"
  have "fanged v"
    using refang_fanged [of raw] occurs_strip unfolding v_def fanged_def by blast
  moreover have "fanged (py_upper v) = fanged v" by (simp add: fanged_def occurs_ci_upper)
  moreover have "classify_value raw v = Inr p"
    using assms by (simp add: classify_indicator_def v_def)
  ultimately show ?thesis
    by (auto simp: classify_value_def classify_name_def reads_as_url_def bindE_Inr_iff
        fanged_bare_host split: if_splits option.splits)
qed

lemma refang_canonical:
  assumes "classify_indicator raw = Inr p" "restorable p"
  shows "py_strip (refang (pvalue p)) = pvalue p"
    and "py_strip (refang (defang (pvalue p))) = pvalue p"
proof -
  have w: "wf_indicator p" using classify_wf [OF assms(1)] .
  have s: "list_all is_safe (pvalue p)" using wf_safe [OF w assms(2)] .
  then have pl: "list_all plain_char (pvalue p)" and sl: "CHR ''/'' \<notin> set (pvalue p)"
    using safe_facts(1,2) unfolding list_all_iff by metis+
  have strip: "py_strip (pvalue p) = pvalue p"
    by (rule strip_no_space) (use pl in \<open>auto simp: list_all_iff plain_char_def\<close>)
  note f = classify_fanged [OF assms(1)]
  show "py_strip (refang (pvalue p)) = pvalue p"
    by (simp add: refang_plain [OF pl f] strip)
  show "py_strip (refang (defang (pvalue p))) = pvalue p"
    by (simp add: refang_defang [OF pl f sl wf_case [OF w assms(2)]] strip)
qed

section \<open>Defanged text\<close>

text \<open>Reading left to right, every dot is the middle of a \<open>[.]\<close>.\<close>

fun dots_bracketed :: "string \<Rightarrow> bool" where
  "dots_bracketed [] = True"
| "dots_bracketed (c # cs) =
     (if prefix ''[.]'' (c # cs) then dots_bracketed (drop 2 cs)
      else c \<noteq> CHR ''.'' \<and> dots_bracketed cs)"

lemma occurs_eq: "occurs (=) t s = py_in t s"
  by (induction s) (auto simp: at_prefix_eq)

lemma dots_dot: "dots_bracketed (py_replace ''.'' ''[.]'' u)"
proof (induction u)
  case (Cons c u)
  have "\<not> prefix ''.]'' (py_replace ''.'' ''[.]'' u)"
    by (cases u) (auto simp: py_replace_def at_prefix_eq)
  with Cons show ?case by (auto simp: py_replace_def at_prefix_eq)
qed (simp add: py_replace_def)

lemma dots_replace:
  assumes "dots_bracketed s" "(old, new) \<in> {(''://'', ''[://]''), (''@'', ''[at]'')}"
  shows "dots_bracketed (py_replace old new s)"
  using assms(1)
proof (induction "length s" arbitrary: s rule: less_induct)
  case less
  show ?case
  proof (cases s)
    case (Cons c cs)
    consider "prefix old s" | "\<not> prefix old s" "prefix ''[.]'' s" | "\<not> prefix old s" "\<not> prefix ''[.]'' s"
      by blast
    then show ?thesis
    proof cases
      case 1
      then obtain r where r: "s = old @ r" by (auto simp: prefix_def)
      have "dots_bracketed r" using less.prems assms(2) unfolding r by auto
      moreover have "length r < length s" using r assms(2) by auto
      ultimately have "dots_bracketed (py_replace old new r)" using less.hyps by blast
      moreover have "py_replace old new s = new @ py_replace old new r"
        using 1 assms(2) unfolding r py_replace_def by (auto simp: at_prefix_eq)
      ultimately show ?thesis using assms(2) by auto
    next
      case 2
      then obtain r where r: "s = ''[.]'' @ r" by (auto simp: prefix_def)
      have "dots_bracketed r" using less.prems unfolding r by simp
      moreover have "length r < length s" using r by simp
      ultimately have "dots_bracketed (py_replace old new r)" using less.hyps by blast
      moreover have "py_replace old new s = ''[.]'' @ py_replace old new r"
        using assms(2) unfolding r py_replace_def by (auto simp: at_prefix_eq)
      ultimately show ?thesis by simp
    next
      case 3
      have d: "dots_bracketed cs" "c \<noteq> CHR ''.''" using less.prems 3 Cons by auto
      then have i: "dots_bracketed (py_replace old new cs)" using less.hyps [of cs] Cons by simp
      have "\<not> prefix ''.'' cs" using d(1) by (cases cs) auto
      then have "\<not> prefix ''.'' (py_replace old new cs)"
        using assms(2) by (cases cs) (auto simp: py_replace_def at_prefix_eq)
      then have "\<not> prefix ''[.]'' (c # py_replace old new cs)"
        by (cases "py_replace old new cs") auto
      moreover have "py_replace old new s = c # py_replace old new cs"
        using 3(1) unfolding Cons py_replace_def by (auto simp: at_prefix_eq)
      ultimately show ?thesis using i d(2) by auto
    qed
  qed (simp add: py_replace_def)
qed

section \<open>What classification rejects\<close>

lemma classify_error_iff:
  "classify_indicator raw = Inl e \<longleftrightarrow>
   (let v = py_strip (refang raw) in
     (v = [] \<and> e = AppExc UnknownIndicatorError ''Empty indicator.'' []) \<or>
     (py_in ''://'' v \<and> urlsplit v = None \<and> e = PyExc ValueError ''urlsplit'') \<or>
     (v \<noteq> [] \<and> e = unrecognised raw \<and> \<not> (list_all is_hex v \<and> length v \<in> {32, 40, 64}) \<and>
      \<not> cve_shape v \<and> \<not> technique_shape v \<and> reads_as_url v = Inr False \<and>
      \<not> email_shape v \<and> ip_address (bare_host v) = None \<and> \<not> domain_shape v))"
proof -
  define v where "v = py_strip (refang raw)"
  have t: "trimmed v" by (simp add: v_def)
  have hash: "hash_type v = None \<longleftrightarrow> \<not> (list_all is_hex v \<and> length v \<in> {32, 40, 64})"
    by (auto simp: hash_type_def hash_re_iff [OF t])
  have url: "v \<noteq> [] \<and> hash_type v = None \<and> \<not> cve_shape v \<and> \<not> technique_shape v"
    if "py_in ''://'' v"
  proof -
    have sl: "CHR ''/'' \<in> set v" using that by (auto simp: py_in_iff)
    have n: "\<not> is_hex CHR ''/''" "\<not> is_alnum CHR ''/''" "\<not> is_digit CHR ''/''" by code_simp+
    have "\<not> cve_shape v"
    proof
      assume "cve_shape v"
      then have "is_alnum CHR ''/'' \<or> CHR ''/'' = CHR ''-''"
        using cve_chars sl unfolding list_all_iff by metis
      with n show False by simp
    qed
    moreover have "\<not> technique_shape v"
    proof
      assume "technique_shape v"
      then have "CHR ''/'' = CHR ''T'' \<or> is_digit CHR ''/'' \<or> CHR ''/'' = CHR ''.''"
        using technique_chars sl unfolding list_all_iff by metis
      with n show False by simp
    qed
    moreover have "\<not> list_all is_hex v" using sl n(1) unfolding list_all_iff by metis
    ultimately show ?thesis using sl hash by auto
  qed
  have e: "raise_app UnknownIndicatorError (Some ''Empty indicator.'') [] =
      AppExc UnknownIndicatorError ''Empty indicator.'' []"
    by (simp add: raise_app_def)
  have "classify_indicator raw = Inl e \<longleftrightarrow>
     (v = [] \<and> e = AppExc UnknownIndicatorError ''Empty indicator.'' []) \<or>
     (v \<noteq> [] \<and> hash_type v = None \<and> \<not> cve_shape v \<and> \<not> technique_shape v \<and>
       bindE (reads_as_url v) (\<lambda>u. if u then Inr \<lparr>ptype = Url, pvalue = v\<rparr> else classify_name raw v) = Inl e)"
    by (auto simp: classify_indicator_def classify_value_def v_def [symmetric] cve_re_iff [OF t] e
        technique_re_iff [OF t] split: option.splits)
  also have "bindE (reads_as_url v) (\<lambda>u. if u then Inr \<lparr>ptype = Url, pvalue = v\<rparr> else classify_name raw v) = Inl e
     \<longleftrightarrow> (py_in ''://'' v \<and> urlsplit v = None \<and> e = PyExc ValueError ''urlsplit'') \<or>
      (reads_as_url v = Inr False \<and> e = unrecognised raw \<and> \<not> email_shape v \<and>
       ip_address (bare_host v) = None \<and> \<not> domain_shape v)"
    unfolding bindE_Inl_iff
    by (auto simp: reads_as_url_def classify_name_def email_re_iff [OF t] domain_re_iff [OF t]
        ip_type_def split: option.splits if_splits)
  finally show ?thesis
    unfolding v_def [symmetric] Let_def hash [symmetric] using url by blast
qed

section \<open>Properties\<close>



text \<open>Classification is idempotent: the canonical value of an indicator that is neither
  a URL nor a zoned IPv6 address is classified as that same indicator again, so
  re-enriching a stored indicator finds its own row.\<close>

theorem classify_idempotent:
  "classify_indicator raw = Inr p \<Longrightarrow> restorable p \<Longrightarrow> classify_indicator (pvalue p) = Inr p"
  unfolding classify_indicator_def [of "pvalue p"]
  by (simp add: refang_canonical classify_canonical classify_wf)

theorem classify_idempotent_witness:
  "classify_indicator ''a@b.co'' = Inr \<lparr>ptype = Email, pvalue = ''a@b.co''\<rparr>"
  using classify_idempotent [of "''A(at)b.co''" "\<lparr>ptype = Email, pvalue = ''a@b.co''\<rparr>"]
  by (simp add: restorable_def) code_simp



text \<open>Defanged text is inert: it holds no \<open>http\<close>, no \<open>@\<close>, and every dot in it belongs to a
  bracketed \<open>[.]\<close>, so neither a mail client nor a browser reads a link or an address in it.\<close>

theorem defang_inert:
  "\<not> py_in ''http'' (defang v) \<and> CHR ''@'' \<notin> set (defang v) \<and> dots_bracketed (defang v)"
proof (intro conjI)
  have "blocks (=) ''http'' new" if "new \<in> {''hxxp'', ''[.]'', ''[://]'', ''[at]''}" for new
    using that by (auto simp: blocks_def less_Suc_eq eval_nat_numeral)
  then have "\<not> occurs (=) ''http'' (defang v)"
    unfolding defang_def py_replace_def
    by (intro sub_with_no_new sub_with_removes) simp_all
  then show "\<not> py_in ''http'' (defang v)" by (simp add: occurs_eq)
  show "CHR ''@'' \<notin> set (defang v)"
    unfolding defang_def replace_char [of "CHR ''@''"] by (auto split: if_splits)
  show "dots_bracketed (defang v)"
    unfolding defang_def by (intro dots_replace dots_dot) simp_all
qed

text \<open>C22: Classification rejects exactly the text no rule accepts.  The error is the
  application's own \<open>UnknownIndicatorError\<close>, with one exception: when the refanged text
  contains \<open>://\<close> and \<open>urlsplit\<close> finds its network location malformed, the \<open>ValueError\<close> of
  the standard library leaves the call.\<close>

theorem classify_rejects:
  "classify_indicator raw = Inl e \<longleftrightarrow>
   (let v = py_strip (refang raw) in
     (v = [] \<and> e = AppExc UnknownIndicatorError ''Empty indicator.'' []) \<or>
     (py_in ''://'' v \<and> urlsplit v = None \<and> e = PyExc ValueError ''urlsplit'') \<or>
     (v \<noteq> [] \<and> e = unrecognised raw \<and> \<not> (list_all is_hex v \<and> length v \<in> {32, 40, 64}) \<and>
      \<not> cve_shape v \<and> \<not> technique_shape v \<and> reads_as_url v = Inr False \<and>
      \<not> email_shape v \<and> ip_address (bare_host v) = None \<and> \<not> domain_shape v))"
  by (rule classify_error_iff)

theorem classify_rejects_witness:
  "classify_indicator ''http://[::1'' = Inl (PyExc ValueError ''urlsplit'')"
proof -
  have "py_strip (refang ''http://[::1'') = ''http://[::1''" "py_in ''://'' ''http://[::1''"
    "urlsplit ''http://[::1'' = None"
    by code_simp+
  then show ?thesis unfolding classify_rejects Let_def by simp
qed

end
