(* ===== verification/Enrichment.thy ===== *)
theory Enrichment
  imports Ssrf Scoring Indicators "HOL-Library.AList"
begin

text \<open>
  Enrichers and the engine that merges them and derives the scoring signals:
  \<open>app/enrichment/enrichers.py\<close>, \<open>app/enrichment/engine.py\<close>.  The digest of a text is a parameter
  (\<open>digest bytes i\<close> is byte \<open>i\<close> of its SHA-256), and so is name resolution.
\<close>

section \<open>Enrichers\<close>

type_synonym dict = "(string \<times> json) list"

record enrich_env =
  ee_live :: bool
  ee_allowed :: "string list"
  ee_resolver :: resolver
  ee_digest :: "string \<Rightarrow> nat \<Rightarrow> int"

text \<open>\<open>dict.update\<close>: an existing key keeps its place.\<close>

definition dict_update :: "dict \<Rightarrow> dict \<Rightarrow> dict" where
  "dict_update d e = fold (\<lambda>(k, v). AList.update k v) e d"

definition demo_geos :: "string list" where
  "demo_geos = [''US'', ''RU'', ''CN'', ''DE'', ''NL'', ''IR'', ''BR'', ''IN'', ''KP'', ''GB'']"

text \<open>\<open>ip.packed\<close>: the bytes of an address, most significant first.\<close>

fun packed_bytes :: "nat \<Rightarrow> int \<Rightarrow> string" where
  "packed_bytes 0 n = []"
| "packed_bytes (Suc k) n = char_of ((n div 256 ^ k) mod 256) # packed_bytes k n"

fun packed :: "ip_addr \<Rightarrow> string" where
  "packed (V4 n) = packed_bytes 4 n"
| "packed (V6 n _) = packed_bytes 16 n"

definition geoip_enrich :: "enrich_env \<Rightarrow> string \<Rightarrow> dict" where
  "geoip_enrich E host =
     (case ip_address host of
        None \<Rightarrow> []
      | Some ip \<Rightarrow>
          let digest = ee_digest E (packed ip);
              country = demo_geos ! nat (digest 0 mod int (length demo_geos));
              asn = 64512 + or (push_bit 8 (digest 1)) (digest 2) mod 1000
          in [(''geoip'', JObj [(''country'', JStr country), (''asn'', JInt asn),
                (''org'', JStr (''AS'' @ show_int asn @ '' Demo Network'')),
                (''source'', JStr ''offline-heuristic'')])])"

definition dns_enrich :: "enrich_env \<Rightarrow> string \<Rightarrow> dict" where
  "dns_enrich E host =
     (if \<not> ee_live E
      then [(''dns'', JObj [(''resolved'', JArr []), (''source'', JStr ''offline-heuristic'')])]
      else let allowed = ssrf_guard (ee_allowed E) in
        if \<not> host_allowed allowed host
        then [(''dns'', JObj [(''resolved'', JArr []), (''source'', JStr ''live''),
                (''blocked'', JBool True)])]
        else case resolve_public (ee_resolver E) allowed host of
          Inl _ \<Rightarrow> [(''dns'', JObj [(''resolved'', JArr []), (''source'', JStr ''live''),
                       (''error'', JBool True)])]
        | Inr ips \<Rightarrow> [(''dns'', JObj [(''resolved'', JArr (map JStr ips)), (''source'', JStr ''live'')])])"

definition round3 :: "real \<Rightarrow> real" where
  "round3 x = of_int (round_half_even (x * 1000)) / 1000"

definition reputation_enrich :: "enrich_env \<Rightarrow> string \<Rightarrow> dict" where
  "reputation_enrich E host =
     (let detected = ee_digest E host 0 mod 70; total = 70 in
      [(''reputation'', JObj [(''detected'', JInt detected), (''total'', JInt total),
          (''ratio'', JReal (round3 (of_int detected / of_int total))),
          (''source'', JStr ''offline-heuristic'')])])"

section \<open>The engine\<close>

definition reputable_sources :: "string list" where
  "reputable_sources =
     [''abuseipdb'', ''urlhaus'', ''malwarebazaar'', ''otx'', ''cisa_kev'', ''virustotal'']"

definition enrich_indicator :: "enrich_env \<Rightarrow> ioc_type \<Rightarrow> string \<Rightarrow> exn + dict" where
  "enrich_indicator E t v =
     bindE (extract_host v t) (\<lambda>found.
       case found of
         None \<Rightarrow> Inr (if t \<in> set hash_types then reputation_enrich E v else [])
       | Some host \<Rightarrow> Inr
           (if host_allowed (ssrf_guard (ee_allowed E)) host
            then dict_update (dict_update (geoip_enrich E host) (dns_enrich E host))
                   (reputation_enrich E host)
            else dict_update (dict_update
                   [(''dns'', JObj [(''resolved'', JArr []), (''source'', JStr ''live''),
                      (''blocked'', JBool True)])]
                   (geoip_enrich E host)) (reputation_enrich E host)))"

text \<open>Reading a merged payload: \<open>enrichment.get(k, {})\<close>, and \<open>int(d.get(k, 0))\<close> of a number.\<close>

definition sub_dict :: "string \<Rightarrow> dict \<Rightarrow> dict" where
  "sub_dict k d = (case jget k d of Some (JObj e) \<Rightarrow> e | _ \<Rightarrow> [])"

definition int_field :: "string \<Rightarrow> dict \<Rightarrow> int" where
  "int_field k d = (case jget k d of Some (JInt n) \<Rightarrow> n | _ \<Rightarrow> 0)"

definition signals_from ::
  "dict \<Rightarrow> string \<Rightarrow> int \<Rightarrow> real \<Rightarrow> int list option \<Rightarrow> real \<Rightarrow> bool \<Rightarrow> score_signals" where
  "signals_from enrichment source sightings age_days open_ports confidence blacklisted =
     (let rep = sub_dict ''reputation'' enrichment;
          geo = sub_dict ''geoip'' enrichment;
          det_ratio = (if rep \<noteq> []
            then detection_ratio (int_field ''detected'' rep) (int_field ''total'' rep) else 0);
          reputable = 1 + (if source \<in> set reputable_sources then 1 else 0)
      in \<lparr>sig_source_reputation = source_reputation_score reputable default_source_cap,
          sig_detection_ratio = det_ratio,
          sig_blacklist_presence = (if blacklisted then 1 else 0),
          sig_confidence = confidence,
          sig_recency = recency_score age_days default_half_life,
          sig_frequency = frequency_score sightings default_frequency_cap,
          sig_geo_risk = geo_risk_score (case jget ''country'' geo of Some (JStr c) \<Rightarrow> Some c | _ \<Rightarrow> None),
          sig_port_risk = port_risk_score open_ports,
          sig_historical_activity = min 1 (of_int sightings / 50)\<rparr>)"

text \<open>The addresses a payload reports: \<open>(enrichment.get("dns") or {}).get("resolved") or []\<close>.\<close>

definition reported_addresses :: "dict \<Rightarrow> string list" where
  "reported_addresses enrichment =
     (case jget ''resolved'' (sub_dict ''dns'' enrichment) of
        Some (JArr xs) \<Rightarrow> List.map_filter (\<lambda>x. case x of JStr s \<Rightarrow> Some s | _ \<Rightarrow> None) xs
      | _ \<Rightarrow> [])"


section \<open>Lemmas\<close>

lemma jget_update_one [simp]: "jget k (dict_update d [(j, v)]) = (if k = j then Some v else jget k d)"
  by (simp add: jget_def dict_update_def update_conv')

lemma dict_update_Nil [simp]: "dict_update d [] = d"
  by (simp add: dict_update_def)

lemma jget_geoip [simp]:
  "k \<noteq> ''geoip'' \<Longrightarrow> jget k (dict_update d (geoip_enrich E h)) = jget k d"
  "k \<noteq> ''geoip'' \<Longrightarrow> jget k (geoip_enrich E h) = None"
  by (simp_all add: geoip_enrich_def Let_def split: option.splits) (simp_all add: jget_def)

text \<open>What the resolver facet of a payload can be.\<close>

lemma dns_facet:
  "\<exists>fields. dns_enrich E h = [(''dns'', JObj fields)] \<and>
     (jget ''resolved'' fields = Some (JArr []) \<or>
      ee_live E \<and> host_allowed (ssrf_guard (ee_allowed E)) h \<and>
      (\<exists>ips. jget ''resolved'' fields = Some (JArr (map JStr ips)) \<and> list_all ip_is_public ips))"
proof -
  have "list_all ip_is_public ips" if "resolve_public g a h = Inr ips" for g a ips
    using that by (auto simp: resolve_public_def bindE_Inr_iff list_all_iff split: if_splits)
  then show ?thesis
    by (auto simp: dns_enrich_def Let_def jget_def split: sum.splits)
qed

lemma map_filter_strings [simp]:
  "List.map_filter (\<lambda>x. case x of JStr s \<Rightarrow> Some s | _ \<Rightarrow> None) (map JStr ips) = ips"
  by (induction ips) (simp_all add: List.map_filter_simps)

lemma jget_reputation [simp]:
  "k \<noteq> ''reputation'' \<Longrightarrow> jget k (dict_update d (reputation_enrich E h)) = jget k d"
  by (simp add: reputation_enrich_def Let_def)

text \<open>Offline, the resolver is not asked.\<close>

lemma enrich_offline:
  "\<not> ee_live E \<Longrightarrow> enrich_indicator (E\<lparr>ee_resolver := g\<rparr>) t v = enrich_indicator E t v"
  by (auto simp: enrich_indicator_def dns_enrich_def geoip_enrich_def reputation_enrich_def bindE_def
      split: sum.splits option.splits)

text \<open>The addresses of the DNS facet.\<close>

lemma reported_merged:
  assumes "enrich_indicator E t v = Inr d" "extract_host v t = Inr (Some h)"
    "host_allowed (ssrf_guard (ee_allowed E)) h" "dns_enrich E h = [(''dns'', JObj fs)]"
  shows "reported_addresses d = (case jget ''resolved'' fs of
    Some (JArr xs) \<Rightarrow> List.map_filter (\<lambda>x. case x of JStr s \<Rightarrow> Some s | _ \<Rightarrow> None) xs | _ \<Rightarrow> [])"
  using assms by (auto simp: enrich_indicator_def reported_addresses_def sub_dict_def)

lemma reported_public:
  assumes e: "enrich_indicator E t v = Inr d"
  shows "list_all ip_is_public (reported_addresses d) \<and>
    (reported_addresses d = [] \<or>
     ee_live E \<and> (\<exists>h. extract_host v t = Inr (Some h) \<and> host_allowed (ssrf_guard (ee_allowed E)) h))"
proof -
  obtain f where f: "extract_host v t = Inr f" using e by (auto simp: enrich_indicator_def bindE_Inr_iff)
  show ?thesis
  proof (cases "\<exists>h. f = Some h \<and> host_allowed (ssrf_guard (ee_allowed E)) h")
    case True
    then obtain h where h: "f = Some h" "host_allowed (ssrf_guard (ee_allowed E)) h" by blast
    obtain fields where n: "dns_enrich E h = [(''dns'', JObj fields)]"
      "jget ''resolved'' fields = Some (JArr []) \<or>
       ee_live E \<and> host_allowed (ssrf_guard (ee_allowed E)) h \<and>
       (\<exists>ips. jget ''resolved'' fields = Some (JArr (map JStr ips)) \<and> list_all ip_is_public ips)"
      using dns_facet [of E h] by blast
    from reported_merged [OF e f [unfolded h(1)] h(2) n(1)] n(2) f h show ?thesis
      by (auto simp: List.map_filter_simps)
  next
    case False
    have "reported_addresses d = []"
    proof (cases f)
      case None
      with e f show ?thesis
        by (auto simp: enrich_indicator_def reported_addresses_def sub_dict_def reputation_enrich_def
            jget_def Let_def split: if_splits)
    next
      case (Some h)
      with e f False show ?thesis
        by (auto simp: enrich_indicator_def reported_addresses_def sub_dict_def)
          (simp add: jget_def List.map_filter_simps)
    qed
    then show ?thesis by simp
  qed
qed

section \<open>Properties\<close>



end
