(* ===== verification/Events.thy ===== *)
theory Events
  imports Errors "HOL-Library.AList"
begin

text \<open>
  The in-process publish/subscribe bus (\<open>app/core/events.py\<close>).  A subscriber is its bounded
  queue, known by the order in which it subscribed; \<open>asyncio.Queue\<close> is a list with the newest
  element last.  Publishing, taking and leaving are steps on the bus; between two of them the
  event loop may run anything, so a run is any sequence of steps.
\<close>

section \<open>Events\<close>

text \<open>\<open>created_at\<close> is the ISO text of the time; \<open>json.dumps\<close> is a parameter of the rendering.\<close>

record event =
  ev_type :: string
  ev_data :: "(string \<times> json) list"
  ev_at :: string

definition to_sse :: "(json \<Rightarrow> string) \<Rightarrow> event \<Rightarrow> string" where
  "to_sse dumps e =
     ''event: '' @ ev_type e @ [CHR 0x0A] @ ''data: '' @
     dumps (JObj (AList.update ''at'' (JStr (ev_at e)) (ev_data e))) @ [CHR 0x0A, CHR 0x0A]"

definition default_queue_size :: int where
  "default_queue_size = 100"

section \<open>The bus\<close>

type_synonym queue = "event list"

record event_bus =
  queue_size :: int
  subscribers :: "(nat \<times> queue) list"
  joined :: nat

definition new_bus :: "int \<Rightarrow> event_bus" where
  "new_bus cap = \<lparr>queue_size = cap, subscribers = [], joined = 0\<rparr>"

definition queue_full :: "int \<Rightarrow> queue \<Rightarrow> bool" where
  "queue_full cap q \<longleftrightarrow> 0 < cap \<and> cap \<le> int (length q)"

text \<open>\<open>_offer\<close>: drop the oldest event and retry until the queue takes the new one.\<close>

fun offer :: "int \<Rightarrow> event \<Rightarrow> queue \<Rightarrow> queue" where
  "offer cap e [] = (if queue_full cap [] then [] else [e])"
| "offer cap e (x # q) = (if queue_full cap (x # q) then offer cap e q else (x # q) @ [e])"

definition subscriber_count :: "event_bus \<Rightarrow> nat" where
  "subscriber_count b = length (subscribers b)"

definition publish :: "event \<Rightarrow> event_bus \<Rightarrow> event_bus" where
  "publish e b =
     b\<lparr>subscribers := map (\<lambda>(i, q). (i, offer (queue_size b) e q)) (subscribers b)\<rparr>"

text \<open>Entering and leaving \<open>subscribe()\<close>; \<open>take\<close> is \<open>queue.get()\<close>, which waits if it is empty.\<close>

definition subscribe :: "event_bus \<Rightarrow> event_bus" where
  "subscribe b = b\<lparr>subscribers := subscribers b @ [(joined b, [])], joined := Suc (joined b)\<rparr>"

definition unsubscribe :: "nat \<Rightarrow> event_bus \<Rightarrow> event_bus" where
  "unsubscribe i b = b\<lparr>subscribers := filter (\<lambda>s. fst s \<noteq> i) (subscribers b)\<rparr>"

definition take_event :: "nat \<Rightarrow> event_bus \<Rightarrow> event option \<times> event_bus" where
  "take_event i b =
     (case map_of (subscribers b) i of
        Some (e # q) \<Rightarrow>
          (Some e, b\<lparr>subscribers :=
             map (\<lambda>s. if fst s = i then (i, q) else s) (subscribers b)\<rparr>)
      | _ \<Rightarrow> (None, b))"

text \<open>One turn of \<open>stream\<close>: an event frame, or a heartbeat when the wait timed out.\<close>

definition connected_frame :: string where
  "connected_frame = '': connected'' @ [CHR 0x0A, CHR 0x0A]"

definition stream_turn :: "(json \<Rightarrow> string) \<Rightarrow> nat \<Rightarrow> event_bus \<Rightarrow> string \<times> event_bus" where
  "stream_turn dumps i b =
     (case take_event i b of
        (Some e, b') \<Rightarrow> (to_sse dumps e, b')
      | (None, b') \<Rightarrow> ('': heartbeat'' @ [CHR 0x0A, CHR 0x0A], b'))"

section \<open>Runs, and the log they implement\<close>

datatype bus_op = Subscribe | Unsubscribe nat | Publish event | Take nat

fun bus_step :: "bus_op \<Rightarrow> event_bus \<Rightarrow> event option \<times> event_bus" where
  "bus_step Subscribe b = (None, subscribe b)"
| "bus_step (Unsubscribe i) b = (None, unsubscribe i b)"
| "bus_step (Publish e) b = (None, publish e b)"
| "bus_step (Take i) b = take_event i b"

fun bus_run :: "bus_op list \<Rightarrow> event_bus \<Rightarrow> event option list \<times> event_bus" where
  "bus_run [] b = ([], b)"
| "bus_run (x # xs) b =
     (case bus_step x b of (out, b1) \<Rightarrow> (case bus_run xs b1 of (outs, b2) \<Rightarrow> (out # outs, b2)))"

text \<open>
  The specification is one log of everything published and, per subscriber, a cursor into it
  that is never more than the queue size behind the end.
\<close>

record event_log =
  history :: "event list"
  cursors :: "nat \<Rightarrow> nat option"
  members :: nat

definition new_log :: event_log where
  "new_log = \<lparr>history = [], cursors = Map.empty, members = 0\<rparr>"

fun log_step :: "int \<Rightarrow> bus_op \<Rightarrow> event_log \<Rightarrow> event option \<times> event_log" where
  "log_step cap Subscribe l =
     (None, l\<lparr>cursors := (cursors l)(members l \<mapsto> length (history l)), members := Suc (members l)\<rparr>)"
| "log_step cap (Unsubscribe i) l = (None, l\<lparr>cursors := (cursors l)(i := None)\<rparr>)"
| "log_step cap (Publish e) l =
     (None, l\<lparr>history := history l @ [e],
              cursors := (\<lambda>i. map_option (max (Suc (length (history l)) - nat cap)) (cursors l i))\<rparr>)"
| "log_step cap (Take i) l =
     (case cursors l i of
        Some c \<Rightarrow> if c < length (history l)
                  then (Some (history l ! c), l\<lparr>cursors := (cursors l)(i \<mapsto> Suc c)\<rparr>)
                  else (None, l)
      | None \<Rightarrow> (None, l))"

fun log_run :: "int \<Rightarrow> bus_op list \<Rightarrow> event_log \<Rightarrow> event option list \<times> event_log" where
  "log_run cap [] l = ([], l)"
| "log_run cap (x # xs) l =
     (case log_step cap x l of
        (out, l1) \<Rightarrow> (case log_run cap xs l1 of (outs, l2) \<Rightarrow> (out # outs, l2)))"

section \<open>Lemmas\<close>

text \<open>The retry loop keeps the newest events.\<close>

lemma offer_eq: "0 < cap \<Longrightarrow> offer cap e q = drop (Suc (length q) - nat cap) (q @ [e])"
proof (induction q)
  case (Cons x q)
  show ?case
  proof (cases "cap \<le> int (length (x # q))")
    case True
    then have "Suc (length (x # q)) - nat cap = Suc (Suc (length q) - nat cap)" by simp
    with Cons True show ?thesis by (simp add: queue_full_def)
  qed (simp add: queue_full_def Cons.prems)
qed (simp add: queue_full_def)

text \<open>A bus and a log agree when each queue is what lies ahead of its subscriber's cursor.\<close>

definition agrees :: "event_bus \<Rightarrow> event_log \<Rightarrow> bool" where
  "agrees b l \<longleftrightarrow>
     joined b = members l \<and>
     (\<forall>i. map_of (subscribers b) i = map_option (\<lambda>c. drop c (history l)) (cursors l i)) \<and>
     (\<forall>i c. cursors l i = Some c \<longrightarrow>
        c \<le> length (history l) \<and> length (history l) - c \<le> nat (queue_size b) \<and> i < members l)"

lemma map_of_offer:
  "map_of (map (\<lambda>(i, q). (i, f q)) xs) j = map_option f (map_of xs j)"
  by (induction xs) auto

lemma map_of_replace:
  "map_of (map (\<lambda>s. if fst s = i then (i, q) else s) xs) j =
     (if j = i \<and> map_of xs i \<noteq> None then Some q else map_of xs j)"
  by (induction xs) auto

lemma map_of_left: "map_of (filter (\<lambda>s. fst s \<noteq> i) xs) j = (if j = i then None else map_of xs j)"
  by (induction xs) auto

lemma agrees_subscribe: "agrees b l \<Longrightarrow> agrees (subscribe b) (snd (log_step cap Subscribe l))"
  by (auto simp: agrees_def subscribe_def map_add_def less_Suc_eq split: option.splits)

lemma agrees_publish:
  assumes s: "0 < queue_size b" and a: "agrees b l"
  shows "agrees (publish e b) (snd (log_step (queue_size b) (Publish e) l))"
proof -
  let ?h = "history l" and ?k = "nat (queue_size b)"
  have o: "offer (queue_size b) e (drop c ?h) = drop (max (Suc (length ?h) - ?k) c) (?h @ [e])"
    if c: "c \<le> length ?h" for c
  proof -
    from c have d: "drop c ?h @ [e] = drop c (?h @ [e])" by simp
    have "Suc (length (drop c ?h)) - ?k + c = max (Suc (length ?h) - ?k) c" using c s by auto
    then show ?thesis by (simp only: offer_eq [OF s] d drop_drop)
  qed
  have "map_of (subscribers (publish e b)) i =
      map_option (\<lambda>c. drop (max (Suc (length ?h) - ?k) c) (?h @ [e])) (cursors l i)" for i
    using a o by (cases "cursors l i") (simp_all add: agrees_def publish_def map_of_offer)
  moreover have "max (Suc (length ?h) - ?k) c \<le> Suc (length ?h) \<and>
      Suc (length ?h) - max (Suc (length ?h) - ?k) c \<le> ?k \<and> i < members l"
    if "cursors l i = Some c" for i c
  proof -
    from a that have "c \<le> length ?h" "i < members l" by (simp_all add: agrees_def)
    then show ?thesis by auto
  qed
  ultimately show ?thesis using a
    by (auto simp: agrees_def publish_def option.map_comp comp_def simp del: drop_append)
qed

lemma agrees_take:
  assumes a: "agrees b l"
  shows "fst (take_event i b) = fst (log_step cap (Take i) l) \<and>
    agrees (snd (take_event i b)) (snd (log_step cap (Take i) l))"
proof (cases "cursors l i")
  case None
  then show ?thesis using a by (auto simp: agrees_def take_event_def split: option.splits)
next
  case (Some c)
  then have q: "map_of (subscribers b) i = Some (drop c (history l))" and c: "c \<le> length (history l)"
    using a by (auto simp: agrees_def)
  show ?thesis
  proof (cases "c < length (history l)")
    case True
    then have "drop c (history l) = history l ! c # drop (Suc c) (history l)"
      by (rule Cons_nth_drop_Suc [symmetric])
    then show ?thesis using a q Some True
      by (auto simp: agrees_def take_event_def map_of_replace) fastforce+
  next
    case False
    then show ?thesis using a q Some c by (simp add: take_event_def)
  qed
qed

lemma queue_size_step [simp]: "queue_size (snd (bus_step x b)) = queue_size b"
  by (cases x) (simp_all add: subscribe_def unsubscribe_def publish_def take_event_def
      split: option.splits list.splits)

lemma agrees_step:
  assumes "0 < queue_size b" "agrees b l"
  shows "fst (bus_step x b) = fst (log_step (queue_size b) x l) \<and>
    agrees (snd (bus_step x b)) (snd (log_step (queue_size b) x l))"
proof (cases x)
  case (Unsubscribe i)
  then show ?thesis using assms(2) by (auto simp: agrees_def unsubscribe_def map_of_left)
qed (use assms agrees_subscribe agrees_publish agrees_take in \<open>simp_all del: log_step.simps(4)\<close>)

lemma agrees_run:
  "0 < queue_size b \<Longrightarrow> agrees b l \<Longrightarrow>
   fst (bus_run ops b) = fst (log_run (queue_size b) ops l) \<and>
   agrees (snd (bus_run ops b)) (snd (log_run (queue_size b) ops l)) \<and>
   queue_size (snd (bus_run ops b)) = queue_size b"
proof (induction ops arbitrary: b l)
  case (Cons x ops)
  let ?b = "snd (bus_step x b)" and ?l = "snd (log_step (queue_size b) x l)"
  from agrees_step [OF Cons.prems] have s: "fst (bus_step x b) = fst (log_step (queue_size b) x l)"
    "agrees ?b ?l" by auto
  from Cons.IH [of ?b ?l] s(2) Cons.prems(1) show ?case
    by (simp add: s(1) split: prod.splits) (metis fst_conv s(1) queue_size_step snd_conv)
qed simp

lemma step_bounded:
  "0 < queue_size b \<Longrightarrow> \<forall>s\<in>set (subscribers b). int (length (snd s)) \<le> queue_size b \<Longrightarrow>
   \<forall>s\<in>set (subscribers (snd (bus_step x b))). int (length (snd s)) \<le> queue_size b"
proof (cases x)
  case (Publish e)
  assume "0 < queue_size b"
  then show ?thesis by (auto simp: Publish publish_def offer_eq)
next
  case (Take i)
  assume b: "\<forall>s\<in>set (subscribers b). int (length (snd s)) \<le> queue_size b"
  have "int (length q) \<le> queue_size b" if "map_of (subscribers b) i = Some (e # q)" for e q
    using b map_of_SomeD [OF that] by force
  with b show ?thesis by (auto simp: Take take_event_def split: option.splits list.splits)
qed (auto simp: subscribe_def unsubscribe_def)

lemma run_bounded:
  "0 < queue_size b \<Longrightarrow> \<forall>s\<in>set (subscribers b). int (length (snd s)) \<le> queue_size b \<Longrightarrow>
   \<forall>s\<in>set (subscribers (snd (bus_run ops b))). int (length (snd s)) \<le> queue_size b"
proof (induction ops arbitrary: b)
  case (Cons x ops)
  from Cons.IH [of "snd (bus_step x b)"] step_bounded [OF Cons.prems, of x] Cons.prems(1)
  show ?case by (simp split: prod.splits)
qed simp

section \<open>Properties\<close>

text \<open>C13: The bus implements a shared log: whatever subscribers come, go, read and stall, what each
  of them receives is what a reader of the one log of published events receives whose cursor
  is moved forward only when it falls more than the queue size behind.\<close>

theorem bus_refines_log:
  "0 < cap \<Longrightarrow> fst (bus_run ops (new_bus cap)) = fst (log_run cap ops new_log)"
  using agrees_run [of "new_bus cap" new_log ops]
  by (simp add: new_bus_def new_log_def agrees_def)

theorem bus_refines_log_witness:
  "fst (bus_run [Subscribe, Publish \<lparr>ev_type = ''a'', ev_data = [], ev_at = ''t''\<rparr>, Take 0, Take 0]
      (new_bus default_queue_size)) =
   [None, None, Some \<lparr>ev_type = ''a'', ev_data = [], ev_at = ''t''\<rparr>, None]"
  by (subst bus_refines_log) (simp_all add: default_queue_size_def new_log_def)

text \<open>A stalled subscriber costs a bounded amount of memory: no queue ever holds more than the
  queue size.\<close>

theorem queues_bounded:
  "0 < cap \<Longrightarrow> (i, q) \<in> set (subscribers (snd (bus_run ops (new_bus cap)))) \<Longrightarrow>
   int (length q) \<le> cap"
  using run_bounded [of "new_bus cap" ops] by (auto simp: new_bus_def)

theorem queues_bounded_witness:
  "int (length [\<lparr>ev_type = ''b'', ev_data = [], ev_at = ''t''\<rparr>]) \<le> 1"
  by (rule queues_bounded [of 1 0 _ "[Subscribe, Publish \<lparr>ev_type = ''a'', ev_data = [], ev_at = ''t''\<rparr>,
      Publish \<lparr>ev_type = ''b'', ev_data = [], ev_at = ''t''\<rparr>]"])
    (simp_all add: new_bus_def subscribe_def publish_def queue_full_def)

end
