(* ===== verification/Store.thy ===== *)
theory Store
  imports Events
begin

text \<open>
  The database as the services see it (\<open>app/models\<close>, \<open>app/database/session.py\<close>,
  \<open>app/repositories/base.py\<close>).  A table is the list of its rows in insertion order, an object
  the session hands out is its row, a query a search of the list.  Operations are functions on
  a \<open>world\<close> that may raise: the tables, the number of ids drawn so far and the event bus.
  \<open>env\<close> is what surrounds an operation: the time, the supply of \<open>uuid4\<close> texts, and whether
  the backend enforces the lengths of \<open>String(n)\<close> columns (PostgreSQL does, SQLite does not).
\<close>

section \<open>Rows\<close>

record user_row =
  usr_id :: string
  usr_email :: string
  usr_password_hash :: string
  usr_role :: string
  usr_active :: bool
  usr_created :: real

record key_row =
  key_id :: string
  key_user :: string
  key_name :: string
  key_hash :: string
  key_prefix_text :: string
  key_role :: string
  key_active :: bool
  key_last_used :: "real option"
  key_created :: real

record audit_row =
  aud_id :: string
  aud_action :: string
  aud_user :: "string option"
  aud_ip :: "string option"
  aud_detail :: "(string \<times> json) list"
  aud_created :: real

record ioc_row =
  ioc_id :: string
  ioc_kind :: string
  ioc_value :: string
  ioc_defanged :: string
  ioc_source :: string
  ioc_confidence :: string
  ioc_severity :: string
  ioc_state :: string
  ioc_score :: int
  ioc_level :: string
  ioc_sightings :: int
  ioc_tags :: "string list"
  ioc_references :: "string list"
  ioc_description :: "string option"
  ioc_first_seen :: "real option"
  ioc_last_seen :: "real option"
  ioc_updated :: real

record enrichment_row =
  enr_id :: string
  enr_ioc :: string
  enr_provider :: string
  enr_data :: "(string \<times> json) list"

record edge_row =
  edg_id :: string
  edg_source_ref :: string
  edg_target_ref :: string
  edg_relationship :: string
  edg_confidence :: real
  edg_source :: string

record rule_row =
  rul_id :: string
  rul_name :: string
  rul_metric :: string
  rul_operator :: string
  rul_threshold :: int
  rul_channel :: string
  rul_config :: "(string \<times> json) list"
  rul_active :: bool
  rul_created :: real

record alert_row =
  alr_id :: string
  alr_rule :: "string option"
  alr_ioc :: "string option"
  alr_severity :: string
  alr_title :: string
  alr_message :: "string option"
  alr_delivered :: bool
  alr_acknowledged :: bool
  alr_created :: real

record actor_row =
  act_id :: string
  act_name :: string
  act_kind :: string
  act_country :: "string option"
  act_aliases :: "string list"
  act_motivations :: "string list"
  act_techniques :: "string list"
  act_known_malware :: "string list"
  act_targets :: "string list"
  act_description :: "string option"
  act_created :: real

record db =
  users :: "user_row list"
  api_keys :: "key_row list"
  audits :: "audit_row list"
  iocs :: "ioc_row list"
  enrichments :: "enrichment_row list"
  edges :: "edge_row list"
  rules :: "rule_row list"
  alerts :: "alert_row list"
  actors :: "actor_row list"

definition empty_db :: db where
  "empty_db = \<lparr>users = [], api_keys = [], audits = [], iocs = [], enrichments = [], edges = [],
     rules = [], alerts = [], actors = []\<rparr>"

section \<open>Operations that may raise\<close>

record env =
  now_at :: real
  uuid_of :: "nat \<Rightarrow> string"
  strict_columns :: bool

record world =
  tables :: db
  drawn :: nat
  bus :: event_bus

type_synonym ('a, 'x) eff = "'x world_scheme \<Rightarrow> (exn + 'a) \<times> 'x world_scheme"

definition returnM :: "'a \<Rightarrow> ('a, 'x) eff" where
  "returnM a w = (Inr a, w)"

definition raiseM :: "exn \<Rightarrow> ('a, 'x) eff" where
  "raiseM e w = (Inl e, w)"

definition bindM :: "('a, 'x) eff \<Rightarrow> ('a \<Rightarrow> ('b, 'x) eff) \<Rightarrow> ('b, 'x) eff" where
  "bindM m f w = (case m w of (Inl e, w1) \<Rightarrow> (Inl e, w1) | (Inr a, w1) \<Rightarrow> f a w1)"

definition liftM :: "exn + 'a \<Rightarrow> ('a, 'x) eff" where
  "liftM r w = (r, w)"

text \<open>Reading the tables, and replacing them.\<close>

definition queryM :: "(db \<Rightarrow> 'a) \<Rightarrow> ('a, 'x) eff" where
  "queryM q w = (Inr (q (tables w)), w)"

definition changeM :: "(db \<Rightarrow> db) \<Rightarrow> (unit, 'x) eff" where
  "changeM f w = (Inr (), w\<lparr>tables := f (tables w)\<rparr>)"

text \<open>\<open>_uuid\<close>: a rolled-back transaction does not give its ids back.\<close>

definition fresh_id :: "env \<Rightarrow> (string, 'x) eff" where
  "fresh_id E w = (Inr (uuid_of E (drawn w)), w\<lparr>drawn := Suc (drawn w)\<rparr>)"

text \<open>
  \<open>get_session\<close>: commit on success, roll back on an exception.  \<open>begin_nested\<close> does the same to
  the enclosing transaction.  What was published meanwhile stays published.
\<close>

definition unit_of_work :: "('a, 'x) eff \<Rightarrow> ('a, 'x) eff" where
  "unit_of_work m w =
     (case m w of (Inl e, w1) \<Rightarrow> (Inl e, w1\<lparr>tables := tables w\<rparr>) | (Inr a, w1) \<Rightarrow> (Inr a, w1))"

definition savepoint :: "('a, 'x) eff \<Rightarrow> ('a, 'x) eff" where
  "savepoint m = unit_of_work m"

text \<open>\<open>except Exception\<close>: run the handler in the state the exception left.\<close>

definition catchM :: "('a, 'x) eff \<Rightarrow> (exn \<Rightarrow> ('a, 'x) eff) \<Rightarrow> ('a, 'x) eff" where
  "catchM m h w = (case m w of (Inl e, w1) \<Rightarrow> h e w1 | (Inr a, w1) \<Rightarrow> (Inr a, w1))"

section \<open>Queries and constraints\<close>

definition integrity_error :: exn where
  "integrity_error = PyExc IntegrityError ''UNIQUE constraint failed''"

definition data_error :: exn where
  "data_error = PyExc DataError ''value too long for type character varying''"

text \<open>The values that go into columns, each with the length of its column.\<close>

definition fits :: "env \<Rightarrow> (string \<times> nat) list \<Rightarrow> bool" where
  "fits E cols \<longleftrightarrow> strict_columns E \<longrightarrow> list_all (\<lambda>(s, n). length s \<le> n) cols"

text \<open>\<open>add\<close> and \<open>flush\<close>: the row is appended unless a length or a unique key forbids it.\<close>

definition insertM ::
  "env \<Rightarrow> (string \<times> nat) list \<Rightarrow> (db \<Rightarrow> bool) \<Rightarrow> (db \<Rightarrow> db) \<Rightarrow> (unit, 'x) eff" where
  "insertM E cols clash ins w =
     (if \<not> fits E cols then (Inl data_error, w)
      else if clash (tables w) then (Inl integrity_error, w)
      else (Inr (), w\<lparr>tables := ins (tables w)\<rparr>))"

text \<open>\<open>scalar_one_or_none\<close>.\<close>

definition one_or_none :: "'r list \<Rightarrow> exn + 'r option" where
  "one_or_none rs =
     (case rs of [] \<Rightarrow> Inr None | [r] \<Rightarrow> Inr (Some r)
      | _ \<Rightarrow> Inl (PyExc OtherError ''MultipleResultsFound''))"

definition select_one :: "(db \<Rightarrow> 'r list) \<Rightarrow> ('r option, 'x) eff" where
  "select_one q w = (one_or_none (q (tables w)), w)"

definition update_where :: "('r \<Rightarrow> bool) \<Rightarrow> ('r \<Rightarrow> 'r) \<Rightarrow> 'r list \<Rightarrow> 'r list" where
  "update_where p f rs = map (\<lambda>r. if p r then f r else r) rs"

definition paged :: "int \<Rightarrow> int \<Rightarrow> 'r list \<Rightarrow> 'r list" where
  "paged limit offset rs = take (nat limit) (drop (nat offset) rs)"

text \<open>\<open>AuditRepository.record\<close>.\<close>

definition record_audit ::
  "env \<Rightarrow> string \<Rightarrow> string option \<Rightarrow> string option \<Rightarrow> (string \<times> json) list \<Rightarrow> (unit, 'x) eff" where
  "record_audit E action user_id ip_address detail =
     bindM (fresh_id E) (\<lambda>i.
       insertM E ((action, 64) # (case ip_address of None \<Rightarrow> [] | Some a \<Rightarrow> [(a, 64)]))
         (\<lambda>d. i \<in> set (map aud_id (audits d)))
         (\<lambda>d. d\<lparr>audits := audits d @
            [\<lparr>aud_id = i, aud_action = action, aud_user = user_id, aud_ip = ip_address,
              aud_detail = detail, aud_created = now_at E\<rparr>]\<rparr>))"

section \<open>Evaluation rules\<close>

lemma monad_simps [simp]:
  "bindM (returnM a) f = f a"
  "bindM (raiseM e) f = raiseM e"
  "bindM (bindM m f) g = bindM m (\<lambda>a. bindM (f a) g)"
  by (auto simp: bindM_def returnM_def raiseM_def split: prod.splits sum.splits)

lemma bindM_eq: "m w = (r, w1) \<Longrightarrow>
  bindM m f w = (case r of Inl e \<Rightarrow> (Inl e, w1) | Inr a \<Rightarrow> f a w1)"
  by (simp add: bindM_def)

lemma bindM_Inr: "bindM m f w = (Inr b, w2) \<longleftrightarrow> (\<exists>a w1. m w = (Inr a, w1) \<and> f a w1 = (Inr b, w2))"
  by (auto simp: bindM_def split: prod.splits sum.splits)

text \<open>An operation chosen by a condition, run in a world.\<close>

lemma apply_world:
  "(if c then m else n) w = (if c then m w else n w)"
  "(case x of None \<Rightarrow> m | Some a \<Rightarrow> f a) w = (case x of None \<Rightarrow> m w | Some a \<Rightarrow> f a w)"
  by (simp_all split: option.splits)

lemmas run_simps = apply_world bindM_def returnM_def raiseM_def liftM_def queryM_def changeM_def
  fresh_id_def select_one_def

lemma unit_of_work_Inl: "unit_of_work m w = (Inl e, w') \<Longrightarrow> tables w' = tables w"
  by (auto simp: unit_of_work_def split: prod.splits sum.splits)

lemma one_or_none_distinct:
  "length rs \<le> 1 \<Longrightarrow> one_or_none rs = Inr (case rs of [] \<Rightarrow> None | r # _ \<Rightarrow> Some r)"
  by (cases rs rule: list.exhaust) (auto simp: one_or_none_def split: list.splits)

text \<open>A key occurring once is found by at most one row.\<close>

lemma filter_unique:
  "distinct (map k rs) \<Longrightarrow> length (filter (\<lambda>r. k r = v) rs) \<le> 1"
proof (induction rs)
  case (Cons r rs)
  then show ?case
  proof (cases "k r = v")
    case True
    with Cons.prems have "filter (\<lambda>r. k r = v) rs = []"
      by (auto simp: filter_empty_conv) (metis imageI)
    with True show ?thesis by simp
  qed simp
qed simp

lemma filter_unique_mem:
  assumes "distinct (map k rs)" "r \<in> set rs"
  shows "filter (\<lambda>x. k x = k r) rs = [r]"
  using assms
proof (induction rs)
  case (Cons x rs)
  show ?case
  proof (cases "x = r")
    case True
    with Cons.prems have "filter (\<lambda>x. k x = k r) rs = []"
      by (auto simp: filter_empty_conv) (metis imageI)
    with True show ?thesis by simp
  next
    case False
    with Cons.prems have "r \<in> set rs" by simp
    with Cons.prems have "k x \<noteq> k r" by (metis distinct.simps(2) image_eqI list.simps(9) set_map)
    with Cons show ?thesis using False by simp
  qed
qed simp

lemma update_where_keys [simp]:
  "(\<And>r. k (f r) = k r) \<Longrightarrow> map k (update_where p f rs) = map k rs"
  by (simp add: update_where_def)

lemma update_where_set: "r \<in> set (update_where p f rs) \<Longrightarrow> \<exists>s\<in>set rs. r = (if p s then f s else s)"
  by (auto simp: update_where_def)

section \<open>Invariants of the tables\<close>

text \<open>Whether it returns or raises, the operation keeps \<open>P\<close> of the tables.\<close>

definition preserves :: "(db \<Rightarrow> bool) \<Rightarrow> ('a, 'x) eff \<Rightarrow> bool" where
  "preserves P m \<longleftrightarrow> (\<forall>w. P (tables w) \<longrightarrow> P (tables (snd (m w))))"

lemma preserves_basic [inv_intros]:
  "preserves P (returnM a)" "preserves P (raiseM e)" "preserves P (liftM r)"
  "preserves P (queryM q)" "preserves P (select_one s)" "preserves P (fresh_id E)"
  by (simp_all add: preserves_def run_simps)

lemma preserves_bind [inv_intros]:
  "preserves P m \<Longrightarrow> (\<And>a. preserves P (f a)) \<Longrightarrow> preserves P (bindM m f)"
  unfolding preserves_def bindM_def
  by (auto split: prod.splits sum.splits)

lemma preserves_change [inv_intros]:
  "(\<And>d. P d \<Longrightarrow> P (f d)) \<Longrightarrow> preserves P (changeM f)"
  by (simp add: preserves_def changeM_def)

lemma preserves_insert [inv_intros]:
  "(\<And>d. P d \<Longrightarrow> \<not> clash d \<Longrightarrow> P (ins d)) \<Longrightarrow> preserves P (insertM E cols clash ins)"
  by (simp add: preserves_def insertM_def)

lemma preserves_unit_of_work [inv_intros]: "preserves P m \<Longrightarrow> preserves P (unit_of_work m)"
  unfolding preserves_def unit_of_work_def
  by (auto split: prod.splits sum.splits)

lemma preserves_savepoint [inv_intros]: "preserves P m \<Longrightarrow> preserves P (savepoint m)"
  unfolding savepoint_def by (rule preserves_unit_of_work)

lemma preserves_catch [inv_intros]:
  "preserves P m \<Longrightarrow> (\<And>e. preserves P (h e)) \<Longrightarrow> preserves P (catchM m h)"
  unfolding preserves_def catchM_def
  by (auto split: prod.splits sum.splits)

lemma preserves_if [inv_intros]:
  "(c \<Longrightarrow> preserves P m) \<Longrightarrow> (\<not> c \<Longrightarrow> preserves P n) \<Longrightarrow> preserves P (if c then m else n)"
  by simp

lemma preserves_option [inv_intros]:
  "preserves P m \<Longrightarrow> (\<And>a. preserves P (f a)) \<Longrightarrow>
   preserves P (case x of None \<Rightarrow> m | Some a \<Rightarrow> f a)"
  by (cases x) simp_all

lemma preservesD: "preserves P m \<Longrightarrow> m w = (r, w') \<Longrightarrow> P (tables w) \<Longrightarrow> P (tables w')"
  unfolding preserves_def by (metis snd_conv)

end
