(* ===== verification/Correlation.thy ===== *)
theory Correlation
  imports Store PyStr
begin

text \<open>
  The correlation graph: \<open>app/correlation/graph.py\<close>, \<open>app/services/correlation_service.py\<close> and the
  edge repository.  networkx is a parameter: a directed multigraph of some type \<open>'g\<close> with the
  operations the code calls.
\<close>

section \<open>References and edges\<close>

record graph_edge =
  ge_source_ref :: string
  ge_target_ref :: string
  ge_relationship :: string
  ge_confidence :: real
  ge_source :: string

definition make_ref :: "string \<Rightarrow> string \<Rightarrow> string" where
  "make_ref t v = t @ CHR '':'' # v"

definition parse_ref :: "string \<Rightarrow> string \<times> string" where
  "parse_ref r = (before CHR '':'' r, after CHR '':'' r)"

record edge_data =
  ed_relationship :: string
  ed_confidence :: real
  ed_source :: string

section \<open>The graph\<close>

text \<open>
  \<open>nx_lengths g r d\<close> are the nodes of \<open>single_source_shortest_path_length\<close> on the undirected view
  with cutoff \<open>d\<close>; \<open>nx_shortest_path\<close> is \<open>None\<close> for \<open>NetworkXNoPath\<close>.
\<close>

record 'g nx =
  nx_empty :: 'g
  nx_add_edge :: "string \<Rightarrow> string \<Rightarrow> string \<Rightarrow> edge_data \<Rightarrow> 'g \<Rightarrow> 'g"
  nx_nodes :: "'g \<Rightarrow> string list"
  nx_edges :: "'g \<Rightarrow> (string \<times> string \<times> edge_data) list"
  nx_out_edges :: "string \<Rightarrow> 'g \<Rightarrow> (string \<times> edge_data) list"
  nx_in_edges :: "string \<Rightarrow> 'g \<Rightarrow> (string \<times> edge_data) list"
  nx_lengths :: "'g \<Rightarrow> string \<Rightarrow> int \<Rightarrow> string list"
  nx_shortest_path :: "'g \<Rightarrow> string \<Rightarrow> string \<Rightarrow> string list option"
  nx_subgraph :: "string list \<Rightarrow> 'g \<Rightarrow> 'g"

definition data_of :: "graph_edge \<Rightarrow> edge_data" where
  "data_of e = \<lparr>ed_relationship = ge_relationship e, ed_confidence = ge_confidence e, ed_source = ge_source e\<rparr>"

definition add_edge :: "'g nx \<Rightarrow> graph_edge \<Rightarrow> 'g \<Rightarrow> 'g" where
  "add_edge N e g = nx_add_edge N (ge_source_ref e) (ge_target_ref e) (ge_relationship e) (data_of e) g"

definition threat_graph :: "'g nx \<Rightarrow> graph_edge list \<Rightarrow> 'g" where
  "threat_graph N es = fold (add_edge N) es (nx_empty N)"

definition node_count :: "'g nx \<Rightarrow> 'g \<Rightarrow> nat" where
  "node_count N g = length (nx_nodes N g)"

definition edge_count :: "'g nx \<Rightarrow> 'g \<Rightarrow> nat" where
  "edge_count N g = length (nx_edges N g)"

record neighbor =
  nb_ref :: string
  nb_direction :: string
  nb_data :: edge_data

definition graph_neighbors :: "'g nx \<Rightarrow> 'g \<Rightarrow> string \<Rightarrow> neighbor list" where
  "graph_neighbors N g r =
     (if r \<notin> set (nx_nodes N g) then []
      else map (\<lambda>(dst, d). \<lparr>nb_ref = dst, nb_direction = ''out'', nb_data = d\<rparr>) (nx_out_edges N r g) @
           map (\<lambda>(src, d). \<lparr>nb_ref = src, nb_direction = ''in'', nb_data = d\<rparr>) (nx_in_edges N r g))"

definition related_within :: "'g nx \<Rightarrow> 'g \<Rightarrow> string \<Rightarrow> int \<Rightarrow> string list" where
  "related_within N g r depth =
     (if r \<notin> set (nx_nodes N g) then [] else filter (\<lambda>n. n \<noteq> r) (nx_lengths N g r depth))"

definition attack_chain :: "'g nx \<Rightarrow> 'g \<Rightarrow> string \<Rightarrow> string \<Rightarrow> string list" where
  "attack_chain N g source target =
     (if source \<notin> set (nx_nodes N g) \<or> target \<notin> set (nx_nodes N g) then []
      else case nx_shortest_path N g source target of Some p \<Rightarrow> p | None \<Rightarrow> [])"

definition subgraph_refs :: "'g nx \<Rightarrow> 'g \<Rightarrow> string \<Rightarrow> int \<Rightarrow> string list" where
  "subgraph_refs N g r depth = List.insert r (related_within N g r depth)"

record graph_export =
  ex_nodes :: "(string \<times> string) list"
  ex_edges :: "(string \<times> string \<times> string \<times> real) list"

definition export_graph :: "'g nx \<Rightarrow> 'g \<Rightarrow> (string \<times> int) option \<Rightarrow> graph_export" where
  "export_graph N g0 pivot =
     (let g = (case pivot of None \<Rightarrow> g0 | Some (r, depth) \<Rightarrow> nx_subgraph N (subgraph_refs N g0 r depth) g0)
      in \<lparr>ex_nodes = map (\<lambda>n. (n, fst (parse_ref n))) (nx_nodes N g),
          ex_edges = map (\<lambda>(u, v, d). (u, v, ed_relationship d, ed_confidence d)) (nx_edges N g)\<rparr>)"

section \<open>The repository\<close>

definition edge_of_row :: "edge_row \<Rightarrow> graph_edge" where
  "edge_of_row e = \<lparr>ge_source_ref = edg_source_ref e, ge_target_ref = edg_target_ref e,
     ge_relationship = edg_relationship e, ge_confidence = edg_confidence e, ge_source = edg_source e\<rparr>"

definition edge_triple :: "edge_row \<Rightarrow> string \<times> string \<times> string" where
  "edge_triple e = (edg_source_ref e, edg_target_ref e, edg_relationship e)"

definition all_edges :: "db \<Rightarrow> graph_edge list" where
  "all_edges d = map edge_of_row (edges d)"

definition edges_touching :: "string \<Rightarrow> db \<Rightarrow> graph_edge list" where
  "edges_touching r d =
     map edge_of_row (filter (\<lambda>e. edg_source_ref e = r \<or> edg_target_ref e = r) (edges d))"

definition upsert_edge ::
  "env \<Rightarrow> string \<Rightarrow> string \<Rightarrow> string \<Rightarrow> real \<Rightarrow> string \<Rightarrow> (unit, 'x) eff" where
  "upsert_edge E src dst rel confidence source =
     bindM (select_one (\<lambda>d. filter (\<lambda>e. edge_triple e = (src, dst, rel)) (edges d))) (\<lambda>found.
     case found of
       None \<Rightarrow>
         bindM (fresh_id E) (\<lambda>i.
         insertM E [(src, 2100), (dst, 2100), (rel, 32), (source, 64)]
           (\<lambda>d. i \<in> set (map edg_id (edges d)) \<or> (src, dst, rel) \<in> set (map edge_triple (edges d)))
           (\<lambda>d. d\<lparr>edges := edges d @
              [\<lparr>edg_id = i, edg_source_ref = src, edg_target_ref = dst, edg_relationship = rel,
                edg_confidence = confidence, edg_source = source\<rparr>]\<rparr>))
     | Some e \<Rightarrow>
         changeM (\<lambda>d. d\<lparr>edges := update_where (\<lambda>x. edg_id x = edg_id e)
           (\<lambda>x. x\<lparr>edg_confidence := confidence\<rparr>) (edges d)\<rparr>))"

section \<open>The service\<close>

definition add_relationship ::
  "env \<Rightarrow> string \<Rightarrow> string \<Rightarrow> string \<Rightarrow> real \<Rightarrow> string option \<Rightarrow> (unit, 'x) eff" where
  "add_relationship E src dst rel confidence user_id =
     bindM (upsert_edge E src dst rel confidence ''manual'') (\<lambda>_.
     record_audit E ''correlation.add'' user_id None
       [(''src'', JStr src), (''dst'', JStr dst), (''rel'', JStr rel)])"

definition service_neighbors :: "'g nx \<Rightarrow> string \<Rightarrow> db \<Rightarrow> neighbor list" where
  "service_neighbors N r d = graph_neighbors N (threat_graph N (edges_touching r d)) r"

definition service_pivot :: "'g nx \<Rightarrow> string \<Rightarrow> string \<Rightarrow> int \<Rightarrow> db \<Rightarrow> graph_export" where
  "service_pivot N t v depth d = export_graph N (threat_graph N (all_edges d)) (Some (make_ref t v, depth))"

definition service_attack_chain :: "'g nx \<Rightarrow> string \<Rightarrow> string \<Rightarrow> db \<Rightarrow> string list" where
  "service_attack_chain N source target d = attack_chain N (threat_graph N (all_edges d)) source target"

definition service_full_graph :: "'g nx \<Rightarrow> db \<Rightarrow> graph_export" where
  "service_full_graph N d = export_graph N (threat_graph N (all_edges d)) None"

section \<open>Lemmas\<close>

lemma parse_make_ref: "CHR '':'' \<notin> set t \<Longrightarrow> parse_ref (make_ref t v) = (t, v)"
  by (simp add: parse_ref_def make_ref_def before_append after_append)

text \<open>The unique key of the edge table.\<close>

definition edges_ok :: "db \<Rightarrow> bool" where
  "edges_ok d \<longleftrightarrow> distinct (map edge_triple (edges d))"

lemma edges_ok_audits [simp]: "edges_ok (d\<lparr>audits := x\<rparr>) = edges_ok d"
  by (simp add: edges_ok_def)

lemma preserves_upsert_edge [inv_intros]: "preserves edges_ok (upsert_edge E s t r c src)"
  unfolding upsert_edge_def
  by (intro inv_intros) (auto simp: edges_ok_def edge_triple_def)

text \<open>
  What the code relies on in networkx: a graph built from edges with different keys has their end
  points as nodes, and lists each of them at its two ends.
\<close>

definition nx_sound :: "'g nx \<Rightarrow> bool" where
  "nx_sound N \<longleftrightarrow>
     (\<forall>es r. distinct (map (\<lambda>e. (ge_source_ref e, ge_target_ref e, ge_relationship e)) es) \<longrightarrow>
        set (nx_nodes N (threat_graph N es)) = ge_source_ref ` set es \<union> ge_target_ref ` set es \<and>
        set (nx_out_edges N r (threat_graph N es)) =
          (\<lambda>e. (ge_target_ref e, data_of e)) ` {e \<in> set es. ge_source_ref e = r} \<and>
        set (nx_in_edges N r (threat_graph N es)) =
          (\<lambda>e. (ge_source_ref e, data_of e)) ` {e \<in> set es. ge_target_ref e = r})"

text \<open>A library with that behaviour: the graph is the list of its edges.\<close>

definition list_nx :: "(string \<times> string \<times> edge_data) list nx" where
  "list_nx = \<lparr>
     nx_empty = [],
     nx_add_edge = (\<lambda>u v k d g. g @ [(u, v, d)]),
     nx_nodes = (\<lambda>g. remdups (concat (map (\<lambda>(u, v, d). [u, v]) g))),
     nx_edges = (\<lambda>g. g),
     nx_out_edges = (\<lambda>r g. map (\<lambda>(u, v, d). (v, d)) (filter (\<lambda>(u, v, d). u = r) g)),
     nx_in_edges = (\<lambda>r g. map (\<lambda>(u, v, d). (u, d)) (filter (\<lambda>(u, v, d). v = r) g)),
     nx_lengths = (\<lambda>g r d. [r]),
     nx_shortest_path = (\<lambda>g u v. None),
     nx_subgraph = (\<lambda>rs g. filter (\<lambda>(u, v, d). u \<in> set rs \<and> v \<in> set rs) g)\<rparr>"

lemma list_nx_graph:
  "threat_graph list_nx es = map (\<lambda>e. (ge_source_ref e, ge_target_ref e, data_of e)) es"
proof -
  have "fold (add_edge list_nx) es g = g @ map (\<lambda>e. (ge_source_ref e, ge_target_ref e, data_of e)) es" for g
    by (induction es arbitrary: g) (simp_all add: add_edge_def list_nx_def)
  then show ?thesis by (simp add: threat_graph_def list_nx_def)
qed

lemma list_nx_sound: "nx_sound list_nx"
  unfolding nx_sound_def list_nx_graph by (auto simp: list_nx_def image_iff split: prod.splits)

lemma neighbors_set:
  assumes N: "nx_sound N"
    and d: "distinct (map (\<lambda>e. (ge_source_ref e, ge_target_ref e, ge_relationship e)) es)"
  shows "set (graph_neighbors N (threat_graph N es) r) =
    (\<lambda>e. \<lparr>nb_ref = ge_target_ref e, nb_direction = ''out'', nb_data = data_of e\<rparr>) `
      {e \<in> set es. ge_source_ref e = r} \<union>
    (\<lambda>e. \<lparr>nb_ref = ge_source_ref e, nb_direction = ''in'', nb_data = data_of e\<rparr>) `
      {e \<in> set es. ge_target_ref e = r}"
proof -
  from N d have s: "set (nx_nodes N (threat_graph N es)) = ge_source_ref ` set es \<union> ge_target_ref ` set es"
    "set (nx_out_edges N r (threat_graph N es)) =
       (\<lambda>e. (ge_target_ref e, data_of e)) ` {e \<in> set es. ge_source_ref e = r}"
    "set (nx_in_edges N r (threat_graph N es)) =
       (\<lambda>e. (ge_source_ref e, data_of e)) ` {e \<in> set es. ge_target_ref e = r}"
    by (simp_all add: nx_sound_def)
  show ?thesis unfolding graph_neighbors_def by (auto simp: s image_iff)
qed

lemma distinct_edges:
  "edges_ok d \<Longrightarrow> distinct (map (\<lambda>e. (ge_source_ref e, ge_target_ref e, ge_relationship e))
     (map edge_of_row (filter P (edges d))))"
proof -
  assume "edges_ok d"
  then have "distinct (map edge_triple (filter P (edges d)))"
    by (simp add: edges_ok_def distinct_map_filter)
  then show ?thesis by (simp add: edge_of_row_def edge_triple_def [abs_def] comp_def)
qed

section \<open>Properties\<close>

text \<open>Pivoting on one reference needs only its own edges: the neighbours computed from the rows
  that touch the reference are those in the graph of the whole table, so the query the service
  runs instead of loading every edge loses nothing.\<close>

theorem neighbors_local:
  "nx_sound N \<Longrightarrow> edges_ok d \<Longrightarrow>
   set (service_neighbors N r d) = set (graph_neighbors N (threat_graph N (all_edges d)) r)"
proof -
  assume N: "nx_sound N" and d: "edges_ok d"
  have t: "distinct (map (\<lambda>e. (ge_source_ref e, ge_target_ref e, ge_relationship e)) (edges_touching r d))"
    "distinct (map (\<lambda>e. (ge_source_ref e, ge_target_ref e, ge_relationship e)) (all_edges d))"
    using distinct_edges [OF d] distinct_edges [OF d, of "\<lambda>_. True"]
    by (simp_all add: edges_touching_def all_edges_def)
  show ?thesis
    unfolding service_neighbors_def neighbors_set [OF N t(1)] neighbors_set [OF N t(2)]
    by (auto simp: edges_touching_def all_edges_def edge_of_row_def)
qed

theorem neighbors_local_witness:
  "let d = empty_db\<lparr>edges :=
     [\<lparr>edg_id = ''1'', edg_source_ref = ''a'', edg_target_ref = ''b'', edg_relationship = ''uses'',
       edg_confidence = 1, edg_source = ''manual''\<rparr>,
      \<lparr>edg_id = ''2'', edg_source_ref = ''b'', edg_target_ref = ''c'', edg_relationship = ''uses'',
       edg_confidence = 1, edg_source = ''manual''\<rparr>]\<rparr>
   in set (service_neighbors list_nx ''c'' d) =
      set (graph_neighbors list_nx (threat_graph list_nx (all_edges d)) ''c'')"
  unfolding Let_def by (rule neighbors_local [OF list_nx_sound]) (simp add: edges_ok_def edge_triple_def)

end
