(* ===== verification/Alerts.thy ===== *)
theory Alerts
  imports Store Ssrf
begin

text \<open>
  Alert rules, their evaluation against an indicator, delivery and live publication:
  \<open>app/services/alert_service.py\<close>.  The HTTP client behind webhooks is a parameter.
\<close>

section \<open>Rules and delivery\<close>

text \<open>\<open>ale_post url title message\<close> is the POST; \<open>ale_iso\<close> the ISO text of the time.\<close>

record alert_env =
  ale_env :: env
  ale_live :: bool
  ale_allowed :: "string list"
  ale_resolver :: resolver
  ale_post :: "string \<Rightarrow> string \<Rightarrow> string \<Rightarrow> exn + unit"
  ale_iso :: string

definition active_rules :: "db \<Rightarrow> rule_row list" where
  "active_rules d = filter rul_active (rules d)"

definition rule_matches :: "rule_row \<Rightarrow> ioc_row \<Rightarrow> bool" where
  "rule_matches r ioc =
     (if rul_metric r = ''new_ioc'' then True
      else if rul_metric r \<noteq> ''threat_score'' then False
      else if rul_operator r = ''gte'' then rul_threshold r \<le> ioc_score ioc
      else if rul_operator r = ''lte'' then ioc_score ioc \<le> rul_threshold r
      else ioc_score ioc = rul_threshold r)"

definition webhook_channels :: "string list" where
  "webhook_channels = [''webhook'', ''slack'', ''discord'']"

text \<open>What is posted where, if anything, and the new value of \<open>delivered\<close>.\<close>

definition deliver :: "alert_env \<Rightarrow> rule_row \<Rightarrow> alert_row \<Rightarrow> string option \<times> bool" where
  "deliver AE r a =
     (if rul_channel r = ''log'' then (None, True)
      else if rul_channel r \<in> set webhook_channels
      then (case jget ''url'' (rul_config r) of
              None \<Rightarrow> (None, False)
            | Some v \<Rightarrow>
                if \<not> truthy v \<or> \<not> ale_live AE then (None, False)
                else (case v of
                    JStr url \<Rightarrow>
                      (case validate (ale_resolver AE) (ssrf_guard (ale_allowed AE)) url of
                         Inl _ \<Rightarrow> (None, False)
                       | Inr _ \<Rightarrow> (Some url,
                           (case ale_post AE url (alr_title a) (the (alr_message a)) of
                              Inr _ \<Rightarrow> True | Inl _ \<Rightarrow> False)))
                  | _ \<Rightarrow> (None, False)))
      else (None, alr_delivered a))"

definition alert_title :: "rule_row \<Rightarrow> ioc_row \<Rightarrow> string" where
  "alert_title r ioc = rul_name r @ '': '' @ ioc_defanged ioc"

definition alert_message :: "ioc_row \<Rightarrow> string" where
  "alert_message ioc =
     ''IOC '' @ ioc_defanged ioc @ '' ('' @ ioc_kind ioc @ '') scored '' @ show_int (ioc_score ioc) @
     '' ['' @ ioc_level ioc @ ''] from source '' @ ioc_source ioc @ ''.''"

definition alert_event :: "alert_env \<Rightarrow> ioc_row \<Rightarrow> alert_row \<Rightarrow> event" where
  "alert_event AE ioc a =
     \<lparr>ev_type = ''alert'',
      ev_data = [(''id'', JStr (alr_id a)), (''title'', JStr (alr_title a)),
        (''message'', JStr (the (alr_message a))), (''severity'', JStr (alr_severity a)),
        (''ioc'', JStr (ioc_defanged ioc)), (''ioc_type'', JStr (ioc_kind ioc)),
        (''threat_score'', JInt (ioc_score ioc)), (''threat_level'', JStr (ioc_level ioc))],
      ev_at = ale_iso AE\<rparr>"

definition publishM :: "event \<Rightarrow> (unit, 'x) eff" where
  "publishM e w = (Inr (), w\<lparr>bus := publish e (bus w)\<rparr>)"

section \<open>Evaluation\<close>

text \<open>One match: store the alert, deliver it, note the outcome, publish.\<close>

definition raise_alert :: "alert_env \<Rightarrow> ioc_row \<Rightarrow> rule_row \<Rightarrow> (alert_row, 'x) eff" where
  "raise_alert AE ioc r =
     (let E = ale_env AE in
      bindM (fresh_id E) (\<lambda>i.
      let a = \<lparr>alr_id = i, alr_rule = Some (rul_id r), alr_ioc = Some (ioc_id ioc),
               alr_severity = ioc_severity ioc, alr_title = alert_title r ioc,
               alr_message = Some (alert_message ioc), alr_delivered = False,
               alr_acknowledged = False, alr_created = now_at E\<rparr> in
      bindM (insertM E [(alr_severity a, 16), (alr_title a, 256)]
        (\<lambda>d. i \<in> set (map alr_id (alerts d))) (\<lambda>d. d\<lparr>alerts := alerts d @ [a]\<rparr>)) (\<lambda>_.
      let b = a\<lparr>alr_delivered := snd (deliver AE r a)\<rparr> in
      bindM (changeM (\<lambda>d. d\<lparr>alerts := update_where (\<lambda>x. alr_id x = i) (\<lambda>_. b) (alerts d)\<rparr>)) (\<lambda>_.
      bindM (publishM (alert_event AE ioc b)) (\<lambda>_.
      returnM b)))))"

fun evaluate_rules :: "alert_env \<Rightarrow> ioc_row \<Rightarrow> rule_row list \<Rightarrow> (alert_row list, 'x) eff" where
  "evaluate_rules AE ioc [] = returnM []"
| "evaluate_rules AE ioc (r # rs) =
     (if \<not> rule_matches r ioc then evaluate_rules AE ioc rs
      else bindM (raise_alert AE ioc r) (\<lambda>a.
           bindM (evaluate_rules AE ioc rs) (\<lambda>created. returnM (a # created))))"

definition evaluate_ioc :: "alert_env \<Rightarrow> ioc_row \<Rightarrow> (alert_row list, 'x) eff" where
  "evaluate_ioc AE ioc = bindM (queryM active_rules) (evaluate_rules AE ioc)"

section \<open>Management\<close>

definition create_rule ::
  "env \<Rightarrow> string \<Rightarrow> string \<Rightarrow> string \<Rightarrow> int \<Rightarrow> string \<Rightarrow> (string \<times> json) list option \<Rightarrow> (rule_row, 'x) eff" where
  "create_rule E name metric operator threshold channel channel_config =
     bindM (fresh_id E) (\<lambda>i.
     let r = \<lparr>rul_id = i, rul_name = name, rul_metric = metric, rul_operator = operator,
              rul_threshold = threshold, rul_channel = channel,
              rul_config = (case channel_config of Some c \<Rightarrow> c | None \<Rightarrow> []), rul_active = True,
              rul_created = now_at E\<rparr> in
     bindM (insertM E [(name, 128), (metric, 32), (operator, 4), (channel, 16)]
       (\<lambda>d. i \<in> set (map rul_id (rules d))) (\<lambda>d. d\<lparr>rules := rules d @ [r]\<rparr>)) (\<lambda>_.
     returnM r))"

definition list_rules :: "(rule_row list, 'x) eff" where
  "list_rules = queryM (\<lambda>d. sort_key rul_created (rules d))"

text \<open>The foreign key of an alert is set to null where the backend enforces it.\<close>

definition delete_rule :: "env \<Rightarrow> string \<Rightarrow> (bool, 'x) eff" where
  "delete_rule E i =
     bindM (queryM (\<lambda>d. find (\<lambda>r. rul_id r = i) (rules d))) (\<lambda>found.
     case found of
       None \<Rightarrow> returnM False
     | Some r \<Rightarrow>
         bindM (changeM (\<lambda>d. d\<lparr>rules := filter (\<lambda>r. rul_id r \<noteq> i) (rules d),
           alerts := (if strict_columns E
             then update_where (\<lambda>a. alr_rule a = Some i) (\<lambda>a. a\<lparr>alr_rule := None\<rparr>) (alerts d)
             else alerts d)\<rparr>)) (\<lambda>_. returnM True))"

definition list_alerts :: "int \<Rightarrow> int \<Rightarrow> (alert_row list, 'x) eff" where
  "list_alerts limit offset = queryM (\<lambda>d. paged limit offset (sort_key (\<lambda>a. - alr_created a) (alerts d)))"

section \<open>Lemmas\<close>

lemma raise_alert_run:
  assumes "raise_alert AE ioc r w = (Inr a, w')"
  shows "alr_rule a = Some (rul_id r) \<and> alr_ioc a = Some (ioc_id ioc) \<and> alr_title a = alert_title r ioc \<and>
    alr_delivered a = snd (deliver AE r (a\<lparr>alr_delivered := False\<rparr>)) \<and>
    tables w' = (tables w)\<lparr>alerts := alerts (tables w) @ [a]\<rparr> \<and>
    bus w' = publish (alert_event AE ioc a) (bus w)"
proof -
  let ?i = "uuid_of (ale_env AE) (drawn w)"
  have n: "?i \<notin> set (map alr_id (alerts (tables w)))"
    using assms by (auto simp: raise_alert_def run_simps Let_def insertM_def split: if_splits)
  then have u: "update_where (\<lambda>x. alr_id x = ?i) f (alerts (tables w)) = alerts (tables w)" for f
    by (auto simp: update_where_def intro!: map_idI) (metis imageI)
  have "update_where (\<lambda>x. alr_id x = ?i) f (alerts (tables w) @ [x]) =
      alerts (tables w) @ (if alr_id x = ?i then [f x] else [x])" for f x
    using u [of f] by (simp add: update_where_def)
  with assms show ?thesis
    by (auto simp: raise_alert_def run_simps Let_def insertM_def publishM_def split: if_splits)
qed

lemma evaluate_rules_run:
  "evaluate_rules AE ioc rs w = (Inr as, w') \<Longrightarrow>
   map (\<lambda>a. (alr_rule a, alr_ioc a, alr_title a)) as =
     map (\<lambda>r. (Some (rul_id r), Some (ioc_id ioc), alert_title r ioc)) (filter (\<lambda>r. rule_matches r ioc) rs) \<and>
   tables w' = (tables w)\<lparr>alerts := alerts (tables w) @ as\<rparr> \<and>
   bus w' = fold (\<lambda>a. publish (alert_event AE ioc a)) as (bus w)"
proof (induction rs arbitrary: as w)
  case Nil
  then show ?case by (auto simp: returnM_def)
next
  case (Cons r rs)
  show ?case
  proof (cases "rule_matches r ioc")
    case False
    with Cons show ?thesis by simp
  next
    case True
    with Cons.prems obtain a w1 created where
      a: "raise_alert AE ioc r w = (Inr a, w1)" and
      c: "evaluate_rules AE ioc rs w1 = (Inr created, w')" and as: "as = a # created"
      by (auto simp: bindM_Inr returnM_def)
    from raise_alert_run [OF a] Cons.IH [OF c] True show ?thesis by (simp add: as)
  qed
qed

lemma preserves_raise_alert:
  "(\<And>d x. P (d\<lparr>alerts := x\<rparr>) = P d) \<Longrightarrow> preserves P (raise_alert AE ioc r)"
  unfolding raise_alert_def Let_def
  by (intro inv_intros) (simp_all add: preserves_def publishM_def)

lemma preserves_evaluate:
  "(\<And>d x. P (d\<lparr>alerts := x\<rparr>) = P d) \<Longrightarrow> preserves P (evaluate_ioc AE ioc)"
proof -
  assume p: "\<And>d x. P (d\<lparr>alerts := x\<rparr>) = P d"
  have "preserves P (evaluate_rules AE ioc rs)" for rs
    by (induction rs) (auto intro!: inv_intros preserves_raise_alert simp: p)
  then show ?thesis unfolding evaluate_ioc_def by (intro inv_intros)
qed

text \<open>
  A title joins the rule's name and the defanged indicator, up to 2222 characters, in a column of
  256: where the backend enforces that, the alert of a long indicator raises, and with it the
  request that stored the indicator.
\<close>

lemma long_title_raises:
  "strict_columns (ale_env AE) \<Longrightarrow> 256 < length (alert_title r ioc) \<Longrightarrow>
   fst (raise_alert AE ioc r w) = Inl data_error"
  by (simp add: raise_alert_def Let_def run_simps insertM_def fits_def)

text \<open>
  Publication is not part of the transaction: when something later in it fails, the alert is
  gone and its subscribers have it.
\<close>

lemma alerts_outlive_rollback:
  assumes "raise_alert AE ioc r w = (Inr a, w1)"
  shows "\<exists>w'. savepoint (bindM (raise_alert AE ioc r) (\<lambda>_. raiseM e)) w = (Inl e, w') \<and>
    tables w' = tables w \<and> bus w' = publish (alert_event AE ioc a) (bus w)"
  using raise_alert_run [OF assms]
  by (simp add: savepoint_def unit_of_work_def bindM_def assms raiseM_def)

section \<open>A rule and an indicator\<close>

definition demo_alert_env :: alert_env where
  "demo_alert_env = \<lparr>ale_env = \<lparr>now_at = 9, uuid_of = (\<lambda>n. replicate n CHR ''x''), strict_columns = True\<rparr>,
     ale_live = True, ale_allowed = [], ale_resolver = (\<lambda>h p. Addresses [''8.8.8.8'']),
     ale_post = (\<lambda>u t m. Inr ()), ale_iso = ''now''\<rparr>"

definition demo_rule :: rule_row where
  "demo_rule = \<lparr>rul_id = ''r1'', rul_name = ''hot'', rul_metric = ''threat_score'', rul_operator = ''gte'',
     rul_threshold = 50, rul_channel = ''webhook'', rul_config = [(''url'', JStr ''https://8.8.8.8/h'')],
     rul_active = True, rul_created = 0\<rparr>"

definition demo_ioc :: ioc_row where
  "demo_ioc = \<lparr>ioc_id = ''i1'', ioc_kind = ''domain-name'', ioc_value = ''a.org'', ioc_defanged = ''a[.]org'',
     ioc_source = ''manual'', ioc_confidence = ''high'', ioc_severity = ''high'', ioc_state = ''active'',
     ioc_score = 70, ioc_level = ''high'', ioc_sightings = 1, ioc_tags = [], ioc_references = [],
     ioc_description = None, ioc_first_seen = None, ioc_last_seen = None, ioc_updated = 0\<rparr>"

section \<open>Properties\<close>

text \<open>C34: Evaluation is exact: when it returns, it has stored exactly one alert per active rule that
  matches, in the order of the rules, each for the indicator and named after its rule, has
  published each of them in that order, and has changed no other table.\<close>

theorem evaluation_exact:
  "evaluate_ioc AE ioc w = (Inr as, w') \<Longrightarrow>
   map (\<lambda>a. (alr_rule a, alr_ioc a, alr_title a)) as =
     map (\<lambda>r. (Some (rul_id r), Some (ioc_id ioc), alert_title r ioc))
       (filter (\<lambda>r. rul_active r \<and> rule_matches r ioc) (rules (tables w))) \<and>
   tables w' = (tables w)\<lparr>alerts := alerts (tables w) @ as\<rparr> \<and>
   bus w' = fold (\<lambda>a. publish (alert_event AE ioc a)) as (bus w)"
  using evaluate_rules_run [of AE ioc "active_rules (tables w)" w as w']
  by (simp add: evaluate_ioc_def bindM_def queryM_def active_rules_def conj_commute)

theorem evaluation_exact_witness:
  "\<exists>as w'. evaluate_ioc demo_alert_env demo_ioc
      \<lparr>tables = empty_db\<lparr>rules := [demo_rule, demo_rule\<lparr>rul_threshold := 90\<rparr>]\<rparr>, drawn = 0, bus = new_bus 1\<rparr> =
        (Inr as, w') \<and> map alr_title as = [''hot: a[.]org'']"
proof -
  let ?w = "\<lparr>tables = empty_db\<lparr>rules := [demo_rule, demo_rule\<lparr>rul_threshold := 90\<rparr>]\<rparr>, drawn = 0, bus = new_bus 1\<rparr>"
  obtain as w' where e: "evaluate_ioc demo_alert_env demo_ioc ?w = (Inr as, w')"
    by (simp add: evaluate_ioc_def active_rules_def demo_rule_def rule_matches_def demo_ioc_def raise_alert_def
        run_simps Let_def insertM_def fits_def demo_alert_env_def empty_db_def publishM_def alert_title_def)
  from evaluation_exact [OF e, THEN conjunct1]
  have "map (\<lambda>a. (alr_rule a, alr_ioc a, alr_title a)) as = [(Some ''r1'', Some ''i1'', ''hot: a[.]org'')]"
    by (simp add: demo_rule_def rule_matches_def demo_ioc_def alert_title_def)
  then have "map alr_title as = [''hot: a[.]org'']" by auto
  with e show ?thesis by (intro exI conjI)
qed

text \<open>C35: Nothing is posted unguarded: an outbound request is made only for a webhook channel, with
  live collection on, to the configured URL, after the guard has admitted that URL.\<close>

theorem webhooks_guarded:
  "fst (deliver AE r a) = Some url \<Longrightarrow>
   rul_channel r \<in> set webhook_channels \<and> ale_live AE \<and> jget ''url'' (rul_config r) = Some (JStr url) \<and>
   (\<exists>t. validate (ale_resolver AE) (ssrf_guard (ale_allowed AE)) url = Inr t)"
  by (auto simp: deliver_def split: if_splits option.splits json.splits sum.splits)


theorem webhooks_guarded_witness:
  "\<exists>t. validate (ale_resolver demo_alert_env) (ssrf_guard (ale_allowed demo_alert_env)) ''https://8.8.8.8/h'' = Inr t"
proof -
  have "validate (\<lambda>h p. Addresses [''8.8.8.8'']) (ssrf_guard []) ''https://8.8.8.8/h'' =
      Inr \<lparr>st_url = ''https://8.8.8.8/h'', st_host = ''8.8.8.8'', st_port = 443, resolved_ips = [''8.8.8.8'']\<rparr>"
    by code_simp
  then have "fst (deliver demo_alert_env demo_rule
      \<lparr>alr_id = ''a'', alr_rule = None, alr_ioc = None, alr_severity = ''high'', alr_title = ''t'',
       alr_message = Some ''m'', alr_delivered = False, alr_acknowledged = False, alr_created = 0\<rparr>) =
      Some ''https://8.8.8.8/h''"
    by (simp add: deliver_def demo_rule_def demo_alert_env_def webhook_channels_def jget_def)
  from webhooks_guarded [OF this] show ?thesis by blast
qed

end
