(* ===== verification/Extract.thy ===== *)
theory Extract
  imports Indicators
begin

text \<open>
  Harvesting indicators out of documents: \<open>app/ioc/extract.py\<close>.  The rows that the
  \<open>csv\<close> module reads (the dialect its \<open>Sniffer\<close> guesses included), the value that
  \<open>json.loads\<close> returns, and \<open>str\<close> of a value that is not a string are parameters.
\<close>

section \<open>The scanning patterns\<close>

definition lit_str :: "string \<Rightarrow> re" where
  "lit_str s = seqs (map lit s)"

definition lit_str_ci :: "string \<Rightarrow> re" where
  "lit_str_ci s = seqs (map lit_ci s)"

definition is_url_char :: "char \<Rightarrow> bool" where
  "is_url_char c \<longleftrightarrow> \<not> is_space c \<and> c \<notin> set ''<>'])},'' \<and> c \<noteq> CHR 0x22"

definition opt :: "re \<Rightarrow> re" where
  "opt r = Rep 0 (Some 1) r"

definition url_scan_re :: re where
  "url_scan_re = seqs [WordB,
     Alt (Seq (lit_str_ci ''http'') (opt (lit_ci CHR ''s''))) (lit_str_ci ''ftp''),
     lit_str ''://'', Rep 1 None (Cls is_url_char)]"

definition email_scan_re :: re where
  "email_scan_re = seqs [WordB, Rep 1 None (Cls is_local_char), lit CHR ''@'',
     Rep 1 None (Cls is_mail_host_char), lit CHR ''.'', Rep 2 None (Cls is_letter), WordB]"

definition ipv4_scan_re :: re where
  "ipv4_scan_re = seqs [WordB,
     Rep 3 (Some 3) (Seq (Rep 1 (Some 3) (Cls is_digit)) (lit CHR ''.'')),
     Rep 1 (Some 3) (Cls is_digit), WordB]"

definition ipv6_scan_re :: re where
  "ipv6_scan_re = seqs [WordB,
     Rep 2 (Some 7) (Seq (Rep 1 (Some 4) (Cls is_hex)) (lit CHR '':'')),
     Rep 1 (Some 4) (Cls is_hex), WordB]"

definition hash_word :: "nat \<Rightarrow> re" where
  "hash_word n = seqs [WordB, Rep n (Some n) (Cls is_hex), WordB]"

definition hash_scan_re :: re where
  "hash_scan_re = Alt (hash_word 64) (Alt (hash_word 40) (hash_word 32))"

definition cve_scan_re :: re where
  "cve_scan_re = seqs [WordB, lit_str_ci ''CVE-'', Rep 4 (Some 4) (Cls is_digit), lit CHR ''-'',
     Rep 4 (Some 7) (Cls is_digit), WordB]"

definition technique_scan_re :: re where
  "technique_scan_re = seqs [WordB, lit CHR ''T'', Rep 4 (Some 4) (Cls is_digit),
     opt (Seq (lit CHR ''.'') (Rep 3 (Some 3) (Cls is_digit))), WordB]"

definition domain_scan_re :: re where
  "domain_scan_re = seqs [WordB,
     Rep 1 None (seqs [Cls is_alnum,
       opt (Seq (Rep 0 (Some 61) (Cls is_label_char)) (Cls is_alnum)), lit CHR ''.'']),
     Rep 2 (Some 24) (Cls is_letter), WordB]"

text \<open>The patterns in scanning order; the flag marks the domain pattern.\<close>

definition scan_patterns :: "(re \<times> bool) list" where
  "scan_patterns =
     [(url_scan_re, False), (email_scan_re, False), (hash_scan_re, False), (cve_scan_re, False),
      (technique_scan_re, False), (ipv6_scan_re, False), (ipv4_scan_re, False),
      (domain_scan_re, True)]"

definition file_suffixes :: "string list" where
  "file_suffixes =
     [''exe'', ''dll'', ''sys'', ''so'', ''dylib'', ''bin'', ''msi'', ''jar'', ''class'', ''scr'',
      ''lnk'', ''js'', ''ts'', ''py'', ''rb'', ''pl'', ''ps1'', ''sh'', ''bat'', ''cmd'', ''vbs'',
      ''php'', ''asp'', ''aspx'', ''jsp'', ''doc'', ''docx'', ''xls'', ''xlsx'', ''ppt'', ''pptx'',
      ''pdf'', ''rtf'', ''txt'', ''md'', ''csv'', ''json'', ''xml'', ''yaml'', ''yml'', ''html'',
      ''htm'', ''log'', ''dat'', ''ini'', ''cfg'', ''conf'', ''tmp'', ''zip'', ''rar'', ''gz'',
      ''tar'', ''7z'', ''iso'', ''cab'', ''png'', ''jpg'', ''jpeg'', ''gif'', ''svg'', ''ico'',
      ''mp4'', ''avi'']"

definition plausible_domain :: "string \<Rightarrow> bool" where
  "plausible_domain candidate \<longleftrightarrow>
     py_lower (after_last CHR ''.'' candidate) \<notin> set file_suffixes"

section \<open>Candidates\<close>

text \<open>\<open>text[i:j]\<close>, and the text with each span replaced by a space.\<close>

definition slice :: "string \<Rightarrow> nat \<Rightarrow> nat \<Rightarrow> string" where
  "slice s i j = take (j - i) (drop i s)"

fun blank_out :: "string \<Rightarrow> nat \<Rightarrow> (nat \<times> nat) list \<Rightarrow> string" where
  "blank_out s cur [] = drop cur s"
| "blank_out s cur ((i, j) # ms) = slice s cur i @ '' '' @ blank_out s j ms"

definition candidate_value :: "string \<Rightarrow> nat \<times> nat \<Rightarrow> string" where
  "candidate_value s m =
     rstrip_by (\<lambda>c. c \<in> set ''.,;:)]}'' \<or> c = CHR 0x22 \<or> c = CHR 0x27) (slice s (fst m) (snd m))"

fun candidates_in :: "(re \<times> bool) list \<Rightarrow> string \<Rightarrow> string list" where
  "candidates_in [] remaining = []"
| "candidates_in (pat # pats) remaining =
     (let matches = finditer (fst pat) remaining in
      if matches = [] then candidates_in pats remaining
      else filter (\<lambda>v. \<not> (snd pat \<and> \<not> plausible_domain v))
             (map (candidate_value remaining) matches) @
           candidates_in pats (blank_out remaining 0 matches))"

definition candidates :: "string \<Rightarrow> string list" where
  "candidates text = candidates_in scan_patterns text"

section \<open>Extraction\<close>

type_synonym ioc_key = "string \<times> string"

definition key_of :: "parsed_indicator \<Rightarrow> ioc_key" where
  "key_of p = (ioc_type_value (ptype p), pvalue p)"

text \<open>
  The loop over the candidates: skip what is no indicator, keep first appearances, stop
  at the limit.  An exception other than \<open>UnknownIndicatorError\<close> leaves the loop.
\<close>

fun harvest :: "int \<Rightarrow> ioc_key list \<Rightarrow> string list \<Rightarrow> string list \<Rightarrow> exn + string list" where
  "harvest limit seen found [] = Inr found"
| "harvest limit seen found (candidate # rest) =
     (case classify_indicator candidate of
        Inl e \<Rightarrow> (if caught_by UnknownIndicatorError e then harvest limit seen found rest else Inl e)
      | Inr parsed \<Rightarrow>
          (if key_of parsed \<in> set seen then harvest limit seen found rest
           else let found' = found @ [pvalue parsed] in
             if int (length found') \<ge> limit then Inr found'
             else harvest limit (key_of parsed # seen) found' rest))"

definition extract_from_text :: "int \<Rightarrow> string \<Rightarrow> exn + string list" where
  "extract_from_text limit text = harvest limit [] [] (candidates (refang text))"

definition newline :: string where
  "newline = [CHR 0x0A]"

definition indicator_columns :: "string list" where
  "indicator_columns = [''value'', ''ioc'', ''indicator'', ''observable'']"

definition csv_cells :: "string list list \<Rightarrow> string list" where
  "csv_cells rows =
     (let header = map (\<lambda>cell. py_lower (py_strip cell)) (hd rows) in
      case find (\<lambda>i. header ! i \<in> set indicator_columns) [0..<length header] of
        Some index \<Rightarrow> map (\<lambda>row. row ! index) (filter (\<lambda>row. length row > index) (tl rows))
      | None \<Rightarrow> concat rows)"

definition extract_from_csv ::
  "(string \<Rightarrow> exn + string list list) \<Rightarrow> int \<Rightarrow> string \<Rightarrow> exn + string list" where
  "extract_from_csv csv_rows limit text =
     bindE (csv_rows text) (\<lambda>rows.
       if rows = [] then Inr []
       else extract_from_text limit (join_with newline (csv_cells rows)))"

text \<open>\<open>=\s*'((?:[^'\\]|\\.)*)'\<close> and its first group.\<close>

definition pattern_value_re :: re where
  "pattern_value_re = seqs [lit CHR ''='', Rep 0 None (Cls is_space), lit CHR 0x27,
     Rep 0 None (Alt (Cls (\<lambda>c. c \<noteq> CHR 0x27 \<and> c \<noteq> CHR 0x5C))
       (Seq (lit CHR 0x5C) (Cls (\<lambda>c. c \<noteq> CHR 0x0A)))), lit CHR 0x27]"

definition quoted_values :: "string \<Rightarrow> string list" where
  "quoted_values pattern =
     map (\<lambda>m. py_replace [CHR 0x5C, CHR 0x27] [CHR 0x27]
            (butlast (after CHR 0x27 (slice pattern (fst m) (snd m)))))
       (finditer pattern_value_re pattern)"

text \<open>What a \<open>for\<close> loop over JSON data visits; iterating a number, a truth value or null raises.\<close>

definition py_iter :: "json \<Rightarrow> exn + json list" where
  "py_iter v =
     (case v of
        JArr xs \<Rightarrow> Inr xs
      | JObj d \<Rightarrow> Inr (map (\<lambda>kv. JStr (fst kv)) d)
      | JStr s \<Rightarrow> Inr (map (\<lambda>c. JStr [c]) s)
      | _ \<Rightarrow> Inl (PyExc TypeError ''not iterable''))"

definition ref_value :: "(json \<Rightarrow> string) \<Rightarrow> json \<Rightarrow> string list" where
  "ref_value py_str ref =
     (case ref of
        JObj d \<Rightarrow> (case jget ''external_id'' d of
            Some (JStr s) \<Rightarrow> if s = [] then [] else [s]
          | Some v \<Rightarrow> if truthy v then [py_str v] else []
          | None \<Rightarrow> [])
      | _ \<Rightarrow> [])"

text \<open>\<open>x in {...}\<close> hashes \<open>x\<close>, which raises for a list or a dictionary.\<close>

definition object_values :: "(json \<Rightarrow> string) \<Rightarrow> json \<Rightarrow> exn + string list" where
  "object_values py_str obj =
     (case obj of
        JObj d \<Rightarrow>
          (case jget ''type'' d of
             Some (JArr _) \<Rightarrow> Inl (PyExc TypeError ''unhashable'')
           | Some (JObj _) \<Rightarrow> Inl (PyExc TypeError ''unhashable'')
           | t \<Rightarrow>
               if t = Some (JStr ''vulnerability'') \<or> t = Some (JStr ''attack-pattern'')
               then (case jget ''external_references'' d of
                       Some refs \<Rightarrow>
                         (if truthy refs
                          then bindE (py_iter refs) (\<lambda>rs. Inr (concat (map (ref_value py_str) rs)))
                          else Inr [])
                     | None \<Rightarrow> Inr [])
               else (case jget ''pattern'' d of
                       Some (JStr pattern) \<Rightarrow> Inr (quoted_values pattern)
                     | _ \<Rightarrow> Inr []))
      | _ \<Rightarrow> Inr [])"

fun stix_values :: "(json \<Rightarrow> string) \<Rightarrow> json list \<Rightarrow> exn + string list" where
  "stix_values py_str [] = Inr []"
| "stix_values py_str (obj # objs) =
     bindE (object_values py_str obj) (\<lambda>vs.
       bindE (stix_values py_str objs) (\<lambda>rest. Inr (vs @ rest)))"

text \<open>The second loop: unlike \<open>harvest\<close>, it looks at the limit after duplicates too.\<close>

fun harvest_stix :: "int \<Rightarrow> ioc_key list \<Rightarrow> string list \<Rightarrow> string list \<Rightarrow> exn + string list" where
  "harvest_stix limit seen found [] = Inr found"
| "harvest_stix limit seen found (candidate # rest) =
     (case classify_indicator candidate of
        Inl e \<Rightarrow>
          (if caught_by UnknownIndicatorError e then harvest_stix limit seen found rest else Inl e)
      | Inr parsed \<Rightarrow>
          (let new = key_of parsed \<notin> set seen;
               seen' = (if new then key_of parsed # seen else seen);
               found' = (if new then found @ [pvalue parsed] else found)
           in if int (length found') \<ge> limit then Inr found'
              else harvest_stix limit seen' found' rest))"

definition extract_from_stix ::
  "(string \<Rightarrow> exn + json) \<Rightarrow> (json \<Rightarrow> string) \<Rightarrow> int \<Rightarrow> string \<Rightarrow> exn + string list" where
  "extract_from_stix json_loads py_str limit text =
     (case json_loads text of
        Inl (PyExc JSONDecodeError msg) \<Rightarrow>
          Inl (raise_app ValidationError (Some (''Not a valid STIX/JSON document: '' @ msg)) [])
      | Inl e \<Rightarrow> Inl e
      | Inr (JObj bundle) \<Rightarrow>
          bindE (case jget ''objects'' bundle of None \<Rightarrow> Inr [] | Some v \<Rightarrow> py_iter v) (\<lambda>objs.
            bindE (stix_values py_str objs) (harvest_stix limit [] []))
      | Inr _ \<Rightarrow> Inl (raise_app ValidationError (Some ''STIX input must be a JSON object.'') []))"

definition max_content_chars :: int where
  "max_content_chars = 128 * 1024"

definition sniff_format :: "string \<Rightarrow> string" where
  "sniff_format content =
     (if startswith (lstrip_by is_space content) ''{'' \<and>
         py_in (CHR 0x22 # ''objects'' @ [CHR 0x22]) content then ''stix''
      else if CHR '','' \<in> set (before CHR 0x0A content) \<and> CHR 0x0A \<in> set (py_strip content)
      then ''csv'' else ''text'')"

definition extract_indicators ::
  "(string \<Rightarrow> exn + string list list) \<Rightarrow> (string \<Rightarrow> exn + json) \<Rightarrow> (json \<Rightarrow> string) \<Rightarrow>
   string \<Rightarrow> int \<Rightarrow> string \<Rightarrow> exn + string list" where
  "extract_indicators csv_rows json_loads py_str fmt limit content =
     (if int (length content) > max_content_chars
      then Inl (raise_app ValidationError
        (Some (''Document is too large to scan ('' @ show_int (int (length content)) @
               '' chars); the limit is '' @ show_int max_content_chars @
               ''. Split it and import in parts.'')) [])
      else let fmt' = (if fmt = ''auto'' then sniff_format content else fmt) in
        if fmt' = ''stix'' then extract_from_stix json_loads py_str limit content
        else if fmt' = ''csv'' then extract_from_csv csv_rows limit content
        else if fmt' = ''text'' then extract_from_text limit content
        else Inl (raise_app ValidationError (Some (''Unsupported import format: '' @ fmt')) []))"

section \<open>The harvesting loops\<close>

definition parsed_of :: "string list \<Rightarrow> parsed_indicator list" where
  "parsed_of cands =
     List.map_filter (\<lambda>c. case classify_indicator c of Inr p \<Rightarrow> Some p | Inl _ \<Rightarrow> None) cands"

definition foreign :: "string \<Rightarrow> bool" where
  "foreign c \<longleftrightarrow> (case classify_indicator c of
     Inl e \<Rightarrow> \<not> caught_by UnknownIndicatorError e | Inr _ \<Rightarrow> False)"

lemma parsed_of_simps [simp]:
  "parsed_of [] = []"
  "parsed_of (c # cs) =
     (case classify_indicator c of Inr p \<Rightarrow> p # parsed_of cs | Inl _ \<Rightarrow> parsed_of cs)"
  by (auto simp: parsed_of_def List.map_filter_simps split: sum.splits)

lemma harvest_spec:
  assumes "list_all (\<lambda>c. \<not> foreign c) cands"
  shows "harvest limit seen found cands =
    Inr (found @ map pvalue (take (max 1 (nat (limit - int (length found))))
      (dedup_by key_of seen (parsed_of cands))))"
  using assms
proof (induction cands arbitrary: seen found)
  case (Cons c cs)
  show ?case
  proof (cases "classify_indicator c")
    case (Inl e)
    with Cons show ?thesis by (simp add: foreign_def)
  next
    case (Inr p)
    have "max 1 (nat (limit - int (length found))) =
        Suc (if int (length found) + 1 \<ge> limit then 0
             else max 1 (nat (limit - (int (length found) + 1))))" by auto
    with Cons Inr show ?thesis by (simp add: foreign_def add.commute)
  qed
qed simp

lemma harvest_error:
  "harvest limit seen found cands = Inl e \<Longrightarrow>
   \<exists>c\<in>set cands. classify_indicator c = Inl e \<and> \<not> caught_by UnknownIndicatorError e"
  by (induction limit seen found cands rule: harvest.induct)
    (auto simp: Let_def split: sum.splits if_splits)

text \<open>A returned list is such a harvest of a prefix of the candidates.\<close>

lemma harvest_prefix:
  "harvest limit seen found cands = Inr vs \<Longrightarrow>
   \<exists>k. vs = found @ map pvalue (take (max 1 (nat (limit - int (length found))))
      (dedup_by key_of seen (parsed_of (take k cands))))"
proof (induction limit seen found cands rule: harvest.induct)
  case (1 limit seen found)
  then show ?case by simp
next
  case (2 limit seen found c cs)
  show ?case
  proof (cases "classify_indicator c")
    case (Inl e)
    with 2 obtain k where "vs = found @ map pvalue (take (max 1 (nat (limit - int (length found))))
      (dedup_by key_of seen (parsed_of (take k cs))))" by (auto split: if_splits)
    with Inl show ?thesis by (intro exI [of _ "Suc k"]) simp
  next
    case (Inr p)
    show ?thesis
    proof (cases "key_of p \<in> set seen")
      case True
      with 2 Inr obtain k where "vs = found @ map pvalue (take (max 1 (nat (limit - int (length found))))
        (dedup_by key_of seen (parsed_of (take k cs))))" by auto
      with Inr True show ?thesis by (intro exI [of _ "Suc k"]) simp
    next
      case False
      have m: "max 1 (nat (limit - int (length found))) =
        Suc (if int (length found) + 1 \<ge> limit then 0
             else max 1 (nat (limit - (int (length found) + 1))))" by auto
      show ?thesis
      proof (cases "int (length (found @ [pvalue p])) \<ge> limit")
        case True
        with 2(4) Inr False have "vs = found @ [pvalue p]" by simp
        with Inr False True m show ?thesis by (intro exI [of _ 1]) simp
      next
        case small: False
        with 2(3) [OF Inr False refl small] 2(4) Inr False obtain k where
          "vs = (found @ [pvalue p]) @ map pvalue (take (max 1 (nat (limit - int (length (found @ [pvalue p])))))
            (dedup_by key_of (key_of p # seen) (parsed_of (take k cs))))"
          by auto
        with Inr False small m show ?thesis by (intro exI [of _ "Suc k"]) (simp add: add.commute)
      qed
    qed
  qed
qed

text \<open>A canonical value belongs to one type only, so distinct keys are distinct values.\<close>

lemma ipv6_colon: "ipv6_address s = Some a \<Longrightarrow> CHR '':'' \<in> set s"
proof -
  assume a: "ipv6_address s = Some a"
  have i: "ipv6_int u = Some n \<Longrightarrow> CHR '':'' \<in> set u" for u n
    by (rule ccontr) (auto simp: ipv6_int_def split_on_single split: if_splits)
  show ?thesis
    using a by (auto simp: ipv6_address_def Let_def split: if_splits
        dest!: i intro: subsetD [OF before_subset])
qed

lemma wf_percent:
  assumes w: "wf_indicator q" and v: "CHR ''%'' \<in> set (pvalue q)" "CHR '':'' \<in> set (pvalue q)"
    "CHR ''/'' \<notin> set (pvalue q)"
  shows "ptype q = Ipv6"
proof -
  let ?v = "pvalue q"
  have n: "\<not> is_hex CHR ''%''" "\<not> is_digit CHR ''%''" "\<not> is_alnum CHR ''%''" "\<not> is_label_char CHR ''%''"
    "\<not> is_local_char CHR '':''" "\<not> is_mail_host_char CHR '':''" by code_simp+
  have hex: "\<not> list_all is_hex ?v" using v(1) n(1) unfolding list_all_iff by metis
  have four: "ipv4_address ?v = None" using ipv4_chars [of ?v _ "CHR ''%''"] v(1) n(2)
    by (cases "ipv4_address ?v") auto
  have cve: "\<not> cve_shape ?v"
  proof
    assume "cve_shape ?v"
    then have "is_alnum CHR ''%'' \<or> CHR ''%'' = CHR ''-''"
      using cve_chars v(1) unfolding list_all_iff by metis
    with n(3) show False by simp
  qed
  have tec: "\<not> technique_shape ?v"
  proof
    assume "technique_shape ?v"
    then have "CHR ''%'' = CHR ''T'' \<or> is_digit CHR ''%'' \<or> CHR ''%'' = CHR ''.''"
      using technique_chars v(1) unfolding list_all_iff by metis
    with n(2) show False by simp
  qed
  have dom: "\<not> domain_shape ?v" using domain_chars [OF _ v(1)] n(4) by auto
  have url: "\<not> py_in ''://'' ?v" using v(3) by (auto simp: py_in_iff)
  have eml: "\<not> email_shape ?v"
  proof
    assume e: "email_shape ?v"
    then have "CHR ''@'' \<in> set ?v" by (metis count_notin email_shape_def one_neq_zero py_count_def)
    then have "?v = before CHR ''@'' ?v @ CHR ''@'' # after CHR ''@'' ?v" by (rule before_after)
    then have "set ?v = insert CHR ''@'' (set (before CHR ''@'' ?v) \<union> set (after CHR ''@'' ?v))"
      by (metis Un_insert_right list.simps(15) set_append)
    with v(2) have "CHR '':'' \<in> set (before CHR ''@'' ?v) \<or> CHR '':'' \<in> set (after CHR ''@'' ?v)"
      by auto
    moreover have "list_all is_local_char (before CHR ''@'' ?v)"
      "list_all is_mail_host_char (after CHR ''@'' ?v)"
      using e by (simp_all add: email_shape_def Let_def)
    ultimately show False using n unfolding list_all_iff by metis
  qed
  show ?thesis
    using w hex four cve tec dom url eml
    by (cases "ptype q") (auto simp: wf_indicator_def Let_def)
qed

lemma value_determines_type:
  assumes p: "wf_indicator p" and q: "wf_indicator q" and v: "pvalue p = pvalue q"
  shows "p = q"
proof -
  have eq: "p = q" if "ptype p = ptype q" using that v by simp
  have url: "ptype x = Url \<longleftrightarrow> CHR ''/'' \<in> set (pvalue x)" if w: "wf_indicator x" for x
  proof
    assume "ptype x = Url"
    then show "CHR ''/'' \<in> set (pvalue x)" using w by (auto simp: wf_indicator_def Let_def py_in_iff)
  next
    assume s: "CHR ''/'' \<in> set (pvalue x)"
    show "ptype x = Url"
    proof (rule ccontr)
      assume n: "ptype x \<noteq> Url"
      show False
      proof (cases "restorable x")
        case True
        from wf_safe [OF w this] have "is_safe CHR ''/''" using s unfolding list_all_iff by metis
        then show False using safe_facts(2) by blast
      next
        case False
        with n w have "ipv6_address (pvalue x) \<noteq> None"
          by (auto simp: restorable_def wf_indicator_def Let_def)
        with s show False by (simp add: ipv6_address_def)
      qed
    qed
  qed
  have zone: "ptype y = Ipv6"
    if x: "wf_indicator x" "ptype x \<noteq> Url" "\<not> restorable x" and y: "wf_indicator y" "pvalue x = pvalue y" for x y
  proof -
    from x have six: "CHR ''%'' \<in> set (pvalue x)" "ipv6_address (pvalue x) \<noteq> None"
      by (auto simp: restorable_def wf_indicator_def Let_def)
    then have "CHR '':'' \<in> set (pvalue x)" using ipv6_colon by blast
    moreover have "CHR ''/'' \<notin> set (pvalue x)" using url [OF x(1)] x(2) by blast
    ultimately show ?thesis using wf_percent [OF y(1)] y(2) six by simp
  qed
  show ?thesis
  proof (cases "ptype p = Url")
    case True
    then show ?thesis using url [OF p] url [OF q] v eq by simp
  next
    case False
    then have nq: "ptype q \<noteq> Url" using url [OF p] url [OF q] v by simp
    show ?thesis
    proof (cases "restorable p \<and> restorable q")
      case True
      then have "classify_value [] (pvalue p) = Inr p" "classify_value [] (pvalue q) = Inr q"
        by (auto intro: classify_canonical p q)
      with v show ?thesis by (metis sum.inject(2))
    next
      case no: False
      have "ptype p = Ipv6 \<and> ptype q = Ipv6"
      proof (cases "restorable p")
        case True
        with no have r: "\<not> restorable q" by simp
        show ?thesis using zone [OF q nq r p v [symmetric]] zone [OF q nq r q refl] by (rule conjI)
      next
        case r: False
        show ?thesis using zone [OF p False r p refl] zone [OF p False r q v] by (rule conjI)
      qed
      then show ?thesis using eq by simp
    qed
  qed
qed

section \<open>Every part of the text is consumed at most once\<close>

text \<open>Spans in order, non-empty, within the text, and made of characters \<open>p\<close> admits.\<close>

fun spans_ok :: "(char \<Rightarrow> bool) \<Rightarrow> string \<Rightarrow> nat \<Rightarrow> (nat \<times> nat) list \<Rightarrow> bool" where
  "spans_ok p s cur [] = True"
| "spans_ok p s cur ((i, j) # ms) =
     (cur \<le> i \<and> i < j \<and> j \<le> length s \<and> list_all p (slice s i j) \<and> spans_ok p s j ms)"

lemma spans_ok_weaken: "spans_ok p s b ms \<Longrightarrow> a \<le> b \<Longrightarrow> spans_ok p s a ms"
  by (cases ms) auto

lemma spans_ok_Suc: "spans_ok p s (Suc n) ms \<Longrightarrow> spans_ok p s n ms"
  by (erule spans_ok_weaken) simp

lemma scan_spans:
  "spans_ok (may r) (rev p @ s) (length p) (scan r (p, s))"
proof (induction r "(p, s)" arbitrary: p s rule: scan.induct)
  case (1 r p s)
  show ?case
  proof (cases "first_match r (p, s)")
    case None
    with 1 show ?thesis
      by (subst scan.simps) (auto split: list.splits intro: spans_ok_Suc)
  next
    case (Some c)
    obtain q t where c: "c = (q, t)" by (cases c)
    with first_match_steps [OF Some] obtain w where w: "s = w @ t" "q = rev w @ p"
      "\<forall>x\<in>set w. may r x"
      by (auto simp: steps_to_def)
    show ?thesis
    proof (cases "length t < length s")
      case True
      have "spans_ok (may r) (rev q @ t) (length q) (scan r (q, t))"
        using 1(2) [OF Some] c True by simp
      moreover have "slice (rev p @ s) (length p) (length q) = w"
        by (simp add: slice_def w)
      ultimately show ?thesis
        using Some c True w by (subst scan.simps) (auto simp: list_all_iff)
    next
      case False
      with 1 Some c show ?thesis
        by (subst scan.simps) (auto split: list.splits intro: spans_ok_Suc)
    qed
  qed
qed

definition visible :: "string \<Rightarrow> nat" where
  "visible s = length (filter (\<lambda>c. \<not> is_space c) s)"

lemma visible_append [simp]: "visible (s @ t) = visible s + visible t"
  by (simp add: visible_def)

lemma visible_all: "list_all (\<lambda>c. \<not> is_space c) s \<Longrightarrow> visible s = length s"
  by (induction s) (auto simp: visible_def)

lemma blank_visible:
  assumes "\<And>c. p c \<Longrightarrow> \<not> is_space c"
  shows "spans_ok p s cur ms \<Longrightarrow>
    sum_list (map (\<lambda>m. length (slice s (fst m) (snd m))) ms) + visible (blank_out s cur ms)
      = visible (drop cur s)"
proof (induction ms arbitrary: cur)
  case (Cons m ms)
  obtain i j where m: "m = (i, j)" by (cases m)
  from Cons.prems m have ok: "cur \<le> i" "i < j" "j \<le> length s" "list_all p (slice s i j)"
    "spans_ok p s j ms" by auto
  have "drop cur s = slice s cur i @ slice s i j @ drop j s"
  proof -
    have "drop cur s = take (i - cur) (drop cur s) @ drop i s"
      using ok by (metis append_take_drop_id drop_drop le_add_diff_inverse2)
    moreover have "drop i s = take (j - i) (drop i s) @ drop j s"
      using ok by (metis append_take_drop_id drop_drop le_add_diff_inverse2 less_imp_le)
    ultimately show ?thesis by (simp add: slice_def)
  qed
  moreover have "visible (slice s i j) = length (slice s i j)"
    using ok(4) assms by (intro visible_all) (auto simp: list_all_iff)
  moreover have "visible (CHR '' '' # t) = visible t" for t
    by (simp add: visible_def is_space_def)
  ultimately show ?case using Cons.IH [OF ok(5)] m by simp
qed simp

lemma ci_letter: "ci_eq c x \<Longrightarrow> is_letter x \<Longrightarrow> \<not> is_space c"
proof -
  assume "ci_eq c x" "is_letter x"
  then have "is_letter c" unfolding ci_eq_def by (metis lower_char_classes(2))
  then show ?thesis by (auto simp: char_class_defs)
qed

lemma patterns_visible:
  assumes "pat \<in> set scan_patterns" "may (fst pat) c"
  shows "\<not> is_space c"
proof -
  have l: "is_letter CHR ''h''" "is_letter CHR ''t''" "is_letter CHR ''p''" "is_letter CHR ''s''"
    "is_letter CHR ''f''" "is_letter CHR ''C''" "is_letter CHR ''V''" "is_letter CHR ''E''"
    by code_simp+
  note ci = l [THEN [2] ci_letter]
  have "list_all (\<lambda>c. \<not> is_space c) ''._%+-:/@T''" by code_simp
  then have s: "\<not> is_space x" if "x \<in> set ''._%+-:/@T''" for x using that by (auto simp: list_all_iff)
  have dash: "ci_eq c CHR ''-'' \<Longrightarrow> \<not> is_space c"
    using lower_char_fix [of "CHR ''-''" c] s
    by (auto simp: ci_eq_def lower_char_def is_letter_def is_upper_def is_lower_def)
  have alnum: "is_alnum c \<Longrightarrow> \<not> is_space c" "is_hex c \<Longrightarrow> \<not> is_space c" "is_digit c \<Longrightarrow> \<not> is_space c"
    "is_letter c \<Longrightarrow> \<not> is_space c"
    by (auto simp: char_class_defs)
  have "is_local_char c \<Longrightarrow> \<not> is_space c" "is_mail_host_char c \<Longrightarrow> \<not> is_space c"
    "is_label_char c \<Longrightarrow> \<not> is_space c" "is_url_char c \<Longrightarrow> \<not> is_space c"
    using alnum s by (auto simp: is_local_char_def is_mail_host_char_def is_label_char_def is_url_char_def)
  then show ?thesis
    using assms ci dash alnum s
    by (auto simp: scan_patterns_def url_scan_re_def email_scan_re_def hash_scan_re_def hash_word_def
      cve_scan_re_def technique_scan_re_def ipv4_scan_re_def ipv6_scan_re_def domain_scan_re_def
      lit_str_def lit_str_ci_def opt_def)
qed

lemma candidates_in_visible:
  assumes "set pats \<subseteq> set scan_patterns"
  shows "sum_list (map length (candidates_in pats s)) \<le> visible s"
  using assms
proof (induction pats arbitrary: s)
  case (Cons pat pats)
  let ?ms = "finditer (fst pat) s"
  have ok: "spans_ok (may (fst pat)) s 0 ?ms"
    using scan_spans [of "fst pat" "[]" s] by (simp add: finditer_def)
  have v: "sum_list (map (\<lambda>m. length (slice s (fst m) (snd m))) ?ms) + visible (blank_out s 0 ?ms) = visible s"
    using blank_visible [OF _ ok] patterns_visible [of pat] Cons.prems by auto
  have f: "sum_list (map length (filter P xs)) \<le> sum_list (map length xs)" for P and xs :: "string list"
    by (induction xs) auto
  have len: "length (candidate_value s m) \<le> length (slice s (fst m) (snd m))" for m
    unfolding candidate_value_def by (rule prefix_length_le [OF rstrip_prefix])
  have "sum_list (map length (map (candidate_value s) ?ms)) \<le>
      sum_list (map (\<lambda>m. length (slice s (fst m) (snd m))) ?ms)"
    unfolding map_map by (rule sum_list_mono) (simp add: len)
  then show ?case
    using Cons.IH [of s] Cons.IH [of "blank_out s 0 ?ms"] Cons.prems v
      f [of "\<lambda>v. \<not> (snd pat \<and> \<not> plausible_domain v)" "map (candidate_value s) ?ms"]
    by (simp add: Let_def)
qed simp

section \<open>Properties\<close>

text \<open>Every part of a document is read as at most one indicator: the candidates found in
  a text are together no longer than its visible (non-blank) characters, because each span a
  pattern claims is blanked out before a looser pattern runs.\<close>

theorem candidates_consume: "sum_list (map length (candidates text)) \<le> visible text"
  unfolding candidates_def by (rule candidates_in_visible) simp



text \<open>What extraction from text returns is canonical, without duplicates and bounded by
  the limit: distinct values, at most \<open>max 1 limit\<close> of them, each the value of a well-formed
  indicator.\<close>

theorem extract_text_sound:
  "extract_from_text limit text = Inr vs \<Longrightarrow>
   distinct vs \<and> int (length vs) \<le> max 1 limit \<and> (\<exists>ps. vs = map pvalue ps \<and> list_all wf_indicator ps)"
proof -
  assume "extract_from_text limit text = Inr vs"
  then obtain k where vs: "vs = map pvalue (take (max 1 (nat limit))
      (dedup_by key_of [] (parsed_of (take k (candidates (refang text))))))"
    unfolding extract_from_text_def by (auto dest: harvest_prefix)
  let ?ps = "dedup_by key_of [] (parsed_of (take k (candidates (refang text))))"
  let ?qs = "take (max 1 (nat limit)) ?ps"
  have wf: "wf_indicator p" if "p \<in> set ?ps" for p
  proof -
    have "p \<in> set (parsed_of (take k (candidates (refang text))))"
      using that dedup_by_subset [of key_of "[]"] by (rule rev_subsetD)
    then obtain c where "(case classify_indicator c of Inr p \<Rightarrow> Some p | Inl _ \<Rightarrow> None) = Some p"
      unfolding parsed_of_def map_filter_set by blast
    then have "classify_indicator c = Inr p" by (cases "classify_indicator c") simp_all
    then show ?thesis by (rule classify_wf)
  qed
  then have wq: "\<forall>q\<in>set ?qs. wf_indicator q" by (meson in_set_takeD)
  have "distinct ?ps" 
    using dedup_by_distinct [of key_of "[]" "parsed_of (take k (candidates (refang text)))"]
    by (simp add: distinct_map)
  then have "distinct ?qs" by (rule distinct_take)
  moreover have "inj_on pvalue (set ?qs)"
    using wq value_determines_type by (auto simp: inj_on_def)
  ultimately have "distinct vs" unfolding vs by (simp add: distinct_map)
  moreover have "int (length vs) \<le> max 1 limit" unfolding vs by auto
  moreover have "vs = map pvalue ?qs \<and> list_all wf_indicator ?qs" using vs wq by (simp add: list_all_iff)
  ultimately show ?thesis by blast
qed

theorem extract_text_sound_witness: "distinct [''a.io'', ''b.io'']"
proof -
  have "extract_from_text 5 ''a.io b.io a.io'' = Inr [''a.io'', ''b.io'']" by code_simp
  then show ?thesis using extract_text_sound by blast
qed

text \<open>The only exception extraction from text can let pass is the parser's \<open>ValueError\<close>, and
  one malformed URL anywhere in a document is enough for it.\<close>

theorem extract_text_errors:
  "extract_from_text limit text = Inl e \<Longrightarrow>
   e = PyExc ValueError ''urlsplit'' \<and>
   (\<exists>c\<in>set (candidates (refang text)). classify_indicator c = Inl e)"
proof -
  assume "extract_from_text limit text = Inl e"
  then obtain c where c: "c \<in> set (candidates (refang text))" "classify_indicator c = Inl e"
    "\<not> caught_by UnknownIndicatorError e"
    unfolding extract_from_text_def by (auto dest: harvest_error)
  then show ?thesis
    unfolding classify_error_iff Let_def by (auto simp: unrecognised_def raise_app_def)
qed

theorem extract_text_errors_witness:
  "\<exists>c\<in>set (candidates (refang ''a.io http://[::1]/x'')).
     classify_indicator c = Inl (PyExc ValueError ''urlsplit'')"
proof -
  have "extract_from_text 10 ''a.io http://[::1]/x'' = Inl (PyExc ValueError ''urlsplit'')"
    by code_simp
  then show ?thesis using extract_text_errors by blast
qed

end
