(* ===== verification/Resilience.thy ===== *)
theory Resilience
  imports Errors
begin

text \<open>
  The circuit breaker and the retry helper: \<open>app/core/resilience.py\<close>.  The clock is an
  argument.  \<open>call\<close> holds its lock only around the admission check and around the
  recording, so calls overlap: the protected functions that have been admitted and have
  not been recorded yet are counted in \<open>in_flight\<close>.
\<close>

section \<open>The breaker\<close>

datatype circuit_state = CClosed | COpen | CHalfOpen

record circuit_breaker =
  cb_name :: string
  failure_threshold :: int
  recovery_timeout :: real
  cb_state :: circuit_state
  cb_failures :: int
  opened_at :: real
  probe_in_flight :: bool

definition new_breaker :: "string \<Rightarrow> int \<Rightarrow> real \<Rightarrow> circuit_breaker" where
  "new_breaker name threshold timeout =
     \<lparr>cb_name = name, failure_threshold = threshold, recovery_timeout = timeout,
      cb_state = CClosed, cb_failures = 0, opened_at = 0, probe_in_flight = False\<rparr>"

definition can_attempt :: "real \<Rightarrow> circuit_breaker \<Rightarrow> bool \<times> circuit_breaker" where
  "can_attempt now b =
     (if cb_state b = CClosed then (True, b)
      else if cb_state b = COpen
      then (if now - opened_at b \<ge> recovery_timeout b
            then (True, b\<lparr>cb_state := CHalfOpen, probe_in_flight := True\<rparr>)
            else (False, b))
      else if probe_in_flight b then (False, b)
      else (True, b\<lparr>probe_in_flight := True\<rparr>))"

definition record_success :: "circuit_breaker \<Rightarrow> circuit_breaker" where
  "record_success b = b\<lparr>cb_failures := 0, cb_state := CClosed, probe_in_flight := False\<rparr>"

definition record_failure :: "real \<Rightarrow> circuit_breaker \<Rightarrow> circuit_breaker" where
  "record_failure now b =
     (let b1 = b\<lparr>cb_failures := cb_failures b + 1, probe_in_flight := False\<rparr> in
      if cb_state b1 = CHalfOpen \<or> cb_failures b1 \<ge> failure_threshold b1
      then b1\<lparr>cb_state := COpen, opened_at := now\<rparr> else b1)"

text \<open>
  How a protected function ends: it returns, it raises an \<open>Exception\<close>, or its task is
  cancelled (\<open>CancelledError\<close> is no \<open>Exception\<close>, so \<open>call\<close> records nothing).
\<close>

datatype 'a outcome = Returned 'a | Raised exn | Cancelled

definition record_outcome :: "real \<Rightarrow> 'a outcome \<Rightarrow> circuit_breaker \<Rightarrow> circuit_breaker" where
  "record_outcome now res b =
     (case res of Returned _ \<Rightarrow> record_success b | Raised _ \<Rightarrow> record_failure now b | Cancelled \<Rightarrow> b)"

text \<open>A call that nothing overlaps: admitted at \<open>t1\<close>, over at \<open>t2\<close>.\<close>

definition cb_call ::
  "real \<Rightarrow> 'a outcome \<Rightarrow> real \<Rightarrow> circuit_breaker \<Rightarrow> 'a outcome \<times> circuit_breaker" where
  "cb_call t1 res t2 b =
     (case can_attempt t1 b of
        (False, b1) \<Rightarrow>
          (Raised (raise_app CircuitOpenError None [(''circuit'', JStr (cb_name b))]), b1)
      | (True, b1) \<Rightarrow> (res, record_outcome t2 res b1))"

section \<open>Overlapping calls\<close>

type_synonym cb_system = "circuit_breaker \<times> nat"

inductive cb_step :: "cb_system \<Rightarrow> cb_system \<Rightarrow> bool" where
  admit: "can_attempt now b = (True, b') \<Longrightarrow> cb_step (b, n) (b', Suc n)"
| reject: "can_attempt now b = (False, b') \<Longrightarrow> cb_step (b, n) (b', n)"
| succeed: "cb_step (b, Suc n) (record_success b, n)"
| failed: "cb_step (b, Suc n) (record_failure now b, n)"
| cancel: "cb_step (b, Suc n) (b, n)"

inductive_cases cb_stepE: "cb_step (b, n) s"

inductive cb_reachable :: "string \<Rightarrow> int \<Rightarrow> real \<Rightarrow> cb_system \<Rightarrow> bool" for name threshold timeout where
  start: "cb_reachable name threshold timeout (new_breaker name threshold timeout, 0)"
| step: "cb_reachable name threshold timeout s \<Longrightarrow> cb_step s s' \<Longrightarrow>
    cb_reachable name threshold timeout s'"

definition cb_inv :: "int \<Rightarrow> real \<Rightarrow> circuit_breaker \<Rightarrow> bool" where
  "cb_inv threshold timeout b \<longleftrightarrow>
     failure_threshold b = threshold \<and> recovery_timeout b = timeout \<and> 0 \<le> cb_failures b \<and>
     (cb_state b = CHalfOpen \<longleftrightarrow> probe_in_flight b) \<and>
     (cb_state b = CClosed \<longrightarrow> cb_failures b < threshold)"

named_theorems cb_defs \<open>definitions of the breaker's operations\<close>

lemmas [cb_defs] = can_attempt_def record_success_def record_failure_def cb_inv_def Let_def

lemma can_attempt_inv [inv_intros]:
  "cb_inv k t b \<Longrightarrow> can_attempt now b = (r, b') \<Longrightarrow> cb_inv k t b'"
  by (cases "cb_state b") (auto simp: cb_defs split: if_splits)

lemma record_success_inv [inv_intros]: "0 < k \<Longrightarrow> cb_inv k t b \<Longrightarrow> cb_inv k t (record_success b)"
  by (auto simp: cb_defs)

lemma record_failure_inv [inv_intros]: "cb_inv k t b \<Longrightarrow> cb_inv k t (record_failure now b)"
  by (auto simp: cb_defs)

lemma cb_step_inv: "cb_step s s' \<Longrightarrow> 0 < k \<Longrightarrow> cb_inv k t (fst s) \<Longrightarrow> cb_inv k t (fst s')"
  by (induction rule: cb_step.induct) (auto intro: inv_intros)

lemma cb_reachable_inv: "cb_reachable name k t s \<Longrightarrow> 0 < k \<Longrightarrow> cb_inv k t (fst s)"
proof (induction rule: cb_reachable.induct)
  case start
  then show ?case by (simp add: new_breaker_def cb_inv_def)
next
  case (step s s')
  then show ?case using cb_step_inv by blast
qed

text \<open>Attempts, one after the other, with no recording between them: which are admitted.\<close>

fun admissions :: "real list \<Rightarrow> circuit_breaker \<Rightarrow> bool list" where
  "admissions [] b = []"
| "admissions (t # ts) b = fst (can_attempt t b) # admissions ts (snd (can_attempt t b))"

lemma half_open_rejects:
  "cb_state b = CHalfOpen \<Longrightarrow> probe_in_flight b \<Longrightarrow> list_all Not (admissions ts b)"
  by (induction ts) (simp_all add: can_attempt_def)

lemma open_admits_once: "cb_state b = COpen \<Longrightarrow> length (filter (\<lambda>a. a) (admissions ts b)) \<le> 1"
proof (induction ts)
  case (Cons t ts)
  show ?case
  proof (cases "t - opened_at b \<ge> recovery_timeout b")
    case True
    let ?b = "b\<lparr>cb_state := CHalfOpen, probe_in_flight := True\<rparr>"
    have "list_all Not (admissions ts ?b)" by (rule half_open_rejects) simp_all
    then have "filter (\<lambda>a. a) (admissions ts ?b) = []" by (simp add: filter_empty_conv list_all_iff)
    with True Cons.prems show ?thesis by (simp add: can_attempt_def)
  next
    case False
    with Cons show ?thesis by (simp add: can_attempt_def)
  qed
qed simp

section \<open>The registry\<close>

type_synonym breakers = "string \<rightharpoonup> circuit_breaker"

definition get_circuit_breaker ::
  "string \<Rightarrow> int \<Rightarrow> real \<Rightarrow> breakers \<Rightarrow> circuit_breaker \<times> breakers" where
  "get_circuit_breaker name threshold timeout reg =
     (case reg name of
        Some b \<Rightarrow> (b, reg)
      | None \<Rightarrow> (let b = new_breaker name threshold timeout in (b, reg(name \<mapsto> b))))"

definition reset_circuit_breakers :: "breakers \<Rightarrow> breakers" where
  "reset_circuit_breakers reg = Map.empty"

section \<open>Retrying\<close>

text \<open>
  \<open>func i\<close> is how the \<open>i\<close>-th call ends (from 1), \<open>catches\<close> the exceptions that are retried.
  The result comes with the delays slept, in order.  With no attempt at all the
  assertion after the loop fails.
\<close>

fun retry_from ::
  "(exn \<Rightarrow> bool) \<Rightarrow> (nat \<Rightarrow> exn + 'a) \<Rightarrow> real \<Rightarrow> nat \<Rightarrow> nat \<Rightarrow> real \<Rightarrow> (exn + 'a) \<times> real list" where
  "retry_from catches func max_delay attempt 0 delay = (Inl (PyExc OtherError ''AssertionError''), [])"
| "retry_from catches func max_delay attempt (Suc left) delay =
     (case func attempt of
        Inr r \<Rightarrow> (Inr r, [])
      | Inl e \<Rightarrow>
          (if \<not> catches e then (Inl e, [])
           else if left = 0 then (Inl e, [])
           else case retry_from catches func max_delay (Suc attempt) left (delay * 2) of
             (r, ds) \<Rightarrow> (r, min delay max_delay # ds)))"

definition async_retry ::
  "int \<Rightarrow> real \<Rightarrow> real \<Rightarrow> (exn \<Rightarrow> bool) \<Rightarrow> (nat \<Rightarrow> exn + 'a) \<Rightarrow> (exn + 'a) \<times> real list" where
  "async_retry attempts base_delay max_delay catches func =
     retry_from catches func max_delay 1 (nat attempts) base_delay"

text \<open>The number of the attempt that ends the loop: the first that does not fail retriably, or the last.\<close>

fun decisive :: "(exn \<Rightarrow> bool) \<Rightarrow> (nat \<Rightarrow> exn + 'a) \<Rightarrow> nat \<Rightarrow> nat \<Rightarrow> nat" where
  "decisive catches func attempt 0 = attempt"
| "decisive catches func attempt (Suc left) =
     (case func attempt of
        Inl e \<Rightarrow> if catches e then decisive catches func (Suc attempt) left else attempt
      | Inr _ \<Rightarrow> attempt)"

lemma decisive_ge: "attempt \<le> decisive catches func attempt left"
  by (induction left arbitrary: attempt) (auto split: sum.splits intro: Suc_leD)

lemma decisive_le: "decisive catches func attempt left \<le> attempt + left"
proof (induction left arbitrary: attempt)
  case (Suc left)
  then show ?case using Suc.IH [of "Suc attempt"] by (auto split: sum.splits)
qed simp

lemma retry_from_spec:
  "retry_from catches func max_delay attempt (Suc left) delay =
     (func (decisive catches func attempt left),
      map (\<lambda>k. min (delay * 2 ^ k) max_delay) [0..<decisive catches func attempt left - attempt])"
proof (induction left arbitrary: attempt delay)
  case 0
  then show ?case by (auto split: sum.splits)
next
  case (Suc left)
  show ?case
  proof (cases "func attempt")
    case (Inl e)
    show ?thesis
    proof (cases "catches e")
      case True
      let ?d = "decisive catches func (Suc attempt) left"
      have "Suc attempt \<le> ?d" by (rule decisive_ge)
      then have "?d - attempt = Suc (?d - Suc attempt)" by simp
      then have "map (\<lambda>k. min (delay * 2 ^ k) max_delay) [0..<?d - attempt] =
          min delay max_delay # map (\<lambda>k. min (delay * 2 * 2 ^ k) max_delay) [0..<?d - Suc attempt]"
        by (simp add: upt_conv_Cons map_Suc_upt [symmetric] mult.assoc del: upt_Suc)
      with Inl True show ?thesis
        unfolding retry_from.simps(2) [of catches func max_delay attempt "Suc left"]
        by (simp add: Suc.IH del: retry_from.simps)
    qed (use Inl in simp)
  qed simp
qed

section \<open>Properties\<close>

text \<open>In every state the breaker can reach, however its calls overlap, it is half-open exactly
  while a probe is marked in flight, it is closed only below the failure threshold, and a
  half-open breaker admits nobody: the last branch of \<open>_can_attempt\<close> is never taken.\<close>

theorem breaker_invariant:
  "cb_reachable name k t (b, n) \<Longrightarrow> 0 < k \<Longrightarrow>
   (cb_state b = CHalfOpen \<longleftrightarrow> probe_in_flight b) \<and>
   (cb_state b = CClosed \<longrightarrow> cb_failures b < k) \<and>
   (cb_state b = CHalfOpen \<longrightarrow> can_attempt now b = (False, b))"
  using cb_reachable_inv [of name k t "(b, n)"] by (auto simp: cb_inv_def can_attempt_def)

theorem breaker_invariant_witness:
  "cb_state (new_breaker ''vt'' 5 30) = CClosed \<and> cb_failures (new_breaker ''vt'' 5 30) < 5"
  using breaker_invariant [OF cb_reachable.start, of 5 "''vt''" 30] by (simp add: new_breaker_def)

text \<open>An open breaker shields its source: nothing is admitted before the recovery timeout has
  passed, and however many callers arrive before a result is recorded, at most one - the
  probe - gets through.\<close>

theorem open_breaker_shields:
  "cb_state b = COpen \<Longrightarrow>
   length (filter (\<lambda>a. a) (admissions ts b)) \<le> 1 \<and>
   (list_all (\<lambda>t. t - opened_at b < recovery_timeout b) ts \<longrightarrow> list_all Not (admissions ts b))"
proof
  assume b: "cb_state b = COpen"
  show "length (filter (\<lambda>a. a) (admissions ts b)) \<le> 1" using b by (rule open_admits_once)
  show "list_all (\<lambda>t. t - opened_at b < recovery_timeout b) ts \<longrightarrow> list_all Not (admissions ts b)"
    using b by (induction ts) (auto simp: can_attempt_def)
qed

theorem open_breaker_shields_witness:
  "length (filter (\<lambda>a. a) (admissions [1, 40, 41] (new_breaker ''vt'' 5 30\<lparr>cb_state := COpen\<rparr>))) \<le> 1"
  using open_breaker_shields [of "new_breaker ''vt'' 5 30\<lparr>cb_state := COpen\<rparr>" "[1, 40, 41]"] by simp



text \<open>A cancelled probe wedges the breaker: \<open>CancelledError\<close> is not recorded, so once the probe of
  an open breaker is cancelled every later call is refused, at any time, for as long as no
  older call reports back.\<close>

theorem cancelled_probe_wedges:
  "cb_state b = COpen \<Longrightarrow> recovery_timeout b \<le> t - opened_at b \<Longrightarrow>
   list_all Not (admissions ts (snd (cb_call t Cancelled t' b)))"
  by (simp add: cb_call_def can_attempt_def record_outcome_def half_open_rejects)

theorem cancelled_probe_wedges_witness:
  "list_all Not (admissions [1000000]
     (snd (cb_call 40 Cancelled 41 (new_breaker ''vt'' 5 30\<lparr>cb_state := COpen\<rparr>))))"
  by (rule cancelled_probe_wedges) (simp_all add: new_breaker_def)

text \<open>C25: Retrying makes between one and \<open>attempts\<close> calls: the outcome is that of the first call that
  succeeds or fails with an exception that is not retried, else of the last, and before
  each further call it sleeps the exponential delay capped at \<open>max_delay\<close>.\<close>

theorem retry_spec:
  "1 \<le> attempts \<Longrightarrow>
   (\<exists>d. 1 \<le> d \<and> d \<le> nat attempts \<and>
     async_retry attempts base_delay max_delay catches func =
       (func d, map (\<lambda>k. min (base_delay * 2 ^ k) max_delay) [0..<d - 1]) \<and>
     (\<forall>i\<in>{1..<d}. \<exists>e. func i = Inl e \<and> catches e) \<and>
     (d < nat attempts \<longrightarrow> (\<forall>e. func d = Inl e \<longrightarrow> \<not> catches e)))"
proof -
  assume "1 \<le> attempts"
  then obtain left where l: "nat attempts = Suc left" by (cases "nat attempts") auto
  have before: "\<forall>i\<in>{a..<decisive catches func a k}. \<exists>e. func i = Inl e \<and> catches e" for a k
  proof (induction k arbitrary: a)
    case (Suc k)
    show ?case
    proof (cases "\<exists>e. func a = Inl e \<and> catches e")
      case True
      with Suc.IH [of "Suc a"] show ?thesis
        by (auto simp: le_eq_less_or_eq)
    next
      case False
      then have "decisive catches func a (Suc k) = a" by (auto split: sum.splits)
      then show ?thesis by simp
    qed
  qed simp
  have at: "decisive catches func a k < a + k \<Longrightarrow> func (decisive catches func a k) = Inl e \<Longrightarrow> \<not> catches e"
    for a k e
  proof (induction k arbitrary: a)
    case (Suc k)
    then show ?case using Suc.IH [of "Suc a"] by (auto split: sum.splits if_splits)
  qed simp
  let ?d = "decisive catches func 1 left"
  have "1 \<le> ?d" "?d \<le> nat attempts"
    using decisive_ge [of 1] decisive_le [of catches func 1 left] l by simp_all
  moreover have "async_retry attempts base_delay max_delay catches func =
      (func ?d, map (\<lambda>k. min (base_delay * 2 ^ k) max_delay) [0..<?d - 1])"
    unfolding async_retry_def l by (rule retry_from_spec)
  moreover have "?d < nat attempts \<longrightarrow> (\<forall>e. func ?d = Inl e \<longrightarrow> \<not> catches e)"
    using at [of 1 left] l by auto
  ultimately show ?thesis using before [of 1 left] by blast
qed

theorem retry_spec_witness:
  "\<exists>d. 1 \<le> d \<and> d \<le> (3::nat) \<and>
     async_retry 3 1 5 (\<lambda>e. True) (\<lambda>i. if i < 3 then Inl (PyExc OtherError ''timeout'') else Inr i) =
       ((if d < 3 then Inl (PyExc OtherError ''timeout'') else Inr d),
        map (\<lambda>k. min (1 * 2 ^ k) 5) [0..<d - 1])"
  using retry_spec [of 3 1 5 "\<lambda>e. True" "\<lambda>i. if i < 3 then Inl (PyExc OtherError ''timeout'') else Inr i"]
  by auto

end
