(* ===== verification/Collectors.thy ===== *)
theory Collectors
  imports Resilience IocTypes PyStr
begin

text \<open>
  Threat-feed collectors: \<open>app/collectors\<close>.  A feed's HTTP exchange is a parameter - how each
  try of the request ends - and so are feedparser's entries.  What a provider sends is JSON of
  any shape: the normalisers read it as the code does, an access that Python would refuse
  raising, so a value or a tag of an indicator is still JSON.
\<close>

section \<open>Indicators and samples\<close>

record collected_indicator =
  ci_value :: json
  ci_source :: string
  ci_confidence :: confidence
  ci_severity :: severity
  ci_tags :: "json list"
  ci_references :: "json list"
  ci_description :: json
  ci_first_seen :: "real option"
  ci_last_seen :: "real option"
  ci_raw :: json

definition collected ::
  "json \<Rightarrow> string \<Rightarrow> confidence \<Rightarrow> severity \<Rightarrow> json list \<Rightarrow> json list \<Rightarrow> json \<Rightarrow> json \<Rightarrow> collected_indicator" where
  "collected v source c s tags references description raw =
     \<lparr>ci_value = v, ci_source = source, ci_confidence = c, ci_severity = s, ci_tags = tags,
      ci_references = references, ci_description = description, ci_first_seen = None,
      ci_last_seen = None, ci_raw = raw\<rparr>"

definition sample ::
  "string \<Rightarrow> string \<Rightarrow> confidence \<Rightarrow> severity \<Rightarrow> string list \<Rightarrow> string list \<Rightarrow> string \<Rightarrow>
   (string \<times> json) list \<Rightarrow> collected_indicator" where
  "sample v source c s tags references description raw =
     collected (JStr v) source c s (map JStr tags) (map JStr references) (JStr description) (JObj raw)"

definition samples :: "(string \<times> collected_indicator list) list" where
  "samples =
     [(''abuseipdb'',
       [sample ''198.51.100.23'' ''abuseipdb'' CHigh SevHigh
          [''bruteforce'', ''ssh''] []
          ''SSH brute-force source (sample).''
          [(''abuseConfidenceScore'', JInt 92), (''totalReports'', JInt 148), (''countryCode'', JStr ''RU'')],
        sample ''203.0.113.77'' ''abuseipdb'' CMedium SevMedium
          [''scanner''] []
          ''Port scanner (sample).''
          [(''abuseConfidenceScore'', JInt 55), (''totalReports'', JInt 20), (''countryCode'', JStr ''CN'')]]),
      (''urlhaus'',
       [sample ''http://malware-drop.example/payload.bin'' ''urlhaus'' CHigh SevCritical
          [''malware_download'', ''elf''] [''https://urlhaus.abuse.ch/'']
          ''Malware distribution URL (sample).''
          [(''threat'', JStr ''malware_download''), (''url_status'', JStr ''online'')]]),
      (''malwarebazaar'',
       [sample ''44d88612fea8a8f36de82e1278abb02f'' ''malwarebazaar'' CConfirmed SevCritical
          [''trojan'', ''agenttesla''] []
          ''AgentTesla sample (EICAR-style test hash).''
          [(''file_type'', JStr ''exe''), (''signature'', JStr ''AgentTesla'')]]),
      (''otx'',
       [sample ''phishing-login.example'' ''otx'' CMedium SevHigh
          [''phishing'', ''credential_harvesting''] []
          ''Phishing landing domain (sample).''
          [(''pulse'', JStr ''Credential Phishing Campaign'')]]),
      (''cisa_kev'',
       [sample ''CVE-2021-44228'' ''cisa_kev'' CConfirmed SevCritical
          [''kev'', ''rce'', ''log4j''] [''https://www.cisa.gov/known-exploited-vulnerabilities-catalog'']
          (''Apache Log4j2 RCE (Log4Shell) '' @ [CHR 0xE2, CHR 0x80, CHR 0x94] @ '' known exploited.'')
          [(''vendorProject'', JStr ''Apache''), (''product'', JStr ''Log4j2''), (''knownRansomwareUse'', JStr ''Known'')]]),
      (''rss'',
       [sample ''CVE-2024-3400'' ''rss'' CHigh SevHigh
          [''advisory'', ''firewall''] []
          ''Sample advisory feed item referencing a CVE.''
          [(''title'', JStr ''Critical firewall advisory'')]])]"

text \<open>Python's \<open>xs[:limit]\<close>.\<close>

definition slice_to :: "int \<Rightarrow> 'a list \<Rightarrow> 'a list" where
  "slice_to n xs = (if 0 \<le> n then take (nat n) xs else take (length xs - nat (- n)) xs)"

definition sample_for :: "string \<Rightarrow> int \<Rightarrow> collected_indicator list" where
  "sample_for collector limit =
     slice_to limit (case map_of samples collector of Some xs \<Rightarrow> xs | None \<Rightarrow> [])"

section \<open>The HTTP client\<close>

text \<open>A response is its status and what \<open>resp.json()\<close> gives.\<close>

type_synonym exchange = "nat \<Rightarrow> exn + (int \<times> (exn + json))"

definition exn_text :: "exn \<Rightarrow> string" where
  "exn_text e = (case e of AppExc _ m _ \<Rightarrow> m | PyExc _ m \<Rightarrow> m)"

definition provider_request :: "(exn \<Rightarrow> bool) \<Rightarrow> string \<Rightarrow> exchange \<Rightarrow> exn + json" where
  "provider_request is_transport provider request =
     (case fst (async_retry 3 (2 / 10) 5 is_transport request) of
        Inl e \<Rightarrow>
          if is_transport e
          then Inl (raise_app CollectorUnavailableError
                 (Some (provider @ '' is unreachable: '' @ exn_text e)) [(''provider'', JStr provider)])
          else Inl e
      | Inr (status, body) \<Rightarrow>
          if status \<ge> 500
          then Inl (raise_app CollectorUnavailableError
                 (Some (provider @ '' returned '' @ show_int status)) [(''provider'', JStr provider)])
          else if status \<ge> 400
          then Inl (raise_app CollectorError (Some (provider @ '' returned '' @ show_int status))
                 [(''provider'', JStr provider), (''status'', JInt status)])
          else body)"

text \<open>The call goes through the breaker \<open>collector:<provider>\<close>: admitted at \<open>t1\<close>, over at \<open>t2\<close>.\<close>

definition get_json ::
  "(exn \<Rightarrow> bool) \<Rightarrow> string \<Rightarrow> exchange \<Rightarrow> real \<Rightarrow> real \<Rightarrow> breakers \<Rightarrow> (exn + json) \<times> breakers" where
  "get_json is_transport provider request t1 t2 reg =
     (let name = ''collector:'' @ provider;
          (b, reg1) = get_circuit_breaker name 5 30 reg;
          (out, b') = cb_call t1 (case provider_request is_transport provider request of
             Inl e \<Rightarrow> Raised e | Inr j \<Rightarrow> Returned j) t2 b
      in (case out of Returned j \<Rightarrow> Inr j | Raised e \<Rightarrow> Inl e | Cancelled \<Rightarrow> Inl (PyExc OtherError []),
          reg1(name \<mapsto> b')))"

section \<open>Reading provider JSON\<close>

definition attribute_error :: exn where "attribute_error = PyExc AttributeError ''get''"
definition type_error :: exn where "type_error = PyExc TypeError []"

text \<open>\<open>x.get(k, default)\<close>, \<open>x[k]\<close>, iteration over a list, \<open>int(x)\<close>, \<open>tuple(x or ())\<close>.\<close>

definition get_or :: "string \<Rightarrow> json \<Rightarrow> json \<Rightarrow> exn + json" where
  "get_or k dflt x =
     (case x of JObj d \<Rightarrow> Inr (case jget k d of Some v \<Rightarrow> v | None \<Rightarrow> dflt) | _ \<Rightarrow> Inl attribute_error)"

definition item :: "string \<Rightarrow> json \<Rightarrow> exn + json" where
  "item k x = (case x of
     JObj d \<Rightarrow> (case jget k d of Some v \<Rightarrow> Inr v | None \<Rightarrow> Inl (PyExc KeyError k))
   | _ \<Rightarrow> Inl type_error)"

definition as_list :: "json \<Rightarrow> exn + json list" where
  "as_list x = (case x of
     JArr xs \<Rightarrow> Inr xs
   | JStr s \<Rightarrow> Inr (map (\<lambda>c. JStr [c]) s)
   | JObj d \<Rightarrow> Inr (map (\<lambda>(k, v). JStr k) d)
   | _ \<Rightarrow> Inl type_error)"

text \<open>A slice of a list or a text; of anything else it raises.\<close>

definition sliced :: "int \<Rightarrow> json \<Rightarrow> exn + json list" where
  "sliced n x = (case x of
     JArr xs \<Rightarrow> Inr (slice_to n xs)
   | JStr s \<Rightarrow> Inr (slice_to n (map (\<lambda>c. JStr [c]) s))
   | _ \<Rightarrow> Inl type_error)"

definition int_of :: "json \<Rightarrow> exn + int" where
  "int_of x = (case x of
     JInt n \<Rightarrow> Inr n
   | JReal r \<Rightarrow> Inr (if 0 \<le> r then \<lfloor>r\<rfloor> else \<lceil>r\<rceil>)
   | JBool b \<Rightarrow> Inr (if b then 1 else 0)
   | JStr s \<Rightarrow> (let t = py_strip s in
       if py_isdigit t then Inr (int_of_digits t) else Inl (PyExc ValueError ''int''))
   | _ \<Rightarrow> Inl type_error)"

definition tuple_or_empty :: "json \<Rightarrow> exn + json list" where
  "tuple_or_empty x = (if truthy x then as_list x else Inr [])"

section \<open>Normalisers\<close>

text \<open>\<open>None\<close> for a row that is skipped.\<close>

fun rows_to :: "(json \<Rightarrow> exn + collected_indicator option) \<Rightarrow> json list \<Rightarrow> exn + collected_indicator list" where
  "rows_to f [] = Inr []"
| "rows_to f (r # rs) =
     bindE (f r) (\<lambda>x. bindE (rows_to f rs) (\<lambda>xs. Inr ((case x of None \<Rightarrow> [] | Some i \<Rightarrow> [i]) @ xs)))"

definition abuseipdb_row :: "json \<Rightarrow> exn + collected_indicator option" where
  "abuseipdb_row row =
     bindE (get_or ''abuseConfidenceScore'' (JInt 0) row) (\<lambda>sc0.
     bindE (int_of sc0) (\<lambda>sc.
     bindE (item ''ipAddress'' row) (\<lambda>v.
     Inr (Some (collected v ''abuseipdb'' (if sc \<ge> 90 then CHigh else CMedium)
       (if sc \<ge> 90 then SevHigh else SevMedium) [JStr ''blacklist''] [] JNull row)))))"

definition abuseipdb_live :: "int \<Rightarrow> json \<Rightarrow> exn + collected_indicator list" where
  "abuseipdb_live limit data =
     bindE (get_or ''data'' (JArr []) data) (\<lambda>rows.
     bindE (sliced limit rows) (rows_to abuseipdb_row))"

text \<open>URLHaus: the first entry of each id; a list that is full ends the loop.\<close>

fun urlhaus_rows :: "int \<Rightarrow> collected_indicator list \<Rightarrow> json list \<Rightarrow> exn + collected_indicator list" where
  "urlhaus_rows limit out [] = Inr out"
| "urlhaus_rows limit out (es # rest) =
     (let entry = (case es of JArr (e # _) \<Rightarrow> e | _ \<Rightarrow> JObj []) in
      bindE (get_or ''url'' JNull entry) (\<lambda>url.
      if \<not> truthy url then urlhaus_rows limit out rest
      else bindE (get_or ''tags'' JNull entry) (\<lambda>tags0.
           bindE (tuple_or_empty tags0) (\<lambda>tags.
           bindE (get_or ''threat'' JNull entry) (\<lambda>threat.
           let out' = out @ [collected url ''urlhaus'' CHigh SevCritical tags
                 [JStr ''https://urlhaus.abuse.ch/''] threat entry]
           in if int (length out') \<ge> limit then Inr out' else urlhaus_rows limit out' rest)))))"

definition urlhaus_live :: "int \<Rightarrow> json \<Rightarrow> exn + collected_indicator list" where
  "urlhaus_live limit data =
     (case data of
        JObj d \<Rightarrow> urlhaus_rows limit [] (slice_to limit (map snd d))
      | _ \<Rightarrow> Inl attribute_error)"

definition malwarebazaar_row :: "json \<Rightarrow> exn + collected_indicator option" where
  "malwarebazaar_row row =
     bindE (get_or ''sha256_hash'' JNull row) (\<lambda>h.
     if \<not> truthy h then Inr None
     else bindE (get_or ''tags'' JNull row) (\<lambda>tags0.
          bindE (tuple_or_empty tags0) (\<lambda>tags.
          bindE (get_or ''signature'' JNull row) (\<lambda>signature.
          Inr (Some (collected h ''malwarebazaar'' CConfirmed SevCritical tags [] signature row))))))"

definition malwarebazaar_live :: "int \<Rightarrow> json \<Rightarrow> exn + collected_indicator list" where
  "malwarebazaar_live limit data =
     bindE (get_or ''data'' (JArr []) data) (\<lambda>rows.
     bindE (sliced limit rows) (rows_to malwarebazaar_row))"

text \<open>OTX: the indicators of every pulse, until the list is full (\<open>Inr (Inl out)\<close>).\<close>

fun otx_indicators ::
  "int \<Rightarrow> json \<Rightarrow> collected_indicator list \<Rightarrow> json list \<Rightarrow>
   exn + (collected_indicator list + collected_indicator list)" where
  "otx_indicators limit pulse out [] = Inr (Inr out)"
| "otx_indicators limit pulse out (ind # rest) =
     bindE (get_or ''indicator'' JNull ind) (\<lambda>v.
     if \<not> truthy v then otx_indicators limit pulse out rest
     else bindE (get_or ''tags'' JNull pulse) (\<lambda>tags0.
          bindE (tuple_or_empty tags0) (\<lambda>tags.
          bindE (get_or ''name'' JNull pulse) (\<lambda>name.
          let out' = out @ [collected v ''otx'' CMedium SevHigh tags [] name ind]
          in if int (length out') \<ge> limit then Inr (Inl out')
             else otx_indicators limit pulse out' rest))))"

fun otx_pulses :: "int \<Rightarrow> collected_indicator list \<Rightarrow> json list \<Rightarrow> exn + collected_indicator list" where
  "otx_pulses limit out [] = Inr out"
| "otx_pulses limit out (pulse # rest) =
     bindE (get_or ''indicators'' (JArr []) pulse) (\<lambda>inds0.
     bindE (as_list inds0) (\<lambda>inds.
     bindE (otx_indicators limit pulse out inds) (\<lambda>r.
     case r of Inl full \<Rightarrow> Inr full | Inr out' \<Rightarrow> otx_pulses limit out' rest)))"

definition otx_live :: "int \<Rightarrow> json \<Rightarrow> exn + collected_indicator list" where
  "otx_live limit data =
     bindE (get_or ''results'' (JArr []) data) (\<lambda>results.
     bindE (as_list results) (otx_pulses limit []))"

definition cisa_kev_row :: "json \<Rightarrow> exn + collected_indicator option" where
  "cisa_kev_row row =
     bindE (get_or ''cveID'' JNull row) (\<lambda>cve.
     if \<not> truthy cve then Inr None
     else bindE (get_or ''vulnerabilityName'' JNull row) (\<lambda>name.
          Inr (Some (collected cve ''cisa_kev'' CConfirmed SevCritical [JStr ''kev'']
            [JStr ''https://www.cisa.gov/known-exploited-vulnerabilities-catalog''] name row))))"

definition cisa_kev_live :: "int \<Rightarrow> json \<Rightarrow> exn + collected_indicator list" where
  "cisa_kev_live limit data =
     bindE (get_or ''vulnerabilities'' (JArr []) data) (\<lambda>rows.
     bindE (sliced limit rows) (rows_to cisa_kev_row))"

text \<open>RSS: the entries feedparser finds, for each of the feeds.\<close>

definition feeds :: "string list" where
  "feeds = [''https://www.cisa.gov/cybersecurity-advisories/all.xml'']"

fun rss_entries ::
  "int \<Rightarrow> collected_indicator list \<Rightarrow> json list \<Rightarrow>
   exn + (collected_indicator list + collected_indicator list)" where
  "rss_entries limit out [] = Inr (Inr out)"
| "rss_entries limit out (entry # rest) =
     bindE (get_or ''title'' (JStr ''advisory'') entry) (\<lambda>title.
     bindE (get_or ''link'' (JStr []) entry) (\<lambda>link.
     bindE (get_or ''summary'' JNull entry) (\<lambda>summary.
     let out' = out @ [collected title ''rss'' CMedium SevMedium [JStr ''advisory''] [link] summary
           (JObj [(''title'', title)])]
     in if int (length out') \<ge> limit then Inr (Inl out') else rss_entries limit out' rest)))"

fun rss_live ::
  "(string \<Rightarrow> exn + json list) \<Rightarrow> int \<Rightarrow> collected_indicator list \<Rightarrow> string list \<Rightarrow>
   exn + collected_indicator list" where
  "rss_live parsed limit out [] = Inr out"
| "rss_live parsed limit out (feed # rest) =
     bindE (parsed feed) (\<lambda>entries.
     bindE (rss_entries limit out (slice_to limit entries)) (\<lambda>r.
     case r of Inl full \<Rightarrow> Inr full | Inr out' \<Rightarrow> rss_live parsed limit out' rest))"

section \<open>Collectors\<close>

record collector_info =
  inf_name :: string
  inf_label :: string
  inf_category :: string
  inf_requires_key :: bool
  inf_fmt :: string

definition supported_collectors :: "collector_info list" where
  "supported_collectors =
     [\<lparr>inf_name = ''abuseipdb'', inf_label = ''AbuseIPDB'', inf_category = ''ip'', inf_requires_key = True, inf_fmt = ''json''\<rparr>,
      \<lparr>inf_name = ''urlhaus'', inf_label = ''URLHaus'', inf_category = ''url'', inf_requires_key = False, inf_fmt = ''json''\<rparr>,
      \<lparr>inf_name = ''malwarebazaar'', inf_label = ''MalwareBazaar'', inf_category = ''hash'', inf_requires_key = False, inf_fmt = ''json''\<rparr>,
      \<lparr>inf_name = ''otx'', inf_label = ''AlienVault OTX'', inf_category = ''ip'', inf_requires_key = True, inf_fmt = ''json''\<rparr>,
      \<lparr>inf_name = ''cisa_kev'', inf_label = ''CISA KEV'', inf_category = ''vuln'', inf_requires_key = False, inf_fmt = ''json''\<rparr>,
      \<lparr>inf_name = ''rss'', inf_label = ''Security RSS'', inf_category = ''advisory'', inf_requires_key = False, inf_fmt = ''rss''\<rparr>]"

definition get_info :: "string \<Rightarrow> collector_info option" where
  "get_info name = find (\<lambda>i. inf_name i = py_lower name) supported_collectors"

definition is_supported :: "string \<Rightarrow> bool" where
  "is_supported name = (get_info name \<noteq> None)"

text \<open>The classes of \<open>COLLECTOR_CLASSES\<close>, by name and with their \<open>requires_key\<close>.\<close>

definition collector_classes :: "(string \<times> bool) list" where
  "collector_classes =
     [(''abuseipdb'', True), (''urlhaus'', False), (''malwarebazaar'', False), (''otx'', True),
      (''cisa_kev'', False), (''rss'', False)]"

record collector =
  co_name :: string
  co_requires_key :: bool
  co_api_key :: string

definition key_providers :: "(string \<times> string) list" where
  "key_providers = [(''abuseipdb'', ''abuseipdb''), (''otx'', ''otx'')]"

definition build_collector :: "(string \<Rightarrow> string) \<Rightarrow> string \<Rightarrow> exn + collector" where
  "build_collector provider_key name0 =
     (let name = py_lower name0 in
      case (get_info name, map_of collector_classes name) of
        (Some info, Some requires) \<Rightarrow>
          Inr \<lparr>co_name = name, co_requires_key = requires,
               co_api_key = (if inf_requires_key info
                 then provider_key (case map_of key_providers name of Some p \<Rightarrow> p | None \<Rightarrow> name) else [])\<rparr>
      | _ \<Rightarrow> Inl (raise_app ValidationError (Some (''Unsupported collector: '' @ name)) []))"

definition collector_is_live :: "bool \<Rightarrow> collector \<Rightarrow> bool" where
  "collector_is_live enable_live c \<longleftrightarrow> enable_live \<and> \<not> (co_requires_key c \<and> co_api_key c = [])"

text \<open>What a live run reads from outside: the JSON of \<open>get_json\<close>, and the parsed feeds.\<close>

record outside =
  out_json :: "exn + json"
  out_feeds :: "string \<Rightarrow> exn + json list"

definition collect_live :: "outside \<Rightarrow> string \<Rightarrow> int \<Rightarrow> exn + collected_indicator list" where
  "collect_live O' name limit =
     (if name = ''rss'' then rss_live (out_feeds O') limit [] feeds
      else bindE (out_json O') (\<lambda>data.
        if name = ''abuseipdb'' then abuseipdb_live limit data
        else if name = ''urlhaus'' then urlhaus_live limit data
        else if name = ''malwarebazaar'' then malwarebazaar_live limit data
        else if name = ''otx'' then otx_live limit data
        else cisa_kev_live limit data))"

definition collect :: "bool \<Rightarrow> outside \<Rightarrow> collector \<Rightarrow> int \<Rightarrow> collected_indicator list" where
  "collect enable_live O' c limit =
     (if \<not> collector_is_live enable_live c then sample_for (co_name c) limit
      else case collect_live O' (co_name c) limit of
        Inr out \<Rightarrow> out
      | Inl _ \<Rightarrow> sample_for (co_name c) limit)"

section \<open>Lemmas\<close>

text \<open>At most \<open>limit\<close> indicators, all from the source \<open>s\<close>.\<close>

definition held_within :: "int \<Rightarrow> string \<Rightarrow> collected_indicator list \<Rightarrow> bool" where
  "held_within limit s out \<longleftrightarrow> int (length out) \<le> limit \<and> (\<forall>i\<in>set out. ci_source i = s)"

lemma within_Nil: "1 \<le> limit \<Longrightarrow> held_within limit s []"
  by (simp add: held_within_def)

lemma within_snoc: "held_within limit s out \<Longrightarrow> int (length out) < limit \<Longrightarrow> ci_source i = s \<Longrightarrow> held_within limit s (out @ [i])"
  by (auto simp: held_within_def)

lemma collected_source [simp]: "ci_source (collected v s c sv ts rs desc raw) = s"
  by (simp add: collected_def)

lemma rows_to_within:
  assumes f: "\<And>r i. f r = Inr (Some i) \<Longrightarrow> ci_source i = s"
  shows "rows_to f rs = Inr out \<Longrightarrow> length out \<le> length rs \<and> (\<forall>i\<in>set out. ci_source i = s)"
proof (induction rs arbitrary: out)
  case (Cons r rs)
  then obtain x xs where "f r = Inr x" "rows_to f rs = Inr xs"
    "out = (case x of None \<Rightarrow> [] | Some i \<Rightarrow> [i]) @ xs" by (auto simp: bindE_Inr_iff)
  with Cons.IH [of xs] f show ?case by (auto split: option.splits)
qed simp

lemma length_slice: "0 \<le> limit \<Longrightarrow> int (length (slice_to limit xs)) \<le> limit"
  by (simp add: slice_to_def)

lemma sliced_length: "sliced limit j = Inr rs \<Longrightarrow> 0 \<le> limit \<Longrightarrow> int (length rs) \<le> limit"
  by (auto simp: sliced_def length_slice split: json.splits)

lemma row_sources:
  "abuseipdb_row r = Inr (Some i) \<Longrightarrow> ci_source i = ''abuseipdb''"
  "malwarebazaar_row r = Inr (Some i) \<Longrightarrow> ci_source i = ''malwarebazaar''"
  "cisa_kev_row r = Inr (Some i) \<Longrightarrow> ci_source i = ''cisa_kev''"
  by (auto simp: abuseipdb_row_def malwarebazaar_row_def cisa_kev_row_def bindE_Inr_iff split: if_splits)

lemma sliced_rows_within:
  assumes f: "\<And>r i. f r = Inr (Some i) \<Longrightarrow> ci_source i = s" and l: "1 \<le> limit"
    and run: "bindE (get_or k dflt data) (\<lambda>rows. bindE (sliced limit rows) (rows_to f)) = Inr out"
  shows "held_within limit s out"
proof -
  from run obtain rows rs where "sliced limit rows = Inr rs" "rows_to f rs = Inr out"
    by (auto simp: bindE_Inr_iff)
  with rows_to_within [of f s rs out] f sliced_length [of limit rows rs] l show ?thesis
    by (auto simp: held_within_def)
qed

lemma urlhaus_within:
  "urlhaus_rows limit out rows = Inr out' \<Longrightarrow> held_within limit ''urlhaus'' out \<Longrightarrow> int (length out) < limit \<Longrightarrow>
   held_within limit ''urlhaus'' out'"
proof (induction rows arbitrary: out)
  case (Cons es rows)
  from Cons.prems show ?case
    by (auto simp: Let_def bindE_Inr_iff within_snoc split: if_splits)
      (erule Cons.IH; simp add: within_snoc)+
qed auto

lemma otx_indicators_within:
  "otx_indicators limit pulse out inds = Inr r \<Longrightarrow> held_within limit ''otx'' out \<Longrightarrow> int (length out) < limit \<Longrightarrow>
   (case r of Inl full \<Rightarrow> held_within limit ''otx'' full
    | Inr out1 \<Rightarrow> held_within limit ''otx'' out1 \<and> int (length out1) < limit)"
proof (induction inds arbitrary: out)
  case (Cons ind inds)
  from Cons.prems show ?case
    by (auto simp: Let_def bindE_Inr_iff within_snoc split: if_splits)
      (erule Cons.IH; simp add: within_snoc)+
qed auto

lemma otx_within:
  "otx_pulses limit out pulses = Inr out' \<Longrightarrow> held_within limit ''otx'' out \<Longrightarrow> int (length out) < limit \<Longrightarrow>
   held_within limit ''otx'' out'"
proof (induction pulses arbitrary: out)
  case (Cons pulse pulses)
  from Cons.prems obtain inds r where r: "otx_indicators limit pulse out inds = Inr r"
    "(case r of Inl full \<Rightarrow> Inr full | Inr out1 \<Rightarrow> otx_pulses limit out1 pulses) = Inr out'"
    by (auto simp: bindE_Inr_iff)
  from otx_indicators_within [OF r(1) Cons.prems(2,3)] r(2) Cons.IH show ?case
    by (auto split: sum.splits)
qed auto

lemma rss_entries_within:
  "rss_entries limit out es = Inr r \<Longrightarrow> held_within limit ''rss'' out \<Longrightarrow> int (length out) < limit \<Longrightarrow>
   (case r of Inl full \<Rightarrow> held_within limit ''rss'' full
    | Inr out1 \<Rightarrow> held_within limit ''rss'' out1 \<and> int (length out1) < limit)"
proof (induction es arbitrary: out)
  case (Cons e es)
  from Cons.prems show ?case
    by (auto simp: Let_def bindE_Inr_iff within_snoc split: if_splits)
      (erule Cons.IH; simp add: within_snoc)+
qed auto

lemma rss_within:
  "rss_live parsed limit out fs = Inr out' \<Longrightarrow> held_within limit ''rss'' out \<Longrightarrow> int (length out) < limit \<Longrightarrow>
   held_within limit ''rss'' out'"
proof (induction fs arbitrary: out)
  case (Cons f fs)
  from Cons.prems obtain es r where r: "rss_entries limit out es = Inr r"
    "(case r of Inl full \<Rightarrow> Inr full | Inr out1 \<Rightarrow> rss_live parsed limit out1 fs) = Inr out'"
    by (auto simp: bindE_Inr_iff)
  from rss_entries_within [OF r(1) Cons.prems(2,3)] r(2) Cons.IH show ?case
    by (auto split: sum.splits)
qed auto

lemma built_names:
  "build_collector pk n = Inr c \<Longrightarrow> co_name c \<in> fst ` set collector_classes"
  by (auto simp: build_collector_def Let_def split: option.splits if_splits dest!: map_of_SomeD)
    (metis fst_conv image_eqI)+

lemma live_within:
  assumes "co_name c \<in> fst ` set collector_classes" "1 \<le> limit" "collect_live Out (co_name c) limit = Inr out"
  shows "held_within limit (co_name c) out"
proof -
  note rows = abuseipdb_live_def malwarebazaar_live_def cisa_kev_live_def
  from assms consider "co_name c = ''rss''" | "co_name c = ''abuseipdb''" | "co_name c = ''urlhaus''" |
    "co_name c = ''malwarebazaar''" | "co_name c = ''otx''" | "co_name c = ''cisa_kev''"
    by (auto simp: collector_classes_def)
  then show ?thesis
  proof cases
    case 1
    with assms rss_within [of "out_feeds Out" limit "[]"] show ?thesis
      by (auto simp: collect_live_def within_Nil)
  next
    case 2
    with assms obtain d where "abuseipdb_live limit d = Inr out"
      by (auto simp: collect_live_def bindE_Inr_iff)
    with 2 sliced_rows_within [OF row_sources(1) assms(2)] show ?thesis by (simp add: rows)
  next
    case 3
    with assms obtain d where "urlhaus_live limit d = Inr out"
      by (auto simp: collect_live_def bindE_Inr_iff)
    with 3 assms(2) urlhaus_within [of limit "[]"] show ?thesis
      by (auto simp: urlhaus_live_def within_Nil split: json.splits)
  next
    case 4
    with assms obtain d where "malwarebazaar_live limit d = Inr out"
      by (auto simp: collect_live_def bindE_Inr_iff)
    with 4 sliced_rows_within [OF row_sources(2) assms(2)] show ?thesis by (simp add: rows)
  next
    case 5
    with assms obtain d where "otx_live limit d = Inr out"
      by (auto simp: collect_live_def bindE_Inr_iff)
    with 5 assms(2) otx_within [of limit "[]"] show ?thesis
      by (auto simp: otx_live_def bindE_Inr_iff within_Nil)
  next
    case 6
    with assms obtain d where "cisa_kev_live limit d = Inr out"
      by (auto simp: collect_live_def bindE_Inr_iff)
    with 6 sliced_rows_within [OF row_sources(3) assms(2)] show ?thesis by (simp add: rows)
  qed
qed

lemma sample_within: "1 \<le> limit \<Longrightarrow> held_within limit name (sample_for name limit)"
proof -
  have "list_all (\<lambda>(n, xs). list_all (\<lambda>i. ci_source i = n) xs) samples"
    by (simp add: samples_def sample_def)
  then have "map_of samples name = Some xs \<Longrightarrow> \<forall>i\<in>set xs. ci_source i = name" for xs
    by (auto simp: list_all_iff dest!: map_of_SomeD)
  moreover assume "1 \<le> limit"
  ultimately show ?thesis
    by (auto simp: held_within_def sample_for_def slice_to_def split: option.splits dest: in_set_takeD)
qed

section \<open>Properties\<close>

text \<open>C37: Collection degrades, it never fails: a collector that is switched off, has no key or whose
  source raises anything serves its bundled samples, whatever the network would answer; live or
  not it returns at most the number of indicators asked for, all named after their source.\<close>

theorem collect_contract:
  "build_collector provider_key name = Inr c \<Longrightarrow> 1 \<le> limit \<Longrightarrow>
   int (length (collect enable_live Out c limit)) \<le> limit \<and>
   (\<forall>i\<in>set (collect enable_live Out c limit). ci_source i = co_name c) \<and>
   (\<not> enable_live \<or> co_requires_key c \<and> co_api_key c = [] \<or>
      (\<exists>e. collect_live Out (co_name c) limit = Inl e) \<longrightarrow>
    collect enable_live Out c limit = sample_for (co_name c) limit)"
proof -
  assume b: "build_collector provider_key name = Inr c" and l: "1 \<le> limit"
  have "held_within limit (co_name c) (collect enable_live Out c limit)"
    using live_within [OF built_names [OF b] l] sample_within [OF l]
    by (auto simp: collect_def split: sum.splits)
  then show ?thesis
    by (auto simp: held_within_def collect_def collector_is_live_def split: sum.splits)
qed

theorem collect_contract_witness:
  "int (length (collect True \<lparr>out_json = Inl attribute_error, out_feeds = (\<lambda>f. Inr [])\<rparr>
     \<lparr>co_name = ''urlhaus'', co_requires_key = False, co_api_key = []\<rparr> 1)) \<le> 1"
proof -
  have "build_collector (\<lambda>p. []) ''URLhaus'' =
      Inr \<lparr>co_name = ''urlhaus'', co_requires_key = False, co_api_key = []\<rparr>" by code_simp
  from collect_contract [OF this, of 1] show ?thesis by simp
qed

end
