(* ===== verification/Ioc.thy ===== *)
theory Ioc
  imports Enrichment Correlation Alerts Extract Collectors
    "HOL-Library.Char_ord" "HOL-Library.List_Lexorder"
begin

text \<open>
  The life of an indicator: classify, enrich, score, store, correlate, alert
  (\<open>app/services/ioc_service.py\<close>, \<open>app/repositories/enrichment_repository.py\<close> and the lookups
  of \<open>app/repositories/ioc_repository.py\<close>).  Texts are ordered as Python orders them, by code
  point.  Stored times are taken as UTC, so \<open>first_seen\<close> is a number of seconds.
\<close>

section \<open>Collaborators and requests\<close>

text \<open>\<open>IOCService.__init__\<close>: the alert service is optional.\<close>

record ioc_deps =
  io_env :: env
  io_enrich :: enrich_env
  io_alerts :: "alert_env option"

text \<open>The keyword arguments of \<open>upsert\<close>; \<open>None\<close> and \<open>[]\<close> are the same list to it.\<close>

record ioc_request =
  rq_value :: string
  rq_source :: string
  rq_confidence :: confidence
  rq_severity :: severity
  rq_tags :: "string list"
  rq_references :: "string list"
  rq_description :: "string option"
  rq_enrich :: bool
  rq_user :: "string option"

fun confidence_float :: "confidence \<Rightarrow> real" where
  "confidence_float CUnknown = 2 / 10"
| "confidence_float CLow = 4 / 10"
| "confidence_float CMedium = 6 / 10"
| "confidence_float CHigh = 8 / 10"
| "confidence_float CConfirmed = 1"

definition reputable :: "string list" where
  "reputable = [''abuseipdb'', ''urlhaus'', ''malwarebazaar'', ''otx'', ''cisa_kev'', ''virustotal'']"

definition ref_type_for_host :: "string \<Rightarrow> string" where
  "ref_type_for_host host =
     (case ip_address host of
        None \<Rightarrow> ioc_type_value Domain
      | Some ip \<Rightarrow> if ip_version ip = 6 then ioc_type_value Ipv6 else ioc_type_value Ipv4)"

text \<open>\<open>sorted(set(xs))\<close>.\<close>

definition sorted_set :: "string list \<Rightarrow> string list" where
  "sorted_set xs = sort (remdups xs)"

section \<open>Repositories\<close>

definition ioc_key :: "ioc_row \<Rightarrow> string \<times> string" where
  "ioc_key r = (ioc_kind r, ioc_value r)"

definition get_by_type_value :: "string \<Rightarrow> string \<Rightarrow> (ioc_row option, 'x) eff" where
  "get_by_type_value t v = select_one (\<lambda>d. filter (\<lambda>r. ioc_key r = (t, v)) (iocs d))"

definition find_ioc :: "string \<Rightarrow> (ioc_row option, 'x) eff" where
  "find_ioc i = queryM (\<lambda>d. find (\<lambda>r. ioc_id r = i) (iocs d))"

definition add_ioc :: "env \<Rightarrow> ioc_row \<Rightarrow> (unit, 'x) eff" where
  "add_ioc E r =
     insertM E
       [(ioc_kind r, 32), (ioc_value r, 2048), (ioc_defanged r, 2100), (ioc_source r, 64),
        (ioc_confidence r, 16), (ioc_severity r, 16), (ioc_state r, 20), (ioc_level r, 16)]
       (\<lambda>d. ioc_id r \<in> set (map ioc_id (iocs d)) \<or> ioc_key r \<in> set (map ioc_key (iocs d)))
       (\<lambda>d. d\<lparr>iocs := iocs d @ [r]\<rparr>)"

definition enr_key :: "enrichment_row \<Rightarrow> string \<times> string" where
  "enr_key e = (enr_ioc e, enr_provider e)"

definition get_enrichment :: "string \<Rightarrow> string \<Rightarrow> (enrichment_row option, 'x) eff" where
  "get_enrichment i p = select_one (\<lambda>d. filter (\<lambda>e. enr_key e = (i, p)) (enrichments d))"

definition upsert_enrichment :: "env \<Rightarrow> string \<Rightarrow> string \<Rightarrow> dict \<Rightarrow> (unit, 'x) eff" where
  "upsert_enrichment E i p data =
     bindM (get_enrichment i p) (\<lambda>existing.
     case existing of
       None \<Rightarrow>
         bindM (fresh_id E) (\<lambda>k.
         insertM E [(p, 48)]
           (\<lambda>d. k \<in> set (map enr_id (enrichments d)) \<or> (i, p) \<in> set (map enr_key (enrichments d)))
           (\<lambda>d. d\<lparr>enrichments := enrichments d @
              [\<lparr>enr_id = k, enr_ioc = i, enr_provider = p, enr_data = data\<rparr>]\<rparr>))
     | Some e \<Rightarrow>
         changeM (\<lambda>d. d\<lparr>enrichments := update_where (\<lambda>x. enr_id x = enr_id e)
           (\<lambda>x. x\<lparr>enr_data := data\<rparr>) (enrichments d)\<rparr>))"

definition list_enrichments :: "string \<Rightarrow> (enrichment_row list, 'x) eff" where
  "list_enrichments i = queryM (\<lambda>d. filter (\<lambda>e. enr_ioc e = i) (enrichments d))"

section \<open>Upsert\<close>

text \<open>What age and sightings feed the signals, and the score they give.\<close>

definition sightings_of :: "ioc_row option \<Rightarrow> int" where
  "sightings_of found = (case found of Some r \<Rightarrow> ioc_sightings r + 1 | None \<Rightarrow> 1)"

definition age_days :: "real \<Rightarrow> ioc_row option \<Rightarrow> real" where
  "age_days now found =
     (case Option.bind found ioc_first_seen of None \<Rightarrow> 0 | Some t \<Rightarrow> max 0 ((now - t) / 86400))"

definition score_of :: "env \<Rightarrow> ioc_request \<Rightarrow> dict \<Rightarrow> ioc_row option \<Rightarrow> score_result" where
  "score_of E q enrichment found =
     compute_threat_score (signals_from enrichment (rq_source q) (sightings_of found)
       (age_days (now_at E) found) None (confidence_float (rq_confidence q))
       (rq_source q \<in> set reputable))"

definition new_row :: "env \<Rightarrow> ioc_request \<Rightarrow> parsed_indicator \<Rightarrow> score_result \<Rightarrow> string \<Rightarrow> ioc_row" where
  "new_row E q p sc i =
     \<lparr>ioc_id = i, ioc_kind = ioc_type_value (ptype p), ioc_value = pvalue p,
      ioc_defanged = defang (pvalue p), ioc_source = rq_source q,
      ioc_confidence = confidence_value (rq_confidence q),
      ioc_severity = severity_value (rq_severity q), ioc_state = ioc_status_value Active,
      ioc_score = score sc, ioc_level = threat_level_value (level sc), ioc_sightings = 1,
      ioc_tags = sorted_set (rq_tags q), ioc_references = rq_references q,
      ioc_description = rq_description q, ioc_first_seen = Some (now_at E),
      ioc_last_seen = Some (now_at E), ioc_updated = now_at E\<rparr>"

definition blank :: "string option \<Rightarrow> bool" where
  "blank x = (case x of None \<Rightarrow> True | Some s \<Rightarrow> s = [])"

definition seen_again :: "env \<Rightarrow> ioc_request \<Rightarrow> score_result \<Rightarrow> ioc_row \<Rightarrow> ioc_row" where
  "seen_again E q sc r =
     r\<lparr>ioc_score := score sc, ioc_level := threat_level_value (level sc),
       ioc_sightings := ioc_sightings r + 1, ioc_last_seen := Some (now_at E),
       ioc_tags := sorted_set (ioc_tags r @ rq_tags q),
       ioc_description := (if \<not> blank (rq_description q) \<and> blank (ioc_description r)
         then rq_description q else ioc_description r),
       ioc_references := (if rq_references q \<noteq> [] then sorted_set (ioc_references r @ rq_references q)
         else ioc_references r),
       ioc_updated := now_at E\<rparr>"

text \<open>The engine record: the enrichment and the score with its contributions.\<close>

definition score_json :: "score_result \<Rightarrow> json" where
  "score_json sc =
     JObj [(''score'', JInt (score sc)), (''level'', JStr (threat_level_value (level sc))),
       (''contributions'', JObj (map (\<lambda>(k, v). (k, JReal v)) (contributions sc)))]"

definition engine_payload :: "dict \<Rightarrow> score_result \<Rightarrow> dict" where
  "engine_payload enrichment sc = dict_update enrichment [(''score'', score_json sc)]"

text \<open>The derived edges.\<close>

fun resolve_edges :: "env \<Rightarrow> string \<Rightarrow> string list \<Rightarrow> (unit, 'x) eff" where
  "resolve_edges E self_ref [] = returnM ()"
| "resolve_edges E self_ref (ip # ips) =
     bindM (upsert_edge E self_ref (make_ref (ref_type_for_host ip) ip) ''resolves-to'' (8 / 10) ''dns'')
       (\<lambda>_. resolve_edges E self_ref ips)"

definition auto_correlate :: "env \<Rightarrow> ioc_type \<Rightarrow> string \<Rightarrow> dict \<Rightarrow> string \<Rightarrow> (unit, 'x) eff" where
  "auto_correlate E t v enrichment source =
     (let self_ref = make_ref (ioc_type_value t) v in
      bindM (if t = Url
             then bindM (liftM (extract_host v t)) (\<lambda>found.
               case found of
                 None \<Rightarrow> returnM ()
               | Some host \<Rightarrow>
                   if host = [] then returnM ()
                   else upsert_edge E self_ref (make_ref (ref_type_for_host host) host)
                          ''communicates-with'' (9 / 10) source)
             else returnM ())
        (\<lambda>_. resolve_edges E self_ref (reported_addresses enrichment)))"

definition store_row ::
  "env \<Rightarrow> ioc_request \<Rightarrow> parsed_indicator \<Rightarrow> score_result \<Rightarrow> ioc_row option \<Rightarrow> (ioc_row, 'x) eff" where
  "store_row E q p sc found =
     (case found of
        None \<Rightarrow>
          bindM (fresh_id E) (\<lambda>i.
          bindM (add_ioc E (new_row E q p sc i)) (\<lambda>_. returnM (new_row E q p sc i)))
      | Some r \<Rightarrow>
          bindM (changeM (\<lambda>d. d\<lparr>iocs := update_where (\<lambda>x. ioc_id x = ioc_id r)
            (\<lambda>_. seen_again E q sc r) (iocs d)\<rparr>)) (\<lambda>_. returnM (seen_again E q sc r)))"

definition alert_on :: "ioc_deps \<Rightarrow> ioc_row \<Rightarrow> (unit, 'x) eff" where
  "alert_on D r =
     (case io_alerts D of
        None \<Rightarrow> returnM ()
      | Some AE \<Rightarrow> bindM (evaluate_ioc AE r) (\<lambda>_. returnM ()))"

definition upsert :: "ioc_deps \<Rightarrow> ioc_request \<Rightarrow> (ioc_row, 'x) eff" where
  "upsert D q =
     bindM (liftM (classify_indicator (rq_value q))) (\<lambda>p.
     bindM (liftM (if rq_enrich q then enrich_indicator (io_enrich D) (ptype p) (pvalue p) else Inr []))
       (\<lambda>enrichment.
     bindM (get_by_type_value (ioc_type_value (ptype p)) (pvalue p)) (\<lambda>found.
     let E = io_env D; sc = score_of E q enrichment found in
     bindM (store_row E q p sc found) (\<lambda>r.
     bindM (upsert_enrichment E (ioc_id r) ''engine'' (engine_payload enrichment sc)) (\<lambda>_.
     bindM (auto_correlate E (ptype p) (pvalue p) enrichment (rq_source q)) (\<lambda>_.
     bindM (record_audit E (if found = None then ''ioc.create'' else ''ioc.update'') (rq_user q) None
       [(''type'', JStr (ioc_type_value (ptype p))), (''score'', JInt (score sc)),
        (''source'', JStr (rq_source q))]) (\<lambda>_.
     bindM (alert_on D r) (\<lambda>_.
     returnM r))))))))"

section \<open>Batches\<close>

text \<open>
  One item of a batch inside its savepoint.  \<open>IOCService\<close> annotates a collected indicator's
  value, tags, references and description as text; a normaliser that let other JSON through
  makes the call raise, which skips the item.
\<close>

fun text_json :: "json \<Rightarrow> string option" where
  "text_json (JStr s) = Some s"
| "text_json _ = None"

fun texts_json :: "json list \<Rightarrow> string list option" where
  "texts_json [] = Some []"
| "texts_json (j # js) =
     (case (text_json j, texts_json js) of (Some s, Some ss) \<Rightarrow> Some (s # ss) | _ \<Rightarrow> None)"

definition request_of :: "bool \<Rightarrow> collected_indicator \<Rightarrow> exn + ioc_request" where
  "request_of do_enrich ind =
     (case (text_json (ci_value ind), texts_json (ci_tags ind), texts_json (ci_references ind),
            if ci_description ind = JNull then Some None
            else map_option Some (text_json (ci_description ind))) of
        (Some v, Some ts, Some rs, Some desc) \<Rightarrow>
          Inr \<lparr>rq_value = v, rq_source = ci_source ind, rq_confidence = ci_confidence ind,
               rq_severity = ci_severity ind, rq_tags = ts, rq_references = rs,
               rq_description = desc, rq_enrich = do_enrich, rq_user = None\<rparr>
      | _ \<Rightarrow> Inl type_error)"

text \<open>\<open>try: async with begin_nested(): await upsert(...) except Exception\<close>.\<close>

definition try_upsert :: "ioc_deps \<Rightarrow> exn + ioc_request \<Rightarrow> (exn + ioc_row, 'x) eff" where
  "try_upsert D q =
     catchM (bindM (savepoint (bindM (liftM q) (upsert D))) (\<lambda>r. returnM (Inr r)))
       (\<lambda>e. returnM (Inl e))"

fun try_all :: "ioc_deps \<Rightarrow> (exn + ioc_request) list \<Rightarrow> ((exn + ioc_row) list, 'x) eff" where
  "try_all D [] = returnM []"
| "try_all D (q # qs) =
     bindM (try_upsert D q) (\<lambda>r. bindM (try_all D qs) (\<lambda>rs. returnM (r # rs)))"

definition succeeded :: "exn + 'r \<Rightarrow> bool" where
  "succeeded r = (case r of Inr _ \<Rightarrow> True | Inl _ \<Rightarrow> False)"

record ingest_summary =
  ing_ingested :: int
  ing_skipped :: int

definition ingest_from_collector ::
  "ioc_deps \<Rightarrow> bool \<Rightarrow> collected_indicator list \<Rightarrow> (ingest_summary, 'x) eff" where
  "ingest_from_collector D do_enrich inds =
     bindM (try_all D (map (request_of do_enrich) inds)) (\<lambda>rs.
     returnM \<lparr>ing_ingested = int (length (filter succeeded rs)),
              ing_skipped = int (length (filter (\<lambda>r. \<not> succeeded r) rs))\<rparr>)"

text \<open>The parsers of \<open>extract_indicators\<close> that are parameters there.\<close>

record doc_parsers =
  dp_csv :: "string \<Rightarrow> exn + string list list"
  dp_json :: "string \<Rightarrow> exn + json"
  dp_str :: "json \<Rightarrow> string"

record import_request =
  im_content :: string
  im_format :: string
  im_source :: string
  im_confidence :: confidence
  im_severity :: severity
  im_tags :: "string list"
  im_enrich :: bool
  im_limit :: int
  im_user :: "string option"

record import_result =
  ir_extracted :: int
  ir_imported :: int
  ir_failed :: int
  ir_items :: "dict list"

definition import_item :: "import_request \<Rightarrow> string \<Rightarrow> ioc_request" where
  "import_item q v =
     \<lparr>rq_value = v, rq_source = im_source q, rq_confidence = im_confidence q,
      rq_severity = im_severity q, rq_tags = im_tags q, rq_references = [], rq_description = None,
      rq_enrich = im_enrich q, rq_user = im_user q\<rparr>"

fun item_report :: "string \<Rightarrow> exn + ioc_row \<Rightarrow> dict" where
  "item_report v (Inr r) =
     [(''value'', JStr (ioc_defanged r)), (''type'', JStr (ioc_kind r)),
      (''status'', JStr ''imported''), (''threat_score'', JInt (ioc_score r))]"
| "item_report v (Inl e) =
     [(''value'', JStr v), (''status'', JStr ''failed''), (''error'', JStr (exn_text e))]"

definition bulk_import :: "ioc_deps \<Rightarrow> doc_parsers \<Rightarrow> import_request \<Rightarrow> (import_result, 'x) eff" where
  "bulk_import D P q =
     bindM (liftM (extract_indicators (dp_csv P) (dp_json P) (dp_str P) (im_format q) (im_limit q)
       (im_content q))) (\<lambda>vs.
     bindM (try_all D (map (\<lambda>v. Inr (import_item q v)) vs)) (\<lambda>rs.
     let imported = int (length (filter succeeded rs)) in
     returnM \<lparr>ir_extracted = int (length vs), ir_imported = imported,
              ir_failed = int (length vs) - imported, ir_items = map2 item_report vs rs\<rparr>))"

text \<open>\<open>preview_extraction\<close>, with the default limit of \<open>extract_indicators\<close>.\<close>

definition max_indicators :: int where "max_indicators = 1000"

fun preview_items :: "string list \<Rightarrow> exn + dict list" where
  "preview_items [] = Inr []"
| "preview_items (v # vs) =
     bindE (classify_indicator v) (\<lambda>p.
     bindE (preview_items vs) (\<lambda>out.
     Inr ([(''value'', JStr (pvalue p)), (''defanged_value'', JStr (defang (pvalue p))),
           (''type'', JStr (ioc_type_value (ptype p)))] # out)))"

definition preview_extraction :: "doc_parsers \<Rightarrow> string \<Rightarrow> string \<Rightarrow> exn + dict list" where
  "preview_extraction P fmt content =
     bindE (extract_indicators (dp_csv P) (dp_json P) (dp_str P) fmt max_indicators content) preview_items"

section \<open>Reading\<close>

definition explain :: "string \<Rightarrow> (json option, 'x) eff" where
  "explain i =
     bindM (get_enrichment i ''engine'') (\<lambda>e.
     returnM (case e of None \<Rightarrow> None | Some r \<Rightarrow> jget ''score'' (enr_data r)))"

definition lookup_ioc :: "string \<Rightarrow> (ioc_row option, 'x) eff" where
  "lookup_ioc raw =
     bindM (liftM (classify_indicator raw)) (\<lambda>p.
     get_by_type_value (ioc_type_value (ptype p)) (pvalue p))"

text \<open>\<open>Confidence(x)\<close> and \<open>Severity(x)\<close> raise for a text that is no member's value.\<close>

definition member_of :: "(string \<Rightarrow> 'm option) \<Rightarrow> string \<Rightarrow> exn + 'm" where
  "member_of f s = (case f s of Some m \<Rightarrow> Inr m | None \<Rightarrow> Inl (PyExc ValueError s))"

definition rerun_enrichment :: "ioc_deps \<Rightarrow> string option \<Rightarrow> ioc_row \<Rightarrow> (ioc_row, 'x) eff" where
  "rerun_enrichment D user r =
     bindM (liftM (member_of confidence_of (ioc_confidence r))) (\<lambda>c.
     bindM (liftM (member_of severity_of (ioc_severity r))) (\<lambda>s.
     upsert D \<lparr>rq_value = ioc_value r, rq_source = ioc_source r, rq_confidence = c,
       rq_severity = s, rq_tags = [], rq_references = [], rq_description = None,
       rq_enrich = True, rq_user = user\<rparr>))"

end
