(* ===== verification/Search.thy ===== *)
theory Search
  imports Ioc "HOL-Library.Product_Lexorder" "HOL-Library.Multiset"
begin

text \<open>
  Searching the indicators: filters, the literal reading of a search term, order and pages, and
  the dashboard's aggregates (\<open>app/repositories/ioc_repository.py\<close>, \<open>IOCService.search\<close>,
  \<open>list_for_report\<close>).  SQL leaves the order of rows that tie on every sort key open; here it is
  the order of the table.
\<close>

section \<open>LIKE patterns\<close>

definition escape_char :: char where "escape_char = CHR 0x5C"

definition escape_like :: "string \<Rightarrow> string" where
  "escape_like s = fold (\<lambda>ch t. py_replace [ch] [escape_char, ch] t) [escape_char, CHR ''%'', CHR ''_''] s"

text \<open>SQL's \<open>text ILIKE pattern ESCAPE '\'\<close>.\<close>

function ilike :: "string \<Rightarrow> string \<Rightarrow> bool" where
  "ilike [] s \<longleftrightarrow> s = []"
| "ilike (c # ps) s \<longleftrightarrow>
     (if c = escape_char
      then (case (ps, s) of (d # ps', x # xs) \<Rightarrow> ci_eq d x \<and> ilike ps' xs | _ \<Rightarrow> False)
      else if c = CHR ''%''
      then ilike ps s \<or> (case s of [] \<Rightarrow> False | _ # xs \<Rightarrow> ilike (c # ps) xs)
      else (case s of [] \<Rightarrow> False | x # xs \<Rightarrow> (c = CHR ''_'' \<or> ci_eq c x) \<and> ilike ps xs))"
  by pat_completeness auto
termination by (relation "measure (\<lambda>(p, s). length p + length s)") auto

section \<open>Filters\<close>

record ioc_filter =
  fl_type :: "string option"
  fl_min_score :: "int option"
  fl_level :: "string option"
  fl_source :: "string option"
  fl_status :: "string option"
  fl_query :: "string option"

text \<open>\<open>if x: where(column == x)\<close>.\<close>

definition wanted :: "string option \<Rightarrow> string \<Rightarrow> bool" where
  "wanted x column \<longleftrightarrow> blank x \<or> x = Some column"

definition filtered :: "ioc_filter \<Rightarrow> ioc_row \<Rightarrow> bool" where
  "filtered f r \<longleftrightarrow>
     wanted (fl_type f) (ioc_kind r) \<and>
     (case fl_min_score f of None \<Rightarrow> True | Some m \<Rightarrow> m \<le> ioc_score r) \<and>
     wanted (fl_level f) (ioc_level r) \<and> wanted (fl_source f) (ioc_source r) \<and>
     wanted (fl_status f) (ioc_state r) \<and>
     (case fl_query f of
        None \<Rightarrow> True
      | Some q \<Rightarrow> q = [] \<or>
          (let like = ''%'' @ escape_like q @ ''%'' in
           ilike like (ioc_value r) \<or>
           (case ioc_description r of None \<Rightarrow> False | Some s \<Rightarrow> ilike like s)))"

text \<open>\<open>ORDER BY threat_score DESC, updated_at DESC\<close>.\<close>

definition ranked :: "ioc_row list \<Rightarrow> ioc_row list" where
  "ranked = sort_key (\<lambda>r. (- ioc_score r, - ioc_updated r))"

definition search_rows :: "ioc_filter \<Rightarrow> int \<Rightarrow> int \<Rightarrow> db \<Rightarrow> ioc_row list" where
  "search_rows f limit offset d = paged limit offset (ranked (filter (filtered f) (iocs d)))"

definition count_rows :: "ioc_filter \<Rightarrow> db \<Rightarrow> int" where
  "count_rows f d = int (length (filter (filtered f) (iocs d)))"

definition service_search :: "ioc_filter \<Rightarrow> int \<Rightarrow> int \<Rightarrow> db \<Rightarrow> ioc_row list \<times> int" where
  "service_search f page page_size d =
     (search_rows f page_size ((page - 1) * page_size) d, count_rows f d)"

definition list_for_report :: "ioc_filter \<Rightarrow> int \<Rightarrow> db \<Rightarrow> ioc_row list" where
  "list_for_report f limit d = search_rows (f\<lparr>fl_status := None\<rparr>) limit 0 d"

section \<open>Aggregates\<close>

text \<open>\<open>GROUP BY\<close> with \<open>count\<close>; the order of the groups is open.\<close>

definition count_by :: "('r \<Rightarrow> string) \<Rightarrow> 'r list \<Rightarrow> (string \<times> int) list" where
  "count_by column rs = map (\<lambda>k. (k, int (count_list (map column rs) k))) (remdups (map column rs))"

definition count_by_level :: "db \<Rightarrow> (string \<times> int) list" where
  "count_by_level d = count_by ioc_level (iocs d)"

definition count_by_type :: "db \<Rightarrow> (string \<times> int) list" where
  "count_by_type d = count_by ioc_kind (iocs d)"

definition count_by_source :: "db \<Rightarrow> (string \<times> int) list" where
  "count_by_source d = count_by ioc_source (iocs d)"

definition total_rows :: "db \<Rightarrow> int" where
  "total_rows d = int (length (iocs d))"

text \<open>A negative \<open>LIMIT\<close> is an error to PostgreSQL and no limit to SQLite.\<close>

definition top_rows :: "env \<Rightarrow> int \<Rightarrow> db \<Rightarrow> exn + ioc_row list" where
  "top_rows E limit d =
     (let rs = sort_key (\<lambda>r. - ioc_score r) (iocs d) in
      if 0 \<le> limit then Inr (take (nat limit) rs)
      else if strict_columns E then Inl data_error else Inr rs)"

section \<open>Lemmas\<close>

lemma escape_like_eq:
  "escape_like s = concat (map (\<lambda>x. if x \<in> {escape_char, CHR ''%'', CHR ''_''} then [escape_char, x] else [x]) s)"
  by (induction s) (simp_all add: escape_like_def replace_char escape_char_def)

lemma ilike_percent: "ilike ''%'' s"
  by (induction s) (simp_all add: escape_char_def)

lemma ilike_escaped:
  "ilike (escape_like q @ ps) s \<longleftrightarrow> at_prefix ci_eq q s \<and> ilike ps (drop (length q) s)"
proof (induction q arbitrary: s)
  case (Cons c q)
  have "escape_like (c # q) =
      (if c \<in> {escape_char, CHR ''%'', CHR ''_''} then [escape_char, c] else [c]) @ escape_like q"
    by (simp add: escape_like_eq)
  with Cons.IH show ?case by (cases s) (auto simp: escape_char_def)
qed (simp add: escape_like_eq)

lemma ilike_any:
  "ilike (CHR ''%'' # ps) [] \<longleftrightarrow> ilike ps []"
  "ilike (CHR ''%'' # ps) (x # s) \<longleftrightarrow> ilike ps (x # s) \<or> ilike (CHR ''%'' # ps) s"
  by (simp_all add: escape_char_def)

lemma ilike_term: "ilike (''%'' @ escape_like q @ ''%'') s \<longleftrightarrow> occurs ci_eq q s"
  by (induction s) (simp_all add: ilike_any ilike_escaped ilike_percent del: ilike.simps(2))

lemma filtered_query:
  "filtered f r \<longleftrightarrow> filtered (f\<lparr>fl_query := None\<rparr>) r \<and>
     (case fl_query f of None \<Rightarrow> True | Some q \<Rightarrow>
        occurs ci_eq q (ioc_value r) \<or> (\<exists>s. ioc_description r = Some s \<and> occurs ci_eq q s))"
proof (cases "fl_query f")
  case None
  then show ?thesis by (simp add: filtered_def)
next
  case (Some q)
  have "occurs ci_eq [] s" for s by (cases s) simp_all
  then show ?thesis
    unfolding filtered_def Let_def ilike_term by (simp add: Some split: option.split) blast
qed

lemma length_ranked [simp]: "length (ranked rs) = length rs"
  by (simp add: ranked_def)

lemma set_ranked [simp]: "set (ranked rs) = set rs"
  by (simp add: ranked_def)

lemma pages_concat:
  "concat (map (\<lambda>p. take k (drop (p * k) xs)) [0..<n]) = take (n * k) xs"
proof (induction n)
  case (Suc n)
  have "take (n * k) xs @ take k (drop (n * k) xs) = take (n * k + k) xs"
    by (rule take_add [symmetric])
  with Suc show ?case by (simp add: add.commute)
qed simp

lemma paged_page: "1 \<le> ps \<Longrightarrow> paged ps ((int p + 1 - 1) * ps) xs = take (nat ps) (drop (p * nat ps) xs)"
  by (simp add: paged_def nat_mult_distrib)

lemma count_by_sum: "sum_list (map snd (count_by column rs)) = int (length rs)"
proof -
  have "sum_list (map snd (count_by column rs)) = int (\<Sum>k\<in>set (map column rs). count_list (map column rs) k)"
    by (simp add: count_by_def comp_def sum_list_distinct_conv_sum_set del: set_map)
  also have "\<dots> = int (length (map column rs))"
    by (subst sum_count_set) auto
  finally show ?thesis by simp
qed

section \<open>Properties\<close>

text \<open>C11: A search term is read literally: whatever characters it contains - including the wildcards
  and the escape character of LIKE - a search returns, among the rows the other filters let
  through, exactly those whose value or description contains the term, letter case aside.\<close>

theorem search_literal:
  "set (search_rows f (int (length (iocs d))) 0 d) =
     {r \<in> set (iocs d). filtered (f\<lparr>fl_query := None\<rparr>) r \<and>
        (case fl_query f of None \<Rightarrow> True | Some q \<Rightarrow>
           occurs ci_eq q (ioc_value r) \<or> (\<exists>s. ioc_description r = Some s \<and> occurs ci_eq q s))}"
proof -
  have "length (filter (filtered f) (iocs d)) \<le> length (iocs d)" by (rule length_filter_le)
  then have "set (search_rows f (int (length (iocs d))) 0 d) = {r \<in> set (iocs d). filtered f r}"
    by (simp add: search_rows_def paged_def)
  then show ?thesis by (simp add: filtered_query [of f])
qed

text \<open>Pages partition the result: put one after the other, the pages of a search are the matching
  rows, each once, by falling score and then falling time of change, no page is longer than
  asked, and every page reports the same total, the number of matching rows.\<close>

theorem pages_partition:
  "1 \<le> ps \<Longrightarrow> count_rows f d \<le> int n * ps \<Longrightarrow>
   concat (map (\<lambda>p. fst (service_search f (int p + 1) ps d)) [0..<n]) = ranked (filter (filtered f) (iocs d)) \<and>
   sorted (map (\<lambda>r. (- ioc_score r, - ioc_updated r)) (ranked (filter (filtered f) (iocs d)))) \<and>
   mset (ranked (filter (filtered f) (iocs d))) = mset (filter (filtered f) (iocs d)) \<and>
   (\<forall>p. int (length (fst (service_search f p ps d))) \<le> ps \<and>
      snd (service_search f p ps d) = int (length (filter (filtered f) (iocs d))))"
proof (intro conjI allI)
  assume ps: "1 \<le> ps" and n: "count_rows f d \<le> int n * ps"
  let ?xs = "ranked (filter (filtered f) (iocs d))"
  from n ps have "length ?xs \<le> n * nat ps"
    by (simp add: count_rows_def) (metis nat_int nat_mono nat_mult_distrib of_nat_0_le_iff)
  then show "concat (map (\<lambda>p. fst (service_search f (int p + 1) ps d)) [0..<n]) = ?xs"
    using pages_concat [of "nat ps" ?xs n] ps
    by (simp add: service_search_def search_rows_def paged_page [simplified])
  show "sorted (map (\<lambda>r. (- ioc_score r, - ioc_updated r)) ?xs)" by (simp add: ranked_def)
  show "mset ?xs = mset (filter (filtered f) (iocs d))" by (simp add: ranked_def mset_sort)
  show "int (length (fst (service_search f p ps d))) \<le> ps" for p
  proof -
    have "length (fst (service_search f p ps d)) \<le> nat ps"
      by (simp add: service_search_def search_rows_def paged_def)
    with ps show ?thesis by linarith
  qed
  show "snd (service_search f p ps d) = int (length (filter (filtered f) (iocs d)))" for p
    by (simp add: service_search_def count_rows_def)
qed

section \<open>A search\<close>

definition demo_rows :: db where
  "demo_rows = empty_db\<lparr>iocs := [demo_ioc, demo_ioc\<lparr>ioc_id := ''i2'', ioc_value := ''b_c.org'', ioc_score := 90\<rparr>,
     demo_ioc\<lparr>ioc_id := ''i3'', ioc_value := ''bxc.org'', ioc_score := 80\<rparr>]\<rparr>"

definition any_ioc :: ioc_filter where
  "any_ioc = \<lparr>fl_type = None, fl_min_score = None, fl_level = None, fl_source = None, fl_status = None,
     fl_query = None\<rparr>"

theorem pages_partition_witness:
  "concat (map (\<lambda>p. fst (service_search any_ioc (int p + 1) 2 demo_rows)) [0..<2]) =
     ranked (iocs demo_rows)"
proof -
  have "filter (filtered any_ioc) (iocs demo_rows) = iocs demo_rows"
    by (simp add: any_ioc_def filtered_def wanted_def blank_def)
  moreover have "count_rows any_ioc demo_rows \<le> int 2 * 2"
    using calculation by (simp add: count_rows_def demo_rows_def empty_db_def)
  ultimately show ?thesis using pages_partition [of 2 any_ioc demo_rows 2] by simp
qed

end
