(* ===== verification/Actors.thy ===== *)
theory Actors
  imports Store "HOL-Library.Char_ord" "HOL-Library.List_Lexorder"
begin

text \<open>
  Threat-actor profiles: \<open>app/services/threat_actor_service.py\<close>.  \<open>actor_data\<close> is the dictionary
  the request schema dumps; names are listed in the order of their code points.
\<close>

record actor_data =
  acd_name :: string
  acd_kind :: string
  acd_country :: "string option"
  acd_aliases :: "string list"
  acd_motivations :: "string list"
  acd_techniques :: "string list"
  acd_known_malware :: "string list"
  acd_targets :: "string list"
  acd_description :: "string option"

definition actor_of :: "env \<Rightarrow> string \<Rightarrow> actor_data \<Rightarrow> actor_row" where
  "actor_of E i a =
     \<lparr>act_id = i, act_name = acd_name a, act_kind = acd_kind a, act_country = acd_country a,
      act_aliases = acd_aliases a, act_motivations = acd_motivations a,
      act_techniques = acd_techniques a, act_known_malware = acd_known_malware a,
      act_targets = acd_targets a, act_description = acd_description a,
      act_created = now_at E\<rparr>"

definition create_actor :: "env \<Rightarrow> actor_data \<Rightarrow> string option \<Rightarrow> (actor_row, 'x) eff" where
  "create_actor E a user_id =
     bindM (select_one (\<lambda>d. filter (\<lambda>r. act_name r = acd_name a) (actors d))) (\<lambda>existing.
     if existing \<noteq> None
     then raiseM (raise_app ConflictError
            (Some (''Threat actor '' @ [CHR 0x27] @ acd_name a @ [CHR 0x27] @ '' already exists.'')) [])
     else bindM (fresh_id E) (\<lambda>i.
          let r = actor_of E i a in
          bindM (insertM E ([(act_name r, 128), (act_kind r, 32)] @
                   (case act_country r of None \<Rightarrow> [] | Some c \<Rightarrow> [(c, 4)]))
            (\<lambda>d. i \<in> set (map act_id (actors d)) \<or> act_name r \<in> set (map act_name (actors d)))
            (\<lambda>d. d\<lparr>actors := actors d @ [r]\<rparr>)) (\<lambda>_.
          bindM (record_audit E ''actor.create'' user_id None [(''name'', JStr (acd_name a))]) (\<lambda>_.
          returnM r))))"

definition list_actors :: "(actor_row list, 'x) eff" where
  "list_actors = queryM (\<lambda>d. sort_key act_name (actors d))"

definition get_actor :: "string \<Rightarrow> (actor_row, 'x) eff" where
  "get_actor i =
     bindM (queryM (\<lambda>d. find (\<lambda>r. act_id r = i) (actors d))) (\<lambda>found.
     case found of
       None \<Rightarrow> raiseM (raise_app NotFoundError (Some ''Threat actor not found.'') [])
     | Some r \<Rightarrow> returnM r)"

definition delete_actor :: "env \<Rightarrow> string \<Rightarrow> string option \<Rightarrow> (unit, 'x) eff" where
  "delete_actor E i user_id =
     bindM (get_actor i) (\<lambda>_.
     bindM (changeM (\<lambda>d. d\<lparr>actors := filter (\<lambda>r. act_id r \<noteq> i) (actors d)\<rparr>)) (\<lambda>_.
     record_audit E ''actor.delete'' user_id None [(''id'', JStr i)]))"

section \<open>Lemmas\<close>

definition actors_ok :: "db \<Rightarrow> bool" where
  "actors_ok d \<longleftrightarrow> distinct (map act_id (actors d)) \<and> distinct (map act_name (actors d))"

lemma actors_ok_audits [simp]: "actors_ok (d\<lparr>audits := x\<rparr>) = actors_ok d"
  by (simp add: actors_ok_def)

lemma preserves_actors [inv_intros]:
  "preserves actors_ok (create_actor E a u)" "preserves actors_ok (get_actor i)"
  "preserves actors_ok (delete_actor E i u)" "preserves actors_ok list_actors"
proof -
  have audit: "preserves actors_ok (record_audit E act u ip dt)" for act ip dt
    unfolding record_audit_def by (intro inv_intros) simp
  show "preserves actors_ok (create_actor E a u)"
    unfolding create_actor_def Let_def
    by (intro inv_intros audit) (auto simp: actors_ok_def actor_of_def)
  show g: "preserves actors_ok (get_actor i)" for i
    unfolding get_actor_def by (intro inv_intros)
  show "preserves actors_ok (delete_actor E i u)"
    unfolding delete_actor_def by (intro inv_intros audit g) (auto simp: actors_ok_def distinct_map_filter)
  show "preserves actors_ok list_actors" unfolding list_actors_def by (intro inv_intros)
qed

end
