(* ===== verification/Rbac.thy ===== *)
theory Rbac
  imports Prelude
begin

text \<open>
  Role-based access control: \<open>app/security/rbac.py\<close>.  A role is held as the string the
  token or the user row carries; \<open>role_of\<close> is the call \<open>Role(role)\<close>.
\<close>

datatype role = RAdmin | RAnalyst | RViewer

fun role_value :: "role \<Rightarrow> string" where
  "role_value RAdmin = ''admin''"
| "role_value RAnalyst = ''analyst''"
| "role_value RViewer = ''viewer''"

definition roles :: "role list" where
  "roles = [RAdmin, RAnalyst, RViewer]"

definition role_of :: "string \<Rightarrow> role option" where
  "role_of s = find (\<lambda>r. role_value r = s) roles"

datatype permission =
    IocRead | IocWrite | EnrichRun | CollectorRun | AlertRead | AlertManage | ReportGenerate
  | AdminManage

fun permission_value :: "permission \<Rightarrow> string" where
  "permission_value IocRead = ''ioc:read''"
| "permission_value IocWrite = ''ioc:write''"
| "permission_value EnrichRun = ''enrich:run''"
| "permission_value CollectorRun = ''collector:run''"
| "permission_value AlertRead = ''alert:read''"
| "permission_value AlertManage = ''alert:manage''"
| "permission_value ReportGenerate = ''report:generate''"
| "permission_value AdminManage = ''admin:manage''"

definition viewer_permissions :: "permission list" where
  "viewer_permissions = [IocRead, AlertRead]"

definition analyst_permissions :: "permission list" where
  "analyst_permissions =
     viewer_permissions @ [IocWrite, EnrichRun, CollectorRun, ReportGenerate, AlertManage]"

definition admin_permissions :: "permission list" where
  "admin_permissions = analyst_permissions @ [AdminManage]"

fun role_permissions :: "role \<Rightarrow> permission list" where
  "role_permissions RViewer = viewer_permissions"
| "role_permissions RAnalyst = analyst_permissions"
| "role_permissions RAdmin = admin_permissions"

definition permissions_for :: "string \<Rightarrow> permission list" where
  "permissions_for r = (case role_of r of None \<Rightarrow> [] | Some x \<Rightarrow> role_permissions x)"

definition has_permission :: "string \<Rightarrow> permission \<Rightarrow> bool" where
  "has_permission r p \<longleftrightarrow> p \<in> set (permissions_for r)"

lemmas permission_sets =
  viewer_permissions_def analyst_permissions_def admin_permissions_def

lemma role_of_value [simp]: "role_of (role_value r) = Some r"
  by (cases r) (simp_all add: role_of_def roles_def)

lemma role_of_Some: "role_of s = Some r \<longleftrightarrow> s = role_value r"
  by (auto simp: role_of_def find_Some_iff) (metis role_of_def role_of_value find_Some_iff)

lemma role_value_inj [simp]: "role_value a = role_value b \<longleftrightarrow> a = b"
  by (metis role_of_value option.inject)

text \<open>Access is exactly what the role table grants: only an administrator may manage, only an
  administrator or analyst may write, run or generate, all three roles may read, and a
  string that names no role holds no permission at all.\<close>

theorem permission_table:
  "has_permission r p \<longleftrightarrow>
     (case p of
        AdminManage \<Rightarrow> r = ''admin''
      | IocRead \<Rightarrow> r \<in> {''admin'', ''analyst'', ''viewer''}
      | AlertRead \<Rightarrow> r \<in> {''admin'', ''analyst'', ''viewer''}
      | _ \<Rightarrow> r \<in> {''admin'', ''analyst''})"
proof (cases "role_of r")
  case None
  then have "\<forall>x. r \<noteq> role_value x" by (metis role_of_value option.distinct(1))
  from this [THEN spec, of RAdmin] this [THEN spec, of RAnalyst] this [THEN spec, of RViewer] None
  show ?thesis by (simp add: has_permission_def permissions_for_def split: permission.splits)
next
  case (Some x)
  then have "r = role_value x" by (simp add: role_of_Some)
  then show ?thesis
    by (cases x)
      (auto simp: has_permission_def permissions_for_def role_of_def roles_def permission_sets
        split: permission.splits)
qed

end
