(* ===== verification/TokenStore.thy ===== *)
theory TokenStore
  imports Errors
begin

text \<open>
  The store of revoked token ids: \<open>app/security/token_store.py\<close>.  The clock is an
  argument; the Redis server behind the second backend is a parameter.
\<close>

type_synonym revocations = "string \<rightharpoonup> real"

definition prune :: "real \<Rightarrow> revocations \<Rightarrow> revocations" where
  "prune now m = (\<lambda>j. case m j of None \<Rightarrow> None | Some e \<Rightarrow> if e \<le> now then None else Some e)"

definition mem_revoke :: "real \<Rightarrow> string \<Rightarrow> int \<Rightarrow> revocations \<Rightarrow> revocations" where
  "mem_revoke now jti ttl_seconds m = (prune now m)(jti \<mapsto> now + of_int (max ttl_seconds 1))"

definition mem_is_revoked :: "real \<Rightarrow> string \<Rightarrow> revocations \<Rightarrow> bool \<times> revocations" where
  "mem_is_revoked now jti m =
     (case m jti of
        None \<Rightarrow> (False, m)
      | Some e \<Rightarrow> if e \<le> now then (False, m(jti := None)) else (True, m))"

definition jti_prefix :: string where "jti_prefix = ''revoked_jti:''"

definition redis_revoke ::
  "(string \<Rightarrow> int \<Rightarrow> 'r \<Rightarrow> (exn + unit) \<times> 'r) \<Rightarrow> string \<Rightarrow> int \<Rightarrow> 'r \<Rightarrow> (exn + unit) \<times> 'r" where
  "redis_revoke r_set jti ttl_seconds r = r_set (jti_prefix @ jti) (max ttl_seconds 1) r"

definition redis_is_revoked ::
  "(string \<Rightarrow> 'r \<Rightarrow> (exn + bool) \<times> 'r) \<Rightarrow> string \<Rightarrow> 'r \<Rightarrow> (exn + bool) \<times> 'r" where
  "redis_is_revoked r_exists jti r = r_exists (jti_prefix @ jti) r"

section \<open>The interface\<close>

text \<open>A use of the store at a time.\<close>

datatype store_op = OpRevoke real string int | OpCheck real string

fun op_time :: "store_op \<Rightarrow> real" where
  "op_time (OpRevoke t j n) = t"
| "op_time (OpCheck t j) = t"

fun run_op ::
  "(real \<Rightarrow> string \<Rightarrow> int \<Rightarrow> 's \<Rightarrow> 's) \<Rightarrow> (real \<Rightarrow> string \<Rightarrow> 's \<Rightarrow> bool \<times> 's) \<Rightarrow> store_op \<Rightarrow> 's \<Rightarrow> 's" where
  "run_op revoke is_revoked (OpRevoke t j n) s = revoke t j n s"
| "run_op revoke is_revoked (OpCheck t j) s = snd (is_revoked t j s)"

text \<open>\<open>expires j s\<close>: when the revocation of \<open>j\<close> in \<open>s\<close> lapses.\<close>

locale token_store =
  fixes revoke :: "real \<Rightarrow> string \<Rightarrow> int \<Rightarrow> 's \<Rightarrow> 's"
    and is_revoked :: "real \<Rightarrow> string \<Rightarrow> 's \<Rightarrow> bool \<times> 's"
    and expires :: "string \<Rightarrow> 's \<Rightarrow> real option"
  assumes revoke_same: "expires j (revoke t j n s) = Some (t + of_int (max n 1))"
    and revoke_other: "k \<noteq> j \<Longrightarrow> expires k s = Some e \<Longrightarrow> t < e \<Longrightarrow>
      expires k (revoke t j n s) = Some e"
    and check_result: "fst (is_revoked t j s) \<longleftrightarrow> (\<exists>e. expires j s = Some e \<and> t < e)"
    and check_keeps: "expires k s = Some e \<Longrightarrow> t < e \<Longrightarrow> expires k (snd (is_revoked t j s)) = Some e"

context token_store begin

lemma ops_keep:
  assumes "expires j s = Some e" "e0 \<le> e" "\<forall>p\<in>set ps. op_time p < e0"
    and "\<forall>t n. OpRevoke t j n \<in> set ps \<longrightarrow> e0 \<le> t + of_int (max n 1)"
  shows "\<exists>e'\<ge>e0. expires j (fold (run_op revoke is_revoked) ps s) = Some e'"
  using assms
proof (induction ps arbitrary: s e)
  case Nil
  then show ?case by auto
next
  case (Cons p ps)
  have "\<exists>e'\<ge>e0. expires j (run_op revoke is_revoked p s) = Some e'"
  proof (cases p)
    case (OpRevoke t k n)
    show ?thesis
    proof (cases "k = j")
      case True
      with OpRevoke Cons.prems(4) show ?thesis by (auto simp: revoke_same)
    next
      case False
      with OpRevoke Cons.prems show ?thesis using revoke_other [of j k s e t n] by auto
    qed
  next
    case (OpCheck t k)
    with Cons.prems show ?thesis using check_keeps [of j s e t k] by auto
  qed
  with Cons.IH Cons.prems show ?case by auto
qed

lemma stays_revoked:
  assumes "\<forall>p\<in>set ps. op_time p < t0 + of_int (max n 1)"
    and "\<forall>t m. OpRevoke t j m \<in> set ps \<longrightarrow> t0 + of_int (max n 1) \<le> t + of_int (max m 1)"
    and "t < t0 + of_int (max n 1)"
  shows "fst (is_revoked t j (fold (run_op revoke is_revoked) ps (revoke t0 j n s)))"
proof -
  obtain e where "t0 + of_int (max n 1) \<le> e"
    "expires j (fold (run_op revoke is_revoked) ps (revoke t0 j n s)) = Some e"
    using ops_keep [OF revoke_same order_refl assms(1,2)] by blast
  with assms(3) show ?thesis by (auto simp: check_result)
qed

end

interpretation mem_store: token_store mem_revoke mem_is_revoked "\<lambda>j m. m j"
  by unfold_locales
    (auto simp: mem_revoke_def mem_is_revoked_def prune_def split: option.splits)

section \<open>Properties\<close>

text \<open>A revoked token id stays revoked until its time to live is over, whatever else happens to
  the store meanwhile (checks, and revocations of other ids or longer ones of the same):
  pruning never drops a live entry.\<close>

theorem revocation_lasts:
  "\<forall>p\<in>set ps. op_time p < t0 + of_int (max n 1) \<Longrightarrow>
   \<forall>t m. OpRevoke t j m \<in> set ps \<longrightarrow> t0 + of_int (max n 1) \<le> t + of_int (max m 1) \<Longrightarrow>
   t < t0 + of_int (max n 1) \<Longrightarrow>
   fst (mem_is_revoked t j (fold (run_op mem_revoke mem_is_revoked) ps (mem_revoke t0 j n m0)))"
  by (rule mem_store.stays_revoked)

theorem revocation_lasts_witness:
  "fst (mem_is_revoked 50 ''a''
     (fold (run_op mem_revoke mem_is_revoked) [OpRevoke 10 ''b'' 5, OpCheck 20 ''a''] (mem_revoke 0 ''a'' 60 Map.empty)))"
  by (rule revocation_lasts) auto

end
