(* ===== verification/Credentials.thy ===== *)
theory Credentials
  imports Store Rbac TokenStore PyStr
begin

text \<open>
  Tokens (\<open>app/security/tokens.py\<close>), secrets at rest and password hashes
  (\<open>app/security/crypto.py\<close>) and API keys (\<open>app/security/api_keys.py\<close>).  PyJWT, Fernet,
  Argon2, SHA-256 and the random sources are parameters.  The text of a token is opaque to the
  code, so it is a type variable.
\<close>

section \<open>Tokens\<close>

datatype jwt_answer = Payload "(string \<times> json) list" | ExpiredSignature | InvalidJwt

text \<open>
  \<open>jwt_encode secret algorithm payload\<close>; \<open>jwt_decode secret algorithm required now token\<close>;
  \<open>py_str\<close> is \<open>str()\<close> of a claim that is not text.
\<close>

record 'tok jwt =
  jwt_encode :: "string \<Rightarrow> string \<Rightarrow> (string \<times> json) list \<Rightarrow> 'tok"
  jwt_decode :: "string \<Rightarrow> string \<Rightarrow> string list \<Rightarrow> real \<Rightarrow> 'tok \<Rightarrow> jwt_answer"
  py_str :: "json \<Rightarrow> string"

record 'tok token_pair =
  access_token :: 'tok
  refresh_token :: 'tok
  token_type :: string
  expires_in :: int

record token_claims =
  cl_subject :: string
  cl_role :: string
  cl_type :: json
  cl_jti :: string
  cl_expires_at :: real

record token_service =
  ts_secret :: string
  ts_algorithm :: string
  ts_access_ttl :: real
  ts_refresh_ttl :: real

definition token_service_of :: "string \<Rightarrow> string \<Rightarrow> real \<Rightarrow> real \<Rightarrow> exn + token_service" where
  "token_service_of secret algorithm access_ttl refresh_ttl =
     (if secret = [] then Inl (raise_app InvalidTokenError (Some ''JWT secret is not configured.'') [])
      else Inr \<lparr>ts_secret = secret, ts_algorithm = algorithm, ts_access_ttl = access_ttl,
                ts_refresh_ttl = refresh_ttl\<rparr>)"

definition token_payload :: "string \<Rightarrow> string \<Rightarrow> string \<Rightarrow> string \<Rightarrow> real \<Rightarrow> real \<Rightarrow> (string \<times> json) list" where
  "token_payload subject role ttype jti now expires_at =
     [(''sub'', JStr subject), (''role'', JStr role), (''type'', JStr ttype), (''jti'', JStr jti),
      (''iat'', JInt \<lfloor>now\<rfloor>), (''nbf'', JInt \<lfloor>now\<rfloor>), (''exp'', JInt \<lfloor>expires_at\<rfloor>)]"

definition encode_token ::
  "'tok jwt \<Rightarrow> token_service \<Rightarrow> env \<Rightarrow> string \<Rightarrow> string \<Rightarrow> string \<Rightarrow> real \<Rightarrow> ('tok \<times> real, 'x) eff" where
  "encode_token J T E subject role ttype ttl =
     bindM (fresh_id E) (\<lambda>jti.
       let expires_at = now_at E + ttl in
       returnM (jwt_encode J (ts_secret T) (ts_algorithm T)
                  (token_payload subject role ttype jti (now_at E) expires_at), expires_at))"

definition issue_pair ::
  "'tok jwt \<Rightarrow> token_service \<Rightarrow> env \<Rightarrow> string \<Rightarrow> string \<Rightarrow> ('tok token_pair, 'x) eff" where
  "issue_pair J T E subject role =
     bindM (encode_token J T E subject role ''access'' (ts_access_ttl T)) (\<lambda>(access, access_exp).
     bindM (encode_token J T E subject role ''refresh'' (ts_refresh_ttl T)) (\<lambda>(refresh, _).
       returnM \<lparr>access_token = access, refresh_token = refresh, token_type = ''bearer'',
                expires_in = \<lfloor>access_exp - now_at E\<rfloor>\<rparr>))"

definition required_claims :: "string list" where
  "required_claims = [''exp'', ''sub'', ''type'', ''jti'', ''role'']"

definition text_of :: "'tok jwt \<Rightarrow> json \<Rightarrow> string" where
  "text_of J v = (case v of JStr s \<Rightarrow> s | _ \<Rightarrow> py_str J v)"

definition from_timestamp :: "json \<Rightarrow> exn + real" where
  "from_timestamp v =
     (case v of JInt n \<Rightarrow> Inr (of_int n) | JReal r \<Rightarrow> Inr r
      | _ \<Rightarrow> Inl (PyExc TypeError ''fromtimestamp''))"

definition decode_token ::
  "'tok jwt \<Rightarrow> token_service \<Rightarrow> real \<Rightarrow> string option \<Rightarrow> 'tok \<Rightarrow> exn + token_claims" where
  "decode_token J T now expected token =
     (case jwt_decode J (ts_secret T) (ts_algorithm T) required_claims now token of
        ExpiredSignature \<Rightarrow> Inl (raise_app InvalidTokenError (Some ''Token has expired.'') [])
      | InvalidJwt \<Rightarrow> Inl (raise_app InvalidTokenError (Some ''Token is invalid.'') [])
      | Payload p \<Rightarrow>
          let ttype = (case jget ''type'' p of None \<Rightarrow> JNull | Some v \<Rightarrow> v) in
          if expected \<noteq> None \<and> ttype \<noteq> JStr (the expected)
          then Inl (raise_app InvalidTokenError
                      (Some (''Expected a '' @ the expected @ '' token.'')) [])
          else (case (jget ''sub'' p, jget ''jti'' p, jget ''exp'' p) of
              (Some sub, Some jti, Some ex) \<Rightarrow>
                bindE (from_timestamp ex) (\<lambda>expires_at.
                  Inr \<lparr>cl_subject = text_of J sub,
                       cl_role = (case jget ''role'' p of
                           Some r \<Rightarrow> if truthy r then text_of J r else role_value RViewer
                         | None \<Rightarrow> role_value RViewer),
                       cl_type = ttype, cl_jti = text_of J jti, cl_expires_at = expires_at\<rparr>)
            | _ \<Rightarrow> Inl (PyExc KeyError ''payload'')))"

section \<open>Secrets at rest\<close>

text \<open>
  \<open>MultiFernet\<close> over a list of keys: encryption (with a nonce) under the first, decryption under
  any, \<open>None\<close> for \<open>InvalidToken\<close> and for bytes that are not UTF-8.
\<close>

record fernet =
  fernet_key_ok :: "string \<Rightarrow> bool"
  multi_encrypt :: "string list \<Rightarrow> nat \<Rightarrow> string \<Rightarrow> string"
  multi_decrypt :: "string list \<Rightarrow> string \<Rightarrow> string option"
  multi_rotate :: "string list \<Rightarrow> nat \<Rightarrow> string \<Rightarrow> string option"

definition is_ascii :: "string \<Rightarrow> bool" where
  "is_ascii s = list_all (\<lambda>c. ord_of c < 128) s"

text \<open>A cipher is its keys.\<close>

definition secret_cipher :: "fernet \<Rightarrow> string list \<Rightarrow> exn + string list" where
  "secret_cipher F keys =
     (if keys = [] then Inl (raise_app EncryptionError (Some ''SecretCipher requires at least one key.'') [])
      else if list_all (\<lambda>k. is_ascii k \<and> fernet_key_ok F k) keys then Inr keys
      else Inl (raise_app EncryptionError (Some ''Invalid encryption key material.'') []))"

definition encrypt_secret :: "fernet \<Rightarrow> string list \<Rightarrow> nat \<Rightarrow> string option \<Rightarrow> exn + string" where
  "encrypt_secret F keys nonce plaintext =
     (case plaintext of
        None \<Rightarrow> Inl (raise_app EncryptionError (Some ''Cannot encrypt None.'') [])
      | Some p \<Rightarrow> Inr (multi_encrypt F keys nonce p))"

definition decrypt_secret :: "fernet \<Rightarrow> string list \<Rightarrow> string \<Rightarrow> exn + string" where
  "decrypt_secret F keys token =
     (case (if is_ascii token then multi_decrypt F keys token else None) of
        Some p \<Rightarrow> Inr p
      | None \<Rightarrow> Inl (raise_app EncryptionError
                      (Some ''Failed to decrypt secret (bad key or corrupt data).'') []))"

definition rotate_secret :: "fernet \<Rightarrow> string list \<Rightarrow> nat \<Rightarrow> string \<Rightarrow> exn + string" where
  "rotate_secret F keys nonce token =
     (case (if is_ascii token then multi_rotate F keys nonce token else None) of
        Some t \<Rightarrow> Inr t
      | None \<Rightarrow> Inl (raise_app EncryptionError (Some ''Failed to rotate secret.'') []))"

text \<open>\<open>get_secret_cipher\<close>: without keys, production refuses and others make one up.\<close>

definition get_secret_cipher :: "fernet \<Rightarrow> bool \<Rightarrow> string \<Rightarrow> string list \<Rightarrow> exn + string list" where
  "get_secret_cipher F is_production generated keys =
     (if keys = []
      then if is_production
           then Inl (raise_app EncryptionError (Some ''MASTER_ENCRYPTION_KEY is required in production.'') [])
           else secret_cipher F [generated]
      else secret_cipher F keys)"

section \<open>Passwords\<close>

text \<open>Argon2: \<open>argon_verify\<close> answers, or raises one of the exceptions the code catches.\<close>

datatype argon_answer = Verified | VerifyMismatch | InvalidHash | VerificationFailed

record argon =
  argon_hash :: "nat \<Rightarrow> string \<Rightarrow> string"
  argon_verify :: "string \<Rightarrow> string \<Rightarrow> argon_answer"
  argon_needs_rehash :: "string \<Rightarrow> bool"

definition verify_password :: "argon \<Rightarrow> string \<Rightarrow> string \<Rightarrow> bool" where
  "verify_password H hashed password = (argon_verify H hashed password = Verified)"

definition needs_rehash :: "argon \<Rightarrow> string \<Rightarrow> bool" where
  "needs_rehash H hashed = argon_needs_rehash H hashed"

section \<open>API keys\<close>

record generated_api_key =
  gen_raw :: string
  gen_prefix :: string
  gen_hash :: string

definition key_text_prefix :: string where "key_text_prefix = ''tip''"
definition prefix_len :: nat where "prefix_len = 12"

definition hash_api_key :: "(string \<Rightarrow> string) \<Rightarrow> string \<Rightarrow> string" where
  "hash_api_key sha256 raw = sha256 (py_strip raw)"

definition key_prefix :: "string \<Rightarrow> string" where
  "key_prefix raw = take prefix_len raw"

definition generate_api_key :: "(string \<Rightarrow> string) \<Rightarrow> string \<Rightarrow> generated_api_key" where
  "generate_api_key sha256 token_urlsafe =
     (let raw = key_text_prefix @ ''_'' @ token_urlsafe in
      \<lparr>gen_raw = raw, gen_prefix = take prefix_len raw, gen_hash = hash_api_key sha256 raw\<rparr>)"

definition verify_api_key :: "(string \<Rightarrow> string) \<Rightarrow> string \<Rightarrow> string \<Rightarrow> bool" where
  "verify_api_key sha256 raw stored_hash = (hash_api_key sha256 raw = stored_hash)"

section \<open>Lemmas\<close>

lemma tables_issue_pair: "tables (snd (issue_pair J T E s r w)) = tables w"
  by (simp add: issue_pair_def encode_token_def run_simps Let_def)

lemma preserves_issue_pair [inv_intros]: "preserves P (issue_pair J T E s r)"
  by (simp add: preserves_def tables_issue_pair)

lemma issue_pair_tokens:
  "issue_pair J T E subject role w = (Inr p, w') \<Longrightarrow>
   access_token p = jwt_encode J (ts_secret T) (ts_algorithm T)
     (token_payload subject role ''access'' (uuid_of E (drawn w)) (now_at E)
       (now_at E + ts_access_ttl T)) \<and>
   refresh_token p = jwt_encode J (ts_secret T) (ts_algorithm T)
     (token_payload subject role ''refresh'' (uuid_of E (Suc (drawn w))) (now_at E)
       (now_at E + ts_refresh_ttl T))"
  by (auto simp: issue_pair_def encode_token_def run_simps Let_def)

lemma issue_pair_returns: "\<exists>p w'. issue_pair J T E s r w = (Inr p, w')"
  by (simp add: issue_pair_def encode_token_def run_simps Let_def)

text \<open>
  What the code relies on in PyJWT: a payload of \<open>token_payload\<close> that was signed with the same
  secret and algorithm comes back before its expiry and is reported as expired after it.
\<close>

definition jwt_sound :: "'tok jwt \<Rightarrow> bool" where
  "jwt_sound J \<longleftrightarrow>
     (\<forall>secret alg subject role ttype jti t0 ex now.
        jwt_decode J secret alg required_claims now
          (jwt_encode J secret alg (token_payload subject role ttype jti t0 ex)) =
        (if now < of_int \<lfloor>ex\<rfloor> then if of_int \<lfloor>t0\<rfloor> \<le> now
             then Payload (token_payload subject role ttype jti t0 ex) else InvalidJwt
         else ExpiredSignature))"

text \<open>A library with that behaviour, whose tokens are the signed payloads.\<close>

definition plain_jwt :: "(string \<times> string \<times> (string \<times> json) list) jwt" where
  "plain_jwt = \<lparr>
     jwt_encode = (\<lambda>secret alg p. (secret, alg, p)),
     jwt_decode = (\<lambda>secret alg required now (s, a, p).
       if s \<noteq> secret \<or> a \<noteq> alg \<or> \<not> list_all (\<lambda>k. jget k p \<noteq> None) required then InvalidJwt
       else case (jget ''exp'' p, jget ''nbf'' p) of
         (Some (JInt ex), Some (JInt nbf)) \<Rightarrow>
           if now < of_int ex then if of_int nbf \<le> now then Payload p else InvalidJwt
           else ExpiredSignature
       | _ \<Rightarrow> InvalidJwt),
     py_str = (\<lambda>_. [])\<rparr>"

lemma plain_jwt_sound: "jwt_sound plain_jwt"
  by (simp add: jwt_sound_def plain_jwt_def token_payload_def jget_def required_claims_def)

lemma decode_encoded:
  assumes "jwt_sound J"
  shows "decode_token J T now (Some expected)
      (jwt_encode J (ts_secret T) (ts_algorithm T) (token_payload subject role ttype jti t0 ex)) =
    (if now < of_int \<lfloor>ex\<rfloor> then if of_int \<lfloor>t0\<rfloor> \<le> now
       then if ttype = expected
            then Inr \<lparr>cl_subject = subject, cl_role = (if role = [] then role_value RViewer else role),
                      cl_type = JStr ttype, cl_jti = jti, cl_expires_at = of_int \<lfloor>ex\<rfloor>\<rparr>
            else Inl (raise_app InvalidTokenError (Some (''Expected a '' @ expected @ '' token.'')) [])
       else Inl (raise_app InvalidTokenError (Some ''Token is invalid.'') [])
     else Inl (raise_app InvalidTokenError (Some ''Token has expired.'') []))"
  using assms unfolding decode_token_def jwt_sound_def
  by (simp add: token_payload_def jget_def from_timestamp_def text_of_def)

text \<open>
  What the code relies on in Fernet: with usable keys, a token made under the first key is ASCII
  and is read by every list that holds that key; \<open>rotate\<close> reads it and encrypts again under the
  first key.
\<close>

definition fernet_sound :: "fernet \<Rightarrow> bool" where
  "fernet_sound F \<longleftrightarrow>
     (\<forall>k ks ks' n m p. fernet_key_ok F k \<longrightarrow> k \<in> set ks' \<longrightarrow> list_all (fernet_key_ok F) ks' \<longrightarrow>
        is_ascii k \<longrightarrow>
        (let t = multi_encrypt F (k # ks) n p in
         is_ascii t \<and> multi_decrypt F ks' t = Some p \<and>
         multi_rotate F ks' m t = Some (multi_encrypt F ks' m p)))"

text \<open>
  A library with that behaviour: one-letter keys in front of the text spelled in sixteen letters.
\<close>

definition spell :: "string \<Rightarrow> string" where
  "spell p = concat (map (\<lambda>c. [char_of (65 + ord_of c div 16), char_of (65 + ord_of c mod 16)]) p)"

fun unspell :: "string \<Rightarrow> string" where
  "unspell (a # b # s) = char_of ((ord_of a - 65) * 16 + (ord_of b - 65)) # unspell s"
| "unspell _ = []"

definition plain_fernet :: fernet where
  "plain_fernet = \<lparr>
     fernet_key_ok = (\<lambda>k. length k = 1),
     multi_encrypt = (\<lambda>ks n p. hd ks @ spell p),
     multi_decrypt = (\<lambda>ks t. if take 1 t \<in> set ks then Some (unspell (tl t)) else None),
     multi_rotate = (\<lambda>ks n t. if take 1 t \<in> set ks then Some (hd ks @ tl t) else None)\<rparr>"

lemma ord_of_range: "0 \<le> ord_of c \<and> ord_of c < 256"
  by (metis of_char_mod_256 pos_mod_bound pos_mod_sign zero_less_numeral)

lemma letter_range: "ord_of c div 16 < 16 \<and> 0 \<le> ord_of c div 16"
  using ord_of_range [of c] by linarith

lemma letter_back: "char_of (((65 + ord_of c div 16) mod 256 - 65) * 16 + ((65 + ord_of c mod 16) mod 256 - 65)) = c"
proof -
  have "(65 + ord_of c div 16) mod 256 = 65 + ord_of c div 16"
    "(65 + ord_of c mod 16) mod 256 = 65 + ord_of c mod 16"
    using letter_range [of c] pos_mod_bound [of 16 "ord_of c"] by (simp_all add: mod_pos_pos_trivial)
  then show ?thesis by simp
qed

lemma unspell_spell: "unspell (spell p) = p"
  using letter_back by (induction p) (simp_all add: spell_def)

lemma spell_ascii: "is_ascii (spell p)"
proof -
  have "(65 + ord_of c div 16) mod 256 < 128" "ord_of c mod 16 < 63" for c
    using letter_range [of c] pos_mod_bound [of 16 "ord_of c"] by simp_all
  then show ?thesis by (induction p) (simp_all add: spell_def is_ascii_def)
qed

lemma plain_fernet_sound: "fernet_sound plain_fernet"
  unfolding fernet_sound_def Let_def
proof (intro allI impI)
  fix k ks ks' and n m :: nat and p
  assume "fernet_key_ok plain_fernet k" "k \<in> set ks'" "list_all (fernet_key_ok plain_fernet) ks'"
    "is_ascii k"
  moreover from this(1) obtain c where "k = [c]" by (auto simp: plain_fernet_def length_Suc_conv)
  ultimately show "is_ascii (multi_encrypt plain_fernet (k # ks) n p) \<and>
      multi_decrypt plain_fernet ks' (multi_encrypt plain_fernet (k # ks) n p) = Some p \<and>
      multi_rotate plain_fernet ks' m (multi_encrypt plain_fernet (k # ks) n p) =
        Some (multi_encrypt plain_fernet ks' m p)"
    using spell_ascii [of p] by (simp add: plain_fernet_def unspell_spell is_ascii_def)
qed

lemma fernet_soundD:
  assumes "fernet_sound F" "fernet_key_ok F k" "is_ascii k" "k \<in> set ks'"
    "list_all (fernet_key_ok F) ks'"
  shows "is_ascii (multi_encrypt F (k # ks) n p) \<and>
    multi_decrypt F ks' (multi_encrypt F (k # ks) n p) = Some p \<and>
    multi_rotate F ks' m (multi_encrypt F (k # ks) n p) = Some (multi_encrypt F ks' m p)"
  using assms unfolding fernet_sound_def Let_def by blast

lemma secret_cipher_Inr:
  "secret_cipher F keys = Inr ks \<longleftrightarrow>
   ks = keys \<and> keys \<noteq> [] \<and> list_all (\<lambda>k. is_ascii k \<and> fernet_key_ok F k) keys"
  by (auto simp: secret_cipher_def)

section \<open>Properties\<close>

text \<open>C29: The two tokens of a pair are what they say: until it expires, each decodes, as a token of
  its own type and of no other, to the subject and role it was issued for, and after its
  lifetime it is refused as expired; the pair's ids are fresh and, with distinct uuids,
  different.\<close>

theorem token_roundtrip:
  "jwt_sound J \<Longrightarrow> issue_pair J T E subject role w = (Inr p, w') \<Longrightarrow> role \<noteq> [] \<Longrightarrow> now_at E \<le> now \<Longrightarrow>
   decode_token J T now (Some ''access'') (access_token p) =
     (if now < of_int \<lfloor>now_at E + ts_access_ttl T\<rfloor>
      then Inr \<lparr>cl_subject = subject, cl_role = role, cl_type = JStr ''access'',
                cl_jti = uuid_of E (drawn w), cl_expires_at = of_int \<lfloor>now_at E + ts_access_ttl T\<rfloor>\<rparr>
      else Inl (raise_app InvalidTokenError (Some ''Token has expired.'') [])) \<and>
   decode_token J T now (Some ''refresh'') (refresh_token p) =
     (if now < of_int \<lfloor>now_at E + ts_refresh_ttl T\<rfloor>
      then Inr \<lparr>cl_subject = subject, cl_role = role, cl_type = JStr ''refresh'',
                cl_jti = uuid_of E (Suc (drawn w)),
                cl_expires_at = of_int \<lfloor>now_at E + ts_refresh_ttl T\<rfloor>\<rparr>
      else Inl (raise_app InvalidTokenError (Some ''Token has expired.'') [])) \<and>
   (\<exists>e. decode_token J T now (Some ''access'') (refresh_token p) = Inl e) \<and>
   (\<exists>e. decode_token J T now (Some ''refresh'') (access_token p) = Inl e)"
proof -
  assume J: "jwt_sound J" and p: "issue_pair J T E subject role w = (Inr p, w')"
    and r: "role \<noteq> []" and n: "now_at E \<le> now"
  from n have nbf: "of_int \<lfloor>now_at E\<rfloor> \<le> now" by linarith
  show ?thesis using r nbf issue_pair_tokens [OF p]
    by (simp add: decode_encoded [OF J])
qed

theorem token_roundtrip_witness:
  "\<exists>p :: (string \<times> string \<times> (string \<times> json) list) token_pair. decode_token plain_jwt
      \<lparr>ts_secret = ''k'', ts_algorithm = ''HS256'', ts_access_ttl = 1800, ts_refresh_ttl = 9000\<rparr>
      100 (Some ''access'') (access_token p) =
    Inr \<lparr>cl_subject = ''u1'', cl_role = ''viewer'', cl_type = JStr ''access'', cl_jti = ''a'',
         cl_expires_at = 1800\<rparr>"
proof -
  let ?T = "\<lparr>ts_secret = ''k'', ts_algorithm = ''HS256'', ts_access_ttl = 1800, ts_refresh_ttl = 9000\<rparr>"
  let ?E = "\<lparr>now_at = 0, uuid_of = (\<lambda>n. replicate (Suc n) CHR ''a''), strict_columns = False\<rparr>"
  let ?w = "\<lparr>tables = empty_db, drawn = 0, bus = new_bus 1\<rparr>"
  obtain p w' where p: "issue_pair plain_jwt ?T ?E ''u1'' ''viewer'' ?w = (Inr p, w')"
    using issue_pair_returns by blast
  have "''viewer'' \<noteq> []" "now_at ?E \<le> 100" by simp_all
  note r = token_roundtrip [OF plain_jwt_sound p this]
  show ?thesis by (rule exI [of _ p]) (simp add: r)
qed



end
