(* ===== verification/Throttle.thy ===== *)
theory Throttle
  imports PyStr Errors
begin

text \<open>
  Brute-force throttling of logins: \<open>app/security/throttle.py\<close>.  The clock is an argument
  of each operation.  The in-process throttle keeps its entries in a dictionary; the Redis
  throttle keeps such a dictionary as its fallback beside a Redis server, whose commands
  (a client's calls, which may raise) are a parameter.
\<close>

definition normalise :: "string \<Rightarrow> string" where
  "normalise identity = py_lower (py_strip identity)"

section \<open>The in-process throttle\<close>

record entry =
  failures :: int
  locked_until :: real

type_synonym entries = "string \<rightharpoonup> entry"

definition fresh_entry :: entry where
  "fresh_entry = \<lparr>failures = 0, locked_until = 0\<rparr>"

definition mem_is_locked :: "real \<Rightarrow> string \<Rightarrow> entries \<Rightarrow> bool \<times> entries" where
  "mem_is_locked now identity es =
     (let key = normalise identity in
      case es key of
        None \<Rightarrow> (False, es)
      | Some e \<Rightarrow>
          if locked_until e = 0 then (False, es)
          else if now < locked_until e then (True, es)
          else (False, es(key := None)))"

definition mem_retry_after :: "real \<Rightarrow> string \<Rightarrow> entries \<Rightarrow> int" where
  "mem_retry_after now identity es =
     (case es (normalise identity) of
        None \<Rightarrow> 0
      | Some e \<Rightarrow> if locked_until e = 0 then 0 else max 0 \<lfloor>locked_until e - now\<rfloor>)"

definition mem_record_failure :: "int \<Rightarrow> int \<Rightarrow> real \<Rightarrow> string \<Rightarrow> entries \<Rightarrow> entries" where
  "mem_record_failure max_attempts lockout_seconds now identity es =
     (let key = normalise identity;
          e = (case es key of None \<Rightarrow> fresh_entry | Some e \<Rightarrow> e);
          e1 = e\<lparr>failures := failures e + 1\<rparr>;
          e2 = (if failures e1 \<ge> max_attempts
                then e1\<lparr>locked_until := now + of_int lockout_seconds\<rparr> else e1)
      in es(key \<mapsto> e2))"

definition mem_record_success :: "string \<Rightarrow> entries \<Rightarrow> entries" where
  "mem_record_success identity es = es(normalise identity := None)"

section \<open>The Redis throttle\<close>

record 'r redis =
  r_exists :: "string \<Rightarrow> 'r \<Rightarrow> (exn + bool) \<times> 'r"
  r_ttl :: "string \<Rightarrow> 'r \<Rightarrow> (exn + int) \<times> 'r"
  r_incr :: "string \<Rightarrow> 'r \<Rightarrow> (exn + int) \<times> 'r"
  r_expire :: "string \<Rightarrow> int \<Rightarrow> 'r \<Rightarrow> (exn + unit) \<times> 'r"
  r_set :: "string \<Rightarrow> int \<Rightarrow> 'r \<Rightarrow> (exn + unit) \<times> 'r"
  r_delete :: "string list \<Rightarrow> 'r \<Rightarrow> (exn + unit) \<times> 'r"

definition failure_prefix :: string where "failure_prefix = ''login_fail:''"
definition lock_prefix :: string where "lock_prefix = ''login_lock:''"

definition redis_is_locked ::
  "'r redis \<Rightarrow> real \<Rightarrow> string \<Rightarrow> entries \<times> 'r \<Rightarrow> bool \<times> (entries \<times> 'r)" where
  "redis_is_locked ops now identity s =
     (case r_exists ops (lock_prefix @ normalise identity) (snd s) of
        (Inr True, r) \<Rightarrow> (True, (fst s, r))
      | (_, r) \<Rightarrow> (case mem_is_locked now identity (fst s) of (b, es) \<Rightarrow> (b, (es, r))))"

definition redis_retry_after ::
  "'r redis \<Rightarrow> real \<Rightarrow> string \<Rightarrow> entries \<times> 'r \<Rightarrow> int \<times> (entries \<times> 'r)" where
  "redis_retry_after ops now identity s =
     (case r_ttl ops (lock_prefix @ normalise identity) (snd s) of
        (Inr ttl, r) \<Rightarrow>
          if ttl > 0 then (ttl, (fst s, r)) else (mem_retry_after now identity (fst s), (fst s, r))
      | (Inl _, r) \<Rightarrow> (mem_retry_after now identity (fst s), (fst s, r)))"

definition redis_count ::
  "'r redis \<Rightarrow> int \<Rightarrow> int \<Rightarrow> string \<Rightarrow> 'r \<Rightarrow> 'r" where
  "redis_count ops max_attempts lockout_seconds key r0 =
     (case r_incr ops (failure_prefix @ key) r0 of
        (Inl _, r1) \<Rightarrow> r1
      | (Inr n, r1) \<Rightarrow>
          (case (if n = 1 then r_expire ops (failure_prefix @ key) lockout_seconds r1
                 else (Inr (), r1)) of
             (Inl _, r2) \<Rightarrow> r2
           | (Inr _, r2) \<Rightarrow>
               if n \<ge> max_attempts then snd (r_set ops (lock_prefix @ key) lockout_seconds r2)
               else r2))"

definition redis_record_failure ::
  "'r redis \<Rightarrow> int \<Rightarrow> int \<Rightarrow> real \<Rightarrow> string \<Rightarrow> entries \<times> 'r \<Rightarrow> entries \<times> 'r" where
  "redis_record_failure ops max_attempts lockout_seconds now identity s =
     (mem_record_failure max_attempts lockout_seconds now identity (fst s),
      redis_count ops max_attempts lockout_seconds (normalise identity) (snd s))"

definition redis_record_success :: "'r redis \<Rightarrow> string \<Rightarrow> entries \<times> 'r \<Rightarrow> entries \<times> 'r" where
  "redis_record_success ops identity s =
     (mem_record_success identity (fst s),
      snd (r_delete ops [failure_prefix @ normalise identity, lock_prefix @ normalise identity] (snd s)))"

section \<open>The interface\<close>

text \<open>
  What a caller of a throttle relies on: how the failure count and the end of the lockout
  of an identity change.  A check that finds the identity locked changes neither; one that
  does not has found no lock, or one that has run out and is forgiven.
\<close>

locale login_throttle =
  fixes is_locked :: "real \<Rightarrow> string \<Rightarrow> 's \<Rightarrow> bool \<times> 's"
    and record_failure :: "real \<Rightarrow> string \<Rightarrow> 's \<Rightarrow> 's"
    and failures_of :: "string \<Rightarrow> 's \<Rightarrow> int"
    and lock_end :: "string \<Rightarrow> 's \<Rightarrow> real"
    and max_attempts :: int
    and lockout :: int
  assumes locked_keeps: "is_locked t i s = (True, s') \<Longrightarrow>
      failures_of i s' = failures_of i s \<and> lock_end i s' = lock_end i s"
    and unlocked: "is_locked t i s = (False, s') \<Longrightarrow>
      (lock_end i s = 0 \<and> failures_of i s' = failures_of i s \<or>
       lock_end i s \<noteq> 0 \<and> lock_end i s \<le> t \<and> failures_of i s' = 0) \<and> lock_end i s' = 0"
    and failure_counts: "failures_of i (record_failure t i s) = failures_of i s + 1"
    and failure_locks: "lock_end i (record_failure t i s) =
      (if failures_of i s + 1 \<ge> max_attempts then t + of_int lockout else lock_end i s)"

text \<open>
  Attempts to guess a password: each checks the lock and, if it is open, makes one guess,
  which fails.  \<open>guesses\<close> counts the guesses; an attempt is the times of its two calls.
\<close>

fun guesses ::
  "(real \<Rightarrow> string \<Rightarrow> 's \<Rightarrow> bool \<times> 's) \<Rightarrow> (real \<Rightarrow> string \<Rightarrow> 's \<Rightarrow> 's) \<Rightarrow>
   string \<Rightarrow> (real \<times> real) list \<Rightarrow> 's \<Rightarrow> int" where
  "guesses is_locked record_failure i [] s = 0"
| "guesses is_locked record_failure i (a # as) s =
     (case is_locked (fst a) i s of
        (True, s') \<Rightarrow> guesses is_locked record_failure i as s'
      | (False, s') \<Rightarrow>
          1 + guesses is_locked record_failure i as (record_failure (snd a) i s'))"

context login_throttle begin

text \<open>How many guesses are left before \<open>e\<close>.\<close>

definition left :: "real \<Rightarrow> string \<Rightarrow> 's \<Rightarrow> int" where
  "left e i s = (if lock_end i s \<ge> e then 0
                 else if lock_end i s = 0 then max 1 (max_attempts - failures_of i s)
                 else max_attempts)"

lemma left_nonneg: "1 \<le> max_attempts \<Longrightarrow> 0 \<le> left e i s"
  by (simp add: left_def max_def)

lemma locked_costs_nothing: "is_locked t i s = (True, s') \<Longrightarrow> left e i s' = left e i s"
  using locked_keeps [of t i s s'] by (simp add: left_def)

lemma guess_costs_one:
  assumes "0 \<le> b" "1 \<le> max_attempts" "e \<le> b + of_int lockout" "b \<le> t" "t < e" "b \<le> t'"
    and "is_locked t i s = (False, s')"
  shows "left e i (record_failure t' i s') \<le> left e i s - 1"
proof -
  have "(lock_end i s = 0 \<and> failures_of i s' = failures_of i s \<or>
      lock_end i s \<noteq> 0 \<and> lock_end i s \<le> t \<and> failures_of i s' = 0)" "lock_end i s' = 0"
    using unlocked [OF assms(7)] by auto
  moreover from this have "lock_end i s < e" using assms by auto
  ultimately show ?thesis using assms by (auto simp: left_def failure_counts failure_locks)
qed

lemma guesses_left:
  assumes "0 \<le> b" "1 \<le> max_attempts" "e \<le> b + of_int lockout"
    and "\<forall>a\<in>set as. b \<le> fst a \<and> fst a < e \<and> b \<le> snd a"
  shows "guesses is_locked record_failure i as s \<le> left e i s"
  using assms(4)
proof (induction as arbitrary: s)
  case Nil
  show ?case using left_nonneg [OF assms(2)] by simp
next
  case (Cons a as)
  obtain c s' where l: "is_locked (fst a) i s = (c, s')" by (cases "is_locked (fst a) i s")
  have IH: "guesses is_locked record_failure i as s2 \<le> left e i s2" for s2
    using Cons by simp
  show ?case
  proof (cases c)
    case True
    with l locked_costs_nothing [of "fst a" i s s'] IH [of s'] show ?thesis by simp
  next
    case False
    with Cons.prems l guess_costs_one [OF assms(1-3), of "fst a" "snd a" i s s'] IH [of "record_failure (snd a) i s'"]
    show ?thesis by simp
  qed
qed

lemma guesses_bounded:
  assumes "0 \<le> b" "1 \<le> max_attempts" "e \<le> b + of_int lockout" "0 \<le> failures_of i s"
    and "\<forall>a\<in>set as. b \<le> fst a \<and> fst a < e \<and> b \<le> snd a"
  shows "guesses is_locked record_failure i as s \<le> max_attempts"
  using guesses_left [OF assms(1-3,5), of i s] assms(2,4)
  by (auto simp: left_def max_def split: if_splits)

end

section \<open>The backends provide it\<close>

definition entry_failures :: "string \<Rightarrow> entries \<Rightarrow> int" where
  "entry_failures i es = (case es (normalise i) of None \<Rightarrow> 0 | Some e \<Rightarrow> failures e)"

definition entry_lock_end :: "string \<Rightarrow> entries \<Rightarrow> real" where
  "entry_lock_end i es = (case es (normalise i) of None \<Rightarrow> 0 | Some e \<Rightarrow> locked_until e)"

lemmas throttle_defs =
  mem_is_locked_def mem_record_failure_def mem_record_success_def entry_failures_def
  entry_lock_end_def fresh_entry_def Let_def

interpretation mem: login_throttle mem_is_locked "mem_record_failure k l" entry_failures
  entry_lock_end k l
  for k l
  by unfold_locales (auto simp: throttle_defs split: option.splits if_splits)

lemma redis_is_locked_False:
  "redis_is_locked ops t i s = (False, s') \<Longrightarrow> mem_is_locked t i (fst s) = (False, fst s')"
  by (auto simp: redis_is_locked_def split: prod.splits sum.splits bool.splits)

lemma redis_is_locked_True:
  "redis_is_locked ops t i s = (True, s') \<Longrightarrow>
   fst s' = fst s \<or> mem_is_locked t i (fst s) = (True, fst s')"
  by (auto simp: redis_is_locked_def split: prod.splits sum.splits bool.splits)

interpretation red: login_throttle "redis_is_locked ops" "redis_record_failure ops k l"
  "\<lambda>i s. entry_failures i (fst s)" "\<lambda>i s. entry_lock_end i (fst s)" k l
  for ops :: "'r redis" and k l
proof unfold_locales
  show "entry_failures i (fst s') = entry_failures i (fst s) \<and>
      entry_lock_end i (fst s') = entry_lock_end i (fst s)"
    if "redis_is_locked ops t i s = (True, s')" for t i s s'
    using redis_is_locked_True [OF that] mem.locked_keeps by metis
  show "(entry_lock_end i (fst s) = 0 \<and> entry_failures i (fst s') = entry_failures i (fst s) \<or>
       entry_lock_end i (fst s) \<noteq> 0 \<and> entry_lock_end i (fst s) \<le> t \<and>
       entry_failures i (fst s') = 0) \<and> entry_lock_end i (fst s') = 0"
    if "redis_is_locked ops t i s = (False, s')" for t i s s'
    using mem.unlocked [OF redis_is_locked_False [OF that]] .
qed (simp_all add: redis_record_failure_def mem.failure_counts mem.failure_locks)

section \<open>Properties\<close>

text \<open>Brute force is bounded on either backend: against one identity, whatever failures were
  counted before and whatever the Redis server answers or raises, at most \<open>max_attempts\<close>
  passwords can be tried in any period no longer than the lockout.\<close>

theorem brute_force_bounded:
  "0 \<le> b \<Longrightarrow> 1 \<le> max_attempts \<Longrightarrow> e \<le> b + of_int lockout \<Longrightarrow>
   \<forall>a\<in>set as. b \<le> fst a \<and> fst a < e \<and> b \<le> snd a \<Longrightarrow> 0 \<le> entry_failures i es \<Longrightarrow>
   guesses mem_is_locked (mem_record_failure max_attempts lockout) i as es \<le> max_attempts \<and>
   guesses (redis_is_locked ops) (redis_record_failure ops max_attempts lockout) i as (es, r)
     \<le> max_attempts"
  using mem.guesses_bounded [of b max_attempts e lockout i es as]
    red.guesses_bounded [of b max_attempts e lockout i "(es, r)" as ops]
  by auto

theorem brute_force_bounded_witness:
  "guesses mem_is_locked (mem_record_failure 2 300) ''bob'' [(1, 1), (2, 2), (3, 3)] Map.empty \<le> 2"
  by (rule brute_force_bounded [of 1 2 300 300 "[(1, 1), (2, 2), (3, 3)]" "''bob''" Map.empty,
        THEN conjunct1]) (simp_all add: entry_failures_def)

text \<open>A Redis outage never opens the door: whenever the in-process counter has the identity
  locked, so does the Redis throttle, whatever Redis answers or raises and however the identity is
  spelled.\<close>

theorem redis_never_fails_open:
  "fst (mem_is_locked now identity es) \<Longrightarrow> normalise other = normalise identity \<Longrightarrow>
   fst (redis_is_locked ops now other (es, r))"
  by (auto simp: redis_is_locked_def mem_is_locked_def Let_def split: prod.splits sum.splits bool.splits)

theorem redis_never_fails_open_witness:
  "fst (redis_is_locked \<lparr>r_exists = (\<lambda>k r. (Inl (PyExc OtherError ''down''), r)),
      r_ttl = (\<lambda>k r. (Inr 0, r)), r_incr = (\<lambda>k r. (Inr 0, r)), r_expire = (\<lambda>k n r. (Inr (), r)),
      r_set = (\<lambda>k n r. (Inr (), r)), r_delete = (\<lambda>ks r. (Inr (), r))\<rparr>
     5 '' Bob'' ([''bob'' \<mapsto> \<lparr>failures = 5, locked_until = 300\<rparr>], ()))"
proof (rule redis_never_fails_open [of 5 "''bob''"])
  have n: "normalise ''bob'' = ''bob''" "normalise '' Bob'' = ''bob''" by code_simp+
  show "fst (mem_is_locked 5 ''bob'' [''bob'' \<mapsto> \<lparr>failures = 5, locked_until = 300\<rparr>])"
    by (simp add: mem_is_locked_def n)
  show "normalise '' Bob'' = normalise ''bob''" by (simp add: n)
qed

end
