(* ===== verification/Auth.thy ===== *)
theory Auth
  imports Credentials Throttle
begin

text \<open>
  Accounts, logins, token rotation, API keys and who a request acts for:
  \<open>app/services/auth_service.py\<close>, the user, API-key and audit repositories, the
  authentication dependencies of \<open>app/api/deps.py\<close> and \<open>app/scripts/create_admin.py\<close>.
  A request runs at one time of the wall clock (\<open>now_at\<close>) and one of the monotonic clock.
\<close>

section \<open>What the service is built from\<close>

record 't throttle_ops =
  op_is_locked :: "real \<Rightarrow> string \<Rightarrow> 't \<Rightarrow> bool \<times> 't"
  op_retry_after :: "real \<Rightarrow> string \<Rightarrow> 't \<Rightarrow> int \<times> 't"
  op_failure :: "real \<Rightarrow> string \<Rightarrow> 't \<Rightarrow> 't"
  op_success :: "string \<Rightarrow> 't \<Rightarrow> 't"

definition mem_throttle :: "int \<Rightarrow> int \<Rightarrow> entries throttle_ops" where
  "mem_throttle max_attempts lockout_seconds =
     \<lparr>op_is_locked = mem_is_locked, op_retry_after = (\<lambda>now i es. (mem_retry_after now i es, es)),
      op_failure = mem_record_failure max_attempts lockout_seconds, op_success = mem_record_success\<rparr>"

definition redis_throttle :: "'r redis \<Rightarrow> int \<Rightarrow> int \<Rightarrow> (entries \<times> 'r) throttle_ops" where
  "redis_throttle ops max_attempts lockout_seconds =
     \<lparr>op_is_locked = redis_is_locked ops, op_retry_after = redis_retry_after ops,
      op_failure = redis_record_failure ops max_attempts lockout_seconds,
      op_success = redis_record_success ops\<rparr>"

record 's store_ops =
  op_revoke :: "real \<Rightarrow> string \<Rightarrow> int \<Rightarrow> 's \<Rightarrow> (exn + unit) \<times> 's"
  op_is_revoked :: "real \<Rightarrow> string \<Rightarrow> 's \<Rightarrow> (exn + bool) \<times> 's"

definition mem_store_ops :: "revocations store_ops" where
  "mem_store_ops =
     \<lparr>op_revoke = (\<lambda>now j n m. (Inr (), mem_revoke now j n m)),
      op_is_revoked = (\<lambda>now j m. (case mem_is_revoked now j m of (b, m') \<Rightarrow> (Inr b, m')))\<rparr>"

record ('t, 's, 'tok) auth_deps =
  ad_env :: env
  ad_clock :: real
  ad_open_registration :: bool
  ad_default_role :: string
  ad_argon :: argon
  ad_salt :: nat
  ad_jwt :: "'tok jwt"
  ad_tokens :: token_service
  ad_throttle :: "'t throttle_ops"
  ad_store :: "'s store_ops"
  ad_sha256 :: "string \<Rightarrow> string"
  ad_random :: string

record ('t, 's) auth_world = world +
  throttle_st :: 't
  revoked_st :: 's

definition is_locked :: "('t, 's, 'tok) auth_deps \<Rightarrow> string \<Rightarrow> ('t, 's) auth_world \<Rightarrow> (exn + bool) \<times> ('t, 's) auth_world" where
  "is_locked A i w = (case op_is_locked (ad_throttle A) (ad_clock A) i (throttle_st w) of
     (b, t) \<Rightarrow> (Inr b, w\<lparr>throttle_st := t\<rparr>))"

definition retry_after :: "('t, 's, 'tok) auth_deps \<Rightarrow> string \<Rightarrow> ('t, 's) auth_world \<Rightarrow> (exn + int) \<times> ('t, 's) auth_world" where
  "retry_after A i w = (case op_retry_after (ad_throttle A) (ad_clock A) i (throttle_st w) of
     (n, t) \<Rightarrow> (Inr n, w\<lparr>throttle_st := t\<rparr>))"

definition count_failure :: "('t, 's, 'tok) auth_deps \<Rightarrow> string \<Rightarrow> ('t, 's) auth_world \<Rightarrow> (exn + unit) \<times> ('t, 's) auth_world" where
  "count_failure A i w =
     (Inr (), w\<lparr>throttle_st := op_failure (ad_throttle A) (ad_clock A) i (throttle_st w)\<rparr>)"

definition clear_failures :: "('t, 's, 'tok) auth_deps \<Rightarrow> string \<Rightarrow> ('t, 's) auth_world \<Rightarrow> (exn + unit) \<times> ('t, 's) auth_world" where
  "clear_failures A i w = (Inr (), w\<lparr>throttle_st := op_success (ad_throttle A) i (throttle_st w)\<rparr>)"

definition revoke_jti :: "('t, 's, 'tok) auth_deps \<Rightarrow> string \<Rightarrow> int \<Rightarrow> ('t, 's) auth_world \<Rightarrow> (exn + unit) \<times> ('t, 's) auth_world" where
  "revoke_jti A j n w = (case op_revoke (ad_store A) (ad_clock A) j n (revoked_st w) of
     (r, s) \<Rightarrow> (r, w\<lparr>revoked_st := s\<rparr>))"

definition jti_revoked :: "('t, 's, 'tok) auth_deps \<Rightarrow> string \<Rightarrow> ('t, 's) auth_world \<Rightarrow> (exn + bool) \<times> ('t, 's) auth_world" where
  "jti_revoked A j w = (case op_is_revoked (ad_store A) (ad_clock A) j (revoked_st w) of
     (r, s) \<Rightarrow> (r, w\<lparr>revoked_st := s\<rparr>))"

section \<open>Repositories\<close>

definition get_by_email :: "string \<Rightarrow> (user_row option, 'x) eff" where
  "get_by_email email = select_one (\<lambda>d. filter (\<lambda>u. usr_email u = py_lower email) (users d))"

definition email_exists :: "string \<Rightarrow> (bool, 'x) eff" where
  "email_exists email = queryM (\<lambda>d. filter (\<lambda>u. usr_email u = py_lower email) (users d) \<noteq> [])"

definition find_user :: "string \<Rightarrow> (user_row option, 'x) eff" where
  "find_user i = queryM (\<lambda>d. find (\<lambda>u. usr_id u = i) (users d))"

definition list_users :: "int \<Rightarrow> int \<Rightarrow> (user_row list, 'x) eff" where
  "list_users limit offset = queryM (\<lambda>d. paged limit offset (sort_key usr_created (users d)))"

definition active_with_role :: "string \<Rightarrow> db \<Rightarrow> nat" where
  "active_with_role r d = length (filter (\<lambda>u. usr_role u = r \<and> usr_active u) (users d))"

definition count_active_with_role :: "string \<Rightarrow> (nat, 'x) eff" where
  "count_active_with_role r = queryM (active_with_role r)"

definition add_user :: "env \<Rightarrow> user_row \<Rightarrow> (unit, 'x) eff" where
  "add_user E u =
     insertM E [(usr_email u, 320), (usr_password_hash u, 255)]
       (\<lambda>d. usr_id u \<in> set (map usr_id (users d)) \<or> usr_email u \<in> set (map usr_email (users d)))
       (\<lambda>d. d\<lparr>users := users d @ [u]\<rparr>)"

definition update_user :: "string \<Rightarrow> (user_row \<Rightarrow> user_row) \<Rightarrow> (unit, 'x) eff" where
  "update_user i f = changeM (\<lambda>d. d\<lparr>users := update_where (\<lambda>u. usr_id u = i) f (users d)\<rparr>)"

definition get_by_hash :: "string \<Rightarrow> (key_row option, 'x) eff" where
  "get_by_hash h = select_one (\<lambda>d. filter (\<lambda>k. key_hash k = h \<and> key_active k) (api_keys d))"

definition list_for_user :: "string \<Rightarrow> (key_row list, 'x) eff" where
  "list_for_user i = queryM (\<lambda>d. sort_key key_created (filter (\<lambda>k. key_user k = i) (api_keys d)))"

definition get_for_user :: "string \<Rightarrow> string \<Rightarrow> (key_row option, 'x) eff" where
  "get_for_user k i = select_one (\<lambda>d. filter (\<lambda>r. key_id r = k \<and> key_user r = i) (api_keys d))"

definition add_key :: "env \<Rightarrow> key_row \<Rightarrow> (unit, 'x) eff" where
  "add_key E k =
     insertM E [(key_name k, 64), (key_hash k, 64), (key_prefix_text k, 16)]
       (\<lambda>d. key_id k \<in> set (map key_id (api_keys d)) \<or> key_hash k \<in> set (map key_hash (api_keys d)))
       (\<lambda>d. d\<lparr>api_keys := api_keys d @ [k]\<rparr>)"

definition update_key :: "string \<Rightarrow> (key_row \<Rightarrow> key_row) \<Rightarrow> (unit, 'x) eff" where
  "update_key i f = changeM (\<lambda>d. d\<lparr>api_keys := update_where (\<lambda>k. key_id k = i) f (api_keys d)\<rparr>)"

section \<open>Registration and login\<close>

definition remaining_ttl :: "real \<Rightarrow> real \<Rightarrow> int" where
  "remaining_ttl now expires_at = max 1 \<lfloor>expires_at - now\<rfloor>"

definition register ::
  "('t, 's, 'tok) auth_deps \<Rightarrow> string \<Rightarrow> string \<Rightarrow> role option \<Rightarrow> (user_row, 'x) eff" where
  "register A email0 password role_arg =
     (if \<not> ad_open_registration A
      then raiseM (raise_app PermissionDeniedError (Some ''Open registration is disabled.'') [])
      else let email = py_lower email0; E = ad_env A in
        bindM (email_exists email) (\<lambda>taken.
        if taken then raiseM (raise_app ConflictError (Some ''A user with this email already exists.'') [])
        else let r = (case role_arg of Some r \<Rightarrow> r
               | None \<Rightarrow> (case role_of (ad_default_role A) of Some r \<Rightarrow> r | None \<Rightarrow> RViewer)) in
          bindM (fresh_id E) (\<lambda>i.
          let u = \<lparr>usr_id = i, usr_email = email,
                   usr_password_hash = argon_hash (ad_argon A) (ad_salt A) password,
                   usr_role = role_value r, usr_active = True, usr_created = now_at E\<rparr> in
          bindM (add_user E u) (\<lambda>_.
          bindM (record_audit E ''user.register'' (Some i) None []) (\<lambda>_.
          returnM u)))))"

definition bad_login :: exn where
  "bad_login = raise_app AuthenticationError (Some ''Invalid email or password.'') []"

text \<open>For an unknown address the password is checked against a decoy, for its time only.\<close>

definition authenticate ::
  "('t, 's, 'tok) auth_deps \<Rightarrow> string \<Rightarrow> string \<Rightarrow> string option \<Rightarrow> ('t, 's) auth_world \<Rightarrow>
   (exn + 'tok token_pair) \<times> ('t, 's) auth_world" where
  "authenticate A email0 password ip =
     (let email = py_lower email0; E = ad_env A in
      bindM (is_locked A email) (\<lambda>locked.
      if locked
      then bindM (retry_after A email) (\<lambda>n.
           raiseM (raise_app AccountLockedError None [(''retry_after'', JInt n)]))
      else bindM (get_by_email email) (\<lambda>found.
        case found of
          None \<Rightarrow>
            bindM (count_failure A email) (\<lambda>_.
            bindM (record_audit E ''auth.login_failed'' None ip []) (\<lambda>_.
            raiseM bad_login))
        | Some user \<Rightarrow>
            if \<not> verify_password (ad_argon A) (usr_password_hash user) password
            then bindM (count_failure A email) (\<lambda>_.
                 bindM (record_audit E ''auth.login_failed'' (Some (usr_id user)) ip []) (\<lambda>_.
                 raiseM bad_login))
            else if \<not> usr_active user then raiseM bad_login
            else bindM (clear_failures A email) (\<lambda>_.
              bindM (if needs_rehash (ad_argon A) (usr_password_hash user)
                     then update_user (usr_id user)
                       (\<lambda>u. u\<lparr>usr_password_hash := argon_hash (ad_argon A) (ad_salt A) password\<rparr>)
                     else returnM ()) (\<lambda>_.
              bindM (record_audit E ''auth.login'' (Some (usr_id user)) ip []) (\<lambda>_.
              issue_pair (ad_jwt A) (ad_tokens A) E (usr_id user) (usr_role user)))))))"

section \<open>Token rotation and logout\<close>

definition refresh ::
  "('t, 's, 'tok) auth_deps \<Rightarrow> 'tok \<Rightarrow> ('t, 's) auth_world \<Rightarrow>
   (exn + 'tok token_pair) \<times> ('t, 's) auth_world" where
  "refresh A tok =
     (let E = ad_env A in
      bindM (liftM (decode_token (ad_jwt A) (ad_tokens A) (now_at E) (Some ''refresh'') tok)) (\<lambda>c.
      bindM (jti_revoked A (cl_jti c)) (\<lambda>revoked.
      if revoked
      then raiseM (raise_app AuthenticationError (Some ''This refresh token has been revoked.'') [])
      else bindM (find_user (cl_subject c)) (\<lambda>found.
        case found of
          None \<Rightarrow> raiseM (raise_app AuthenticationError (Some ''User no longer active.'') [])
        | Some user \<Rightarrow>
            if \<not> usr_active user
            then raiseM (raise_app AuthenticationError (Some ''User no longer active.'') [])
            else bindM (revoke_jti A (cl_jti c) (remaining_ttl (now_at E) (cl_expires_at c))) (\<lambda>_.
                 issue_pair (ad_jwt A) (ad_tokens A) E (usr_id user) (usr_role user))))))"

text \<open>A token that does not decode is ignored; a failing store only for the access token.\<close>

definition logout ::
  "('t, 's, 'tok) auth_deps \<Rightarrow> 'tok \<Rightarrow> 'tok option \<Rightarrow> ('t, 's) auth_world \<Rightarrow>
   (exn + unit) \<times> ('t, 's) auth_world" where
  "logout A refresh_tok access_tok =
     (let E = ad_env A;
          decode = (\<lambda>ttype tok. decode_token (ad_jwt A) (ad_tokens A) (now_at E) (Some ttype) tok) in
      bindM (case decode ''refresh'' refresh_tok of
          Inl _ \<Rightarrow> returnM ()
        | Inr c \<Rightarrow>
            bindM (revoke_jti A (cl_jti c) (remaining_ttl (now_at E) (cl_expires_at c))) (\<lambda>_.
            record_audit E ''auth.logout'' (Some (cl_subject c)) None [])) (\<lambda>_.
      case access_tok of
        None \<Rightarrow> returnM ()
      | Some tok \<Rightarrow> (case decode ''access'' tok of
            Inl _ \<Rightarrow> returnM ()
          | Inr c \<Rightarrow> catchM
              (revoke_jti A (cl_jti c) (remaining_ttl (now_at E) (cl_expires_at c)))
              (\<lambda>_. returnM ()))))"

section \<open>Administration\<close>

definition get_user :: "string \<Rightarrow> (user_row, 'x) eff" where
  "get_user i = bindM (find_user i) (\<lambda>found.
     case found of None \<Rightarrow> raiseM (raise_app NotFoundError (Some ''User not found.'') [])
     | Some u \<Rightarrow> returnM u)"

definition set_user_role :: "env \<Rightarrow> string \<Rightarrow> string \<Rightarrow> role \<Rightarrow> (user_row, 'x) eff" where
  "set_user_role E actor_id user_id r =
     bindM (get_user user_id) (\<lambda>user.
     if usr_id user = actor_id \<and> r \<noteq> RAdmin
     then raiseM (raise_app ValidationError (Some ''You cannot remove your own admin role.'') [])
     else bindM (count_active_with_role (role_value RAdmin)) (\<lambda>n.
       if usr_role user = role_value RAdmin \<and> r \<noteq> RAdmin \<and> n \<le> 1
       then raiseM (raise_app ValidationError (Some ''Refusing to demote the last active admin.'') [])
       else bindM (update_user user_id (\<lambda>u. u\<lparr>usr_role := role_value r\<rparr>)) (\<lambda>_.
         bindM (record_audit E ''user.role_change'' (Some actor_id) None
                  [(''target'', JStr user_id), (''role'', JStr (role_value r))]) (\<lambda>_.
         returnM (user\<lparr>usr_role := role_value r\<rparr>)))))"

definition set_user_active :: "env \<Rightarrow> string \<Rightarrow> string \<Rightarrow> bool \<Rightarrow> (user_row, 'x) eff" where
  "set_user_active E actor_id user_id active =
     bindM (get_user user_id) (\<lambda>user.
     if usr_id user = actor_id \<and> \<not> active
     then raiseM (raise_app ValidationError (Some ''You cannot deactivate your own account.'') [])
     else bindM (count_active_with_role (role_value RAdmin)) (\<lambda>n.
       if \<not> active \<and> usr_role user = role_value RAdmin \<and> n \<le> 1
       then raiseM (raise_app ValidationError (Some ''Refusing to deactivate the last active admin.'') [])
       else bindM (update_user user_id (\<lambda>u. u\<lparr>usr_active := active\<rparr>)) (\<lambda>_.
         bindM (record_audit E (if active then ''user.activate'' else ''user.deactivate'')
                  (Some actor_id) None [(''target'', JStr user_id)]) (\<lambda>_.
         returnM (user\<lparr>usr_active := active\<rparr>)))))"

text \<open>\<open>create_admin._create\<close>: create the account, or promote, re-enable and reset it.\<close>

definition create_admin :: "env \<Rightarrow> argon \<Rightarrow> nat \<Rightarrow> string \<Rightarrow> string \<Rightarrow> (string, 'x) eff" where
  "create_admin E H salt email password =
     bindM (get_by_email email) (\<lambda>existing.
     case existing of
       Some u \<Rightarrow>
         bindM (update_user (usr_id u) (\<lambda>u. u\<lparr>usr_role := role_value RAdmin, usr_active := True,
                  usr_password_hash := argon_hash H salt password\<rparr>)) (\<lambda>_.
         returnM (''Promoted existing account '' @ email @ '' to admin and reset its password.''))
     | None \<Rightarrow>
         bindM (fresh_id E) (\<lambda>i.
         bindM (add_user E \<lparr>usr_id = i, usr_email = py_lower email,
                  usr_password_hash = argon_hash H salt password, usr_role = role_value RAdmin,
                  usr_active = True, usr_created = now_at E\<rparr>) (\<lambda>_.
         returnM (''Created admin account '' @ email @ ''.''))))"

definition min_password_length :: nat where "min_password_length = 10"

text \<open>\<open>main\<close>: the exit status; a short password changes nothing.\<close>

definition create_admin_main :: "env \<Rightarrow> argon \<Rightarrow> nat \<Rightarrow> string \<Rightarrow> string \<Rightarrow> (int, 'x) eff" where
  "create_admin_main E H salt email password =
     (if length password < min_password_length then returnM 1
      else bindM (create_admin E H salt email password) (\<lambda>_. returnM 0))"

section \<open>API keys\<close>

definition create_api_key ::
  "('t, 's, 'tok) auth_deps \<Rightarrow> string \<Rightarrow> string \<Rightarrow> (key_row \<times> generated_api_key, 'x) eff" where
  "create_api_key A user_id name =
     (let E = ad_env A in
      bindM (get_user user_id) (\<lambda>user.
      let g = generate_api_key (ad_sha256 A) (ad_random A) in
      bindM (fresh_id E) (\<lambda>i.
      let k = \<lparr>key_id = i, key_user = usr_id user, key_name = name, key_hash = gen_hash g,
               key_prefix_text = gen_prefix g, key_role = usr_role user, key_active = True,
               key_last_used = None, key_created = now_at E\<rparr> in
      bindM (add_key E k) (\<lambda>_.
      bindM (record_audit E ''apikey.create'' (Some (usr_id user)) None [(''name'', JStr name)]) (\<lambda>_.
      returnM (k, g))))))"

definition get_api_key :: "string \<Rightarrow> string \<Rightarrow> (key_row, 'x) eff" where
  "get_api_key user_id k =
     bindM (get_for_user k user_id) (\<lambda>found.
     case found of None \<Rightarrow> raiseM (raise_app NotFoundError (Some ''API key not found.'') [])
     | Some r \<Rightarrow> returnM r)"

definition revoke_api_key :: "env \<Rightarrow> string \<Rightarrow> string \<Rightarrow> (unit, 'x) eff" where
  "revoke_api_key E user_id k =
     bindM (get_for_user k user_id) (\<lambda>found.
     case found of
       None \<Rightarrow> raiseM (raise_app NotFoundError (Some ''API key not found.'') [])
     | Some r \<Rightarrow>
         bindM (update_key (key_id r) (\<lambda>r. r\<lparr>key_active := False\<rparr>)) (\<lambda>_.
         record_audit E ''apikey.revoke'' (Some user_id) None [(''id'', JStr k)]))"

definition resolve_api_key ::
  "('t, 's, 'tok) auth_deps \<Rightarrow> string \<Rightarrow> (key_row, 'x) eff" where
  "resolve_api_key A raw_key =
     bindM (get_by_hash (hash_api_key (ad_sha256 A) raw_key)) (\<lambda>found.
     case found of
       None \<Rightarrow> raiseM (raise_app InvalidApiKeyError None [])
     | Some r \<Rightarrow>
         if \<not> key_active r then raiseM (raise_app InvalidApiKeyError None [])
         else bindM (find_user (key_user r)) (\<lambda>owner.
           case owner of
             None \<Rightarrow> raiseM (raise_app InvalidApiKeyError None [])
           | Some u \<Rightarrow>
               if \<not> usr_active u then raiseM (raise_app InvalidApiKeyError None [])
               else bindM (update_key (key_id r) (\<lambda>r. r\<lparr>key_last_used := Some (now_at (ad_env A))\<rparr>)) (\<lambda>_.
                    returnM (r\<lparr>key_last_used := Some (now_at (ad_env A))\<rparr>))))"

section \<open>Who a request acts for\<close>

record principal =
  pr_id :: string
  pr_role :: string
  pr_kind :: string

definition get_current_principal ::
  "('t, 's, 'tok) auth_deps \<Rightarrow> 'tok option \<Rightarrow> string option \<Rightarrow> ('t, 's) auth_world \<Rightarrow>
   (exn + principal) \<times> ('t, 's) auth_world" where
  "get_current_principal A credentials x_api_key =
     (case credentials of
        Some tok \<Rightarrow>
          bindM (liftM (decode_token (ad_jwt A) (ad_tokens A) (now_at (ad_env A)) (Some ''access'') tok)) (\<lambda>c.
          bindM (jti_revoked A (cl_jti c)) (\<lambda>revoked.
          if revoked then raiseM (raise_app AuthenticationError (Some ''Token has been revoked.'') [])
          else bindM (find_user (cl_subject c)) (\<lambda>found.
            case found of
              None \<Rightarrow> raiseM (raise_app AuthenticationError (Some ''This account no longer exists.'') [])
            | Some u \<Rightarrow>
                if \<not> usr_active u
                then raiseM (raise_app AuthenticationError (Some ''This account is disabled.'') [])
                else returnM \<lparr>pr_id = usr_id u, pr_role = usr_role u, pr_kind = ''user''\<rparr>)))
      | None \<Rightarrow>
          (case x_api_key of
             Some raw \<Rightarrow>
               if raw = [] then raiseM (raise_app AuthenticationError
                 (Some ''Authentication required (bearer token or X-API-Key).'') [])
               else bindM (resolve_api_key A raw) (\<lambda>r.
                 returnM \<lparr>pr_id = key_user r, pr_role = key_role r, pr_kind = ''api_key''\<rparr>)
           | None \<Rightarrow> raiseM (raise_app AuthenticationError
               (Some ''Authentication required (bearer token or X-API-Key).'') [])))"

definition require_permission :: "permission \<Rightarrow> principal \<Rightarrow> exn + principal" where
  "require_permission p pr =
     (if has_permission (pr_role pr) p then Inr pr
      else Inl (raise_app PermissionDeniedError
        (Some (''Role '' @ [CHR 0x27] @ pr_role pr @ [CHR 0x27] @ '' lacks permission '' @ [CHR 0x27] @
               permission_value p @ [CHR 0x27] @ ''.'')) []))"


section \<open>Requests\<close>

text \<open>Each request is a unit of work; what it returns is left out.\<close>

datatype 'tok auth_request =
    RegisterReq string string
  | LoginReq string string "string option"
  | RefreshReq 'tok
  | LogoutReq 'tok "'tok option"
  | SetRoleReq string string role
  | SetActiveReq string string bool
  | CreateKeyReq string string
  | RevokeKeyReq string string
  | IdentifyReq "'tok option" "string option"
  | CreateAdminReq string string

definition forget :: "('w \<Rightarrow> (exn + 'a) \<times> 'w) \<Rightarrow> 'w \<Rightarrow> (exn + unit) \<times> 'w" where
  "forget m w = (case m w of (Inl e, w1) \<Rightarrow> (Inl e, w1) | (Inr _, w1) \<Rightarrow> (Inr (), w1))"

fun serve ::
  "('t, 's, 'tok) auth_deps \<Rightarrow> 'tok auth_request \<Rightarrow> ('t, 's) auth_world \<Rightarrow>
   (exn + unit) \<times> ('t, 's) auth_world" where
  "serve A (RegisterReq email pw) = unit_of_work (forget (register A email pw None))"
| "serve A (LoginReq email pw ip) = unit_of_work (forget (authenticate A email pw ip))"
| "serve A (RefreshReq tok) = unit_of_work (forget (refresh A tok))"
| "serve A (LogoutReq tok acc) = unit_of_work (forget (logout A tok acc))"
| "serve A (SetRoleReq actor i r) = unit_of_work (forget (set_user_role (ad_env A) actor i r))"
| "serve A (SetActiveReq actor i b) = unit_of_work (forget (set_user_active (ad_env A) actor i b))"
| "serve A (CreateKeyReq i name) = unit_of_work (forget (create_api_key A i name))"
| "serve A (RevokeKeyReq i k) = unit_of_work (forget (revoke_api_key (ad_env A) i k))"
| "serve A (IdentifyReq tok key) = unit_of_work (forget (get_current_principal A tok key))"
| "serve A (CreateAdminReq email pw) =
     unit_of_work (forget (create_admin (ad_env A) (ad_argon A) (ad_salt A) email pw))"

fun serve_all ::
  "(('t, 's, 'tok) auth_deps \<times> 'tok auth_request) list \<Rightarrow> ('t, 's) auth_world \<Rightarrow> ('t, 's) auth_world" where
  "serve_all [] w = w"
| "serve_all ((A, q) # qs) w = serve_all qs (snd (serve A q w))"

section \<open>Lemmas\<close>

lemma forget_tables [simp]: "snd (forget m w) = snd (m w)"
  by (auto simp: forget_def split: prod.splits sum.splits)

lemma preserves_forget [inv_intros]: "preserves P m \<Longrightarrow> preserves P (forget m)"
  by (simp add: preserves_def)

lemma preserves_stores [inv_intros]:
  "preserves P (is_locked A i)" "preserves P (retry_after A i)" "preserves P (count_failure A i)"
  "preserves P (clear_failures A i)" "preserves P (revoke_jti A i n)" "preserves P (jti_revoked A i)"
  by (auto simp: preserves_def is_locked_def retry_after_def count_failure_def clear_failures_def
      revoke_jti_def jti_revoked_def split: prod.splits)

text \<open>
  The accounts: ids and addresses are unique, addresses are kept in lower case, and somebody can
  administer the installation.
\<close>

definition accounts_ok :: "db \<Rightarrow> bool" where
  "accounts_ok d \<longleftrightarrow>
     distinct (map usr_id (users d)) \<and> distinct (map usr_email (users d)) \<and>
     (\<forall>u\<in>set (users d). py_lower (usr_email u) = usr_email u) \<and>
     0 < active_with_role (role_value RAdmin) d"

lemma accounts_ok_other [simp]:
  "accounts_ok (d\<lparr>audits := x\<rparr>) = accounts_ok d" "accounts_ok (d\<lparr>api_keys := y\<rparr>) = accounts_ok d"
  by (simp_all add: accounts_ok_def active_with_role_def)

lemma accounts_add:
  "accounts_ok d \<Longrightarrow> usr_id u \<notin> set (map usr_id (users d)) \<Longrightarrow>
   usr_email u \<notin> set (map usr_email (users d)) \<Longrightarrow> py_lower (usr_email u) = usr_email u \<Longrightarrow>
   accounts_ok (d\<lparr>users := users d @ [u]\<rparr>)"
  by (auto simp: accounts_ok_def active_with_role_def)

lemma accounts_update:
  assumes "accounts_ok d" "\<And>u. usr_id (f u) = usr_id u" "\<And>u. usr_email (f u) = usr_email u"
    "0 < active_with_role (role_value RAdmin) (d\<lparr>users := update_where p f (users d)\<rparr>)"
  shows "accounts_ok (d\<lparr>users := update_where p f (users d)\<rparr>)"
  using assms by (auto simp: accounts_ok_def dest!: update_where_set)

lemma count_update:
  "distinct (map usr_id us) \<Longrightarrow> u \<in> set us \<Longrightarrow>
   length (filter q (update_where (\<lambda>x. usr_id x = usr_id u) f us)) + (if q u then 1 else 0) =
   length (filter q us) + (if q (f u) then 1 else 0)"
proof (induction us)
  case (Cons x us)
  show ?case
  proof (cases "x = u")
    case True
    with Cons.prems(1) have "update_where (\<lambda>y. usr_id y = usr_id u) f us = us"
      by (auto simp: update_where_def intro!: map_idI) (metis imageI)
    with True show ?thesis by (simp add: update_where_def)
  next
    case False
    with Cons.prems have u: "u \<in> set us" by simp
    with Cons.prems(1) have "usr_id x \<noteq> usr_id u" by auto
    with Cons.IH [OF _ u] Cons.prems(1) show ?thesis by (simp add: update_where_def)
  qed
qed simp

lemma active_after_update:
  "distinct (map usr_id (users d)) \<Longrightarrow> u \<in> set (users d) \<Longrightarrow>
   active_with_role r (d\<lparr>users := update_where (\<lambda>x. usr_id x = usr_id u) f (users d)\<rparr>) +
     (if usr_role u = r \<and> usr_active u then 1 else 0) =
   active_with_role r d + (if usr_role (f u) = r \<and> usr_active (f u) then 1 else 0)"
  using count_update [of "users d" u "\<lambda>u. usr_role u = r \<and> usr_active u" f]
  by (simp add: active_with_role_def)

lemma update_absent: "\<forall>u\<in>set (users d). usr_id u \<noteq> i \<Longrightarrow>
   d\<lparr>users := update_where (\<lambda>u. usr_id u = i) f (users d)\<rparr> = d"
  by (auto simp: update_where_def intro!: map_idI db.equality)

text \<open>An update that leaves role and activity alone, or makes an active admin.\<close>

lemma preserves_update_user:
  assumes f: "\<And>u. usr_id (f u) = usr_id u \<and> usr_email (f u) = usr_email u"
    and a: "\<And>u. usr_role u = role_value RAdmin \<and> usr_active u \<Longrightarrow>
      usr_role (f u) = role_value RAdmin \<and> usr_active (f u)"
  shows "preserves accounts_ok (update_user i f)"
  unfolding update_user_def
proof (rule preserves_change)
  fix d assume ok: "accounts_ok d"
  show "accounts_ok (d\<lparr>users := update_where (\<lambda>u. usr_id u = i) f (users d)\<rparr>)"
  proof (cases "\<exists>u\<in>set (users d). usr_id u = i")
    case True
    then obtain u where u: "u \<in> set (users d)" "usr_id u = i" by blast
    have "0 < active_with_role (role_value RAdmin)
        (d\<lparr>users := update_where (\<lambda>x. usr_id x = usr_id u) f (users d)\<rparr>)"
      using ok a [of u] active_after_update [OF _ u(1), of "role_value RAdmin" f]
      by (auto simp: accounts_ok_def split: if_splits)
    with ok f u(2) show ?thesis by (intro accounts_update) auto
  next
    case False
    with ok show ?thesis by (subst update_absent) auto
  qed
qed

lemma preserves_accounts_audit [inv_intros]: "preserves accounts_ok (record_audit E a u ip dt)"
  unfolding record_audit_def by (intro inv_intros) simp

lemma preserves_accounts_keys [inv_intros]:
  "preserves accounts_ok (add_key E k)" "preserves accounts_ok (update_key i f)"
  unfolding add_key_def update_key_def by (intro inv_intros; simp)+

lemma preserves_accounts_add [inv_intros]:
  "py_lower (usr_email u) = usr_email u \<Longrightarrow> preserves accounts_ok (add_user E u)"
  unfolding add_user_def by (intro inv_intros) (simp add: accounts_add)

lemmas query_defs = get_by_email_def email_exists_def find_user_def list_users_def
  count_active_with_role_def get_by_hash_def list_for_user_def get_for_user_def

lemma preserves_queries [inv_intros]:
  "preserves P (get_by_email e)" "preserves P (email_exists e)" "preserves P (find_user i)"
  "preserves P (get_by_hash h)" "preserves P (get_for_user k i)" "preserves P (count_active_with_role r)"
  "preserves P (get_user i)" "preserves P (get_api_key i k)"
  unfolding query_defs get_user_def get_api_key_def by (intro inv_intros)+

text \<open>Demotion and deactivation: the guards leave an active administrator.\<close>

lemma guarded_update:
  assumes ok: "accounts_ok d" and u: "find (\<lambda>u. usr_id u = i) (users d) = Some u"
    and f: "\<And>u. usr_id (f u) = usr_id u \<and> usr_email (f u) = usr_email u"
    and g: "usr_role u = role_value RAdmin \<Longrightarrow> usr_active u \<Longrightarrow>
      active_with_role (role_value RAdmin) d \<le> 1 \<Longrightarrow>
      usr_role (f u) = role_value RAdmin \<and> usr_active (f u)"
  shows "accounts_ok (d\<lparr>users := update_where (\<lambda>u. usr_id u = i) f (users d)\<rparr>)"
proof -
  from u have m: "u \<in> set (users d)" "usr_id u = i" by (auto simp: find_Some_iff)
  have "0 < active_with_role (role_value RAdmin)
      (d\<lparr>users := update_where (\<lambda>x. usr_id x = usr_id u) f (users d)\<rparr>)"
    using ok active_after_update [OF _ m(1), of "role_value RAdmin" f] g
    unfolding accounts_ok_def by (cases "active_with_role (role_value RAdmin) d \<le> 1") (auto split: if_splits)
  with ok f m(2) show ?thesis by (intro accounts_update) auto
qed

lemma preserves_guarded:
  fixes tail :: "user_row \<Rightarrow> ('b, 'x) eff"
  assumes f: "\<And>u. usr_id (f u) = usr_id u \<and> usr_email (f u) = usr_email u"
    and h: "\<And>u n. \<not> h u n \<Longrightarrow> usr_role u = role_value RAdmin \<Longrightarrow> usr_active u \<Longrightarrow> n \<le> 1 \<Longrightarrow>
      usr_role (f u) = role_value RAdmin \<and> usr_active (f u)"
    and tl: "\<And>u. preserves accounts_ok (tail u)"
  shows "preserves accounts_ok (bindM (get_user i) (\<lambda>u. if g u then raiseM e1
     else bindM (count_active_with_role (role_value RAdmin)) (\<lambda>n. if h u n then raiseM e2
       else bindM (update_user i f) (\<lambda>_. tail u))))" (is "preserves _ ?m")
  unfolding preserves_def
proof (intro allI impI)
  fix w :: "'x world_scheme" assume ok: "accounts_ok (tables w)"
  show "accounts_ok (tables (snd (?m w)))"
  proof (cases "find (\<lambda>u. usr_id u = i) (users (tables w))")
    case None
    then show ?thesis using ok by (simp add: get_user_def query_defs run_simps)
  next
    case (Some u)
    let ?d = "(tables w)\<lparr>users := update_where (\<lambda>u. usr_id u = i) f (users (tables w))\<rparr>"
    show ?thesis
    proof (cases "g u \<or> h u (active_with_role (role_value RAdmin) (tables w))")
      case True
      then show ?thesis using ok
        by (elim disjE; simp add: get_user_def query_defs run_simps Some)
    next
      case False
      then have "?m w = tail u (w\<lparr>tables := ?d\<rparr>)"
        by (simp add: get_user_def query_defs run_simps update_user_def Some)
      moreover have "accounts_ok ?d" using False h f by (intro guarded_update [OF ok Some]) auto
      ultimately show ?thesis using tl by (simp add: preserves_def)
    qed
  qed
qed

lemma preserves_set_user_role [inv_intros]: "preserves accounts_ok (set_user_role E actor i r)"
  unfolding set_user_role_def by (rule preserves_guarded) (auto intro!: inv_intros)

lemma preserves_set_user_active [inv_intros]: "preserves accounts_ok (set_user_active E actor i b)"
  unfolding set_user_active_def by (rule preserves_guarded) (auto intro!: inv_intros)

lemma preserves_register [inv_intros]: "preserves accounts_ok (register A email pw r)"
  unfolding register_def Let_def by (intro inv_intros) simp_all

lemma preserves_authenticate [inv_intros]: "preserves accounts_ok (authenticate A email pw ip)"
  unfolding authenticate_def Let_def by (intro inv_intros preserves_update_user) simp_all

lemma preserves_refresh [inv_intros]: "preserves accounts_ok (refresh A tok)"
  unfolding refresh_def Let_def by (intro inv_intros)

lemma preserves_logout [inv_intros]: "preserves accounts_ok (logout A tok acc)"
  unfolding logout_def Let_def by (intro inv_intros) (auto split: sum.splits intro!: inv_intros)

lemma preserves_keys [inv_intros]:
  "preserves accounts_ok (create_api_key A i name)" "preserves accounts_ok (revoke_api_key E i k)"
  "preserves accounts_ok (resolve_api_key A raw)"
  unfolding create_api_key_def revoke_api_key_def resolve_api_key_def Let_def by (intro inv_intros)+

lemma preserves_identify [inv_intros]: "preserves accounts_ok (get_current_principal A tok key)"
  unfolding get_current_principal_def by (intro inv_intros)

lemma preserves_create_admin [inv_intros]: "preserves accounts_ok (create_admin E H n email pw)"
  unfolding create_admin_def by (intro inv_intros preserves_update_user) simp_all

lemma preserves_serve: "preserves accounts_ok (serve A q)"
  by (cases q) (simp_all only: serve.simps, (intro inv_intros)+)

lemma serve_all_ok: "accounts_ok (tables w) \<Longrightarrow> accounts_ok (tables (serve_all qs w))"
proof (induction qs w rule: serve_all.induct)
  case (2 A q qs w)
  then show ?case using preserves_serve [of A q] by (simp add: preserves_def)
qed simp

end
