(* ===== verification/AuthProps.thy ===== *)
theory AuthProps
  imports Auth
begin

text \<open>
  What the accounts, logins, tokens and API keys of \<open>Auth\<close> guarantee.
\<close>

lemma find_unique:
  "distinct (map k rs) \<Longrightarrow> filter (\<lambda>r. k r = v) rs =
     (case find (\<lambda>r. k r = v) rs of None \<Rightarrow> [] | Some r \<Rightarrow> [r])"
proof (cases "find (\<lambda>r. k r = v) rs")
  case None
  then have "filter (\<lambda>r. k r = v) rs = []" by (auto simp: find_None_iff filter_empty_conv)
  with None show ?thesis by simp
next
  case (Some r)
  assume d: "distinct (map k rs)"
  from Some have "r \<in> set rs" "k r = v" by (auto simp: find_Some_iff)
  with Some show ?thesis using filter_unique_mem [OF d, of r] by simp
qed

lemma filter_singleton: "filter P xs = [u] \<Longrightarrow> u \<in> set xs \<and> P u"
proof -
  assume "filter P xs = [u]"
  then have "u \<in> set (filter P xs)" by simp
  then show ?thesis by simp
qed

lemma get_by_email_eq:
  "distinct (map usr_email (users (tables w))) \<Longrightarrow>
   get_by_email email w = (Inr (find (\<lambda>u. usr_email u = py_lower email) (users (tables w))), w)"
  by (simp add: get_by_email_def select_one_def find_unique one_or_none_def split: option.splits)

lemma record_audit_result:
  "(\<exists>w'. record_audit E a u ip dt w = (Inr (), w')) \<or>
   (\<exists>e w'. record_audit E a u ip dt w = (Inl e, w') \<and> (e = data_error \<or> e = integrity_error))"
  by (auto simp: record_audit_def run_simps insertM_def)

lemma record_audit_stores [simp]:
  fixes w :: "('t, 's) auth_world"
  shows "throttle_st (snd (record_audit E a u ip dt w)) = throttle_st w"
    "revoked_st (snd (record_audit E a u ip dt w)) = revoked_st w"
  by (auto simp: record_audit_def run_simps insertM_def)

text \<open>Counting a failed attempt, then failing: the tail of both refusals.\<close>

lemma refusal_tail:
  fixes w :: "('t, 's) auth_world"
  shows "\<exists>e w'. unit_of_work (bindM (count_failure A i) (\<lambda>_.
      bindM (record_audit E a u ip dt) (\<lambda>_. raiseM bad_login))) w = (Inl e, w') \<and> tables w' = tables w \<and>
      throttle_st w' = op_failure (ad_throttle A) (ad_clock A) i (throttle_st w) \<and>
      e \<in> {bad_login, data_error, integrity_error}"
proof -
  let ?w = "w\<lparr>throttle_st := op_failure (ad_throttle A) (ad_clock A) i (throttle_st w)\<rparr>"
  have c: "count_failure A i w = (Inr (), ?w)" by (simp add: count_failure_def)
  obtain r w1 where r: "record_audit E a u ip dt ?w = (r, w1)" by (cases "record_audit E a u ip dt ?w")
  with record_audit_stores(1) [of E a u ip dt ?w]
  have t: "throttle_st w1 = throttle_st ?w" by simp
  from r record_audit_result [of E a u ip dt ?w] have "r = Inr () \<or> r = Inl data_error \<or> r = Inl integrity_error"
    by auto
  then show ?thesis using c r t
    by (elim disjE; simp add: unit_of_work_def bindM_def raiseM_def)
qed


lemma failed_login_run:
  fixes w :: "('t, 's) auth_world"
  assumes l: "op_is_locked (ad_throttle A) (ad_clock A) (py_lower email) (throttle_st w) = (False, t)"
    and d: "distinct (map usr_email (users (tables w)))"
    and v: "\<forall>u\<in>set (users (tables w)). usr_email u = py_lower email \<longrightarrow>
      \<not> verify_password (ad_argon A) (usr_password_hash u) password"
  shows "\<exists>e w'. unit_of_work (authenticate A email password ip) w = (Inl e, w') \<and> tables w' = tables w \<and>
    throttle_st w' = op_failure (ad_throttle A) (ad_clock A) (py_lower email) t \<and>
    e \<in> {bad_login, data_error, integrity_error}"
proof -
  let ?w = "w\<lparr>throttle_st := t\<rparr>"
  have g: "get_by_email (py_lower email) ?w =
      (Inr (find (\<lambda>u. usr_email u = py_lower email) (users (tables w))), ?w)"
    using d get_by_email_eq [of ?w "py_lower email"] by simp
  obtain a u where "authenticate A email password ip w =
      bindM (count_failure A (py_lower email)) (\<lambda>_. bindM (record_audit (ad_env A) a u ip []) (\<lambda>_. raiseM bad_login)) ?w"
  proof (cases "find (\<lambda>u. usr_email u = py_lower email) (users (tables w))")
    case None
    show ?thesis by (rule that [of "''auth.login_failed''" None])
      (simp add: authenticate_def Let_def is_locked_def l g None bindM_def [of "get_by_email i" for i]
        bindM_def [of "is_locked A i" for i])
  next
    case (Some x)
    with v have "\<not> verify_password (ad_argon A) (usr_password_hash x) password"
      by (auto simp: find_Some_iff)
    then show ?thesis by - (rule that [of "''auth.login_failed''" "Some (usr_id x)"],
      simp add: authenticate_def Let_def is_locked_def l g Some bindM_def [of "get_by_email i" for i]
        bindM_def [of "is_locked A i" for i])
  qed
  then have "unit_of_work (authenticate A email password ip) w = unit_of_work
      (bindM (count_failure A (py_lower email)) (\<lambda>_. bindM (record_audit (ad_env A) a u ip []) (\<lambda>_. raiseM bad_login))) ?w"
    by (simp add: unit_of_work_def split: prod.splits sum.splits)
  then show ?thesis using refusal_tail [of A "py_lower email" "ad_env A" a u ip "[]" ?w] by simp
qed

lemma authenticate_grants:
  fixes w :: "('t, 's) auth_world"
  assumes "authenticate A email password ip w = (Inr p, w')"
  shows "\<exists>u t. op_is_locked (ad_throttle A) (ad_clock A) (py_lower email) (throttle_st w) = (False, t) \<and>
    u \<in> set (users (tables w)) \<and> usr_email u = py_lower email \<and> usr_active u \<and>
    verify_password (ad_argon A) (usr_password_hash u) password \<and>
    (\<exists>w1. issue_pair (ad_jwt A) (ad_tokens A) (ad_env A) (usr_id u) (usr_role u) w1 = (Inr p, w'))"
proof -
  obtain b t where l: "op_is_locked (ad_throttle A) (ad_clock A) (py_lower email) (throttle_st w) = (b, t)"
    by fastforce
  show ?thesis
  proof (cases b)
    case True
    with assms l show ?thesis
      by (auto simp: authenticate_def Let_def is_locked_def bindM_Inr raiseM_def)
  next
    case False
    from assms obtain r where r: "get_by_email (py_lower email) (w\<lparr>throttle_st := t\<rparr>) = (Inr r, w\<lparr>throttle_st := t\<rparr>)"
      "(case r of None \<Rightarrow> None | Some u \<Rightarrow> Some u) = r"
      by (auto simp: authenticate_def Let_def is_locked_def l False bindM_Inr get_by_email_def select_one_def split: option.splits)
    show ?thesis
    proof (cases r)
      case None
      with r assms show ?thesis
        by (auto simp: authenticate_def Let_def is_locked_def l False bindM_Inr raiseM_def)
    next
      case (Some u)
      with r(1) have u: "u \<in> set (users (tables w))" "usr_email u = py_lower email"
        by (auto simp: get_by_email_def select_one_def one_or_none_def split: list.splits dest: filter_singleton)
      with r(1) Some assms False l show ?thesis
        by (auto simp: authenticate_def Let_def is_locked_def bindM_Inr raiseM_def split: if_splits)
    qed
  qed
qed


section \<open>Rotation\<close>

lemma refresh_revokes:
  fixes w :: "('t, revocations) auth_world"
  assumes s: "ad_store A = mem_store_ops"
    and c: "decode_token (ad_jwt A) (ad_tokens A) (now_at (ad_env A)) (Some ''refresh'') tok = Inr c"
    and r: "refresh A tok w = (Inr p, w')"
  shows "\<exists>m. revoked_st w' =
    mem_revoke (ad_clock A) (cl_jti c) (remaining_ttl (now_at (ad_env A)) (cl_expires_at c)) m"
proof -
  have i: "revoked_st w2 = revoked_st w1"
    if "issue_pair J T E x y w1 = (Inr q, w2)" for J T E x y q and w1 w2 :: "('t, revocations) auth_world"
    using that by (auto simp: issue_pair_def encode_token_def run_simps Let_def)
  obtain b s1 where m: "mem_is_revoked (ad_clock A) (cl_jti c) (revoked_st w) = (b, s1)"
    by fastforce
  note run = refresh_def Let_def c run_simps jti_revoked_def revoke_jti_def s mem_store_ops_def m
    find_user_def
  have b: "\<not> b" using r by (auto simp: run)
  obtain u where u: "find (\<lambda>u. usr_id u = cl_subject c) (users (tables w)) = Some u"
    using r b by (cases "find (\<lambda>u. usr_id u = cl_subject c) (users (tables w))") (simp_all add: run)
  have "usr_active u" using r b u by (cases "usr_active u") (simp_all add: run)
  with r b u have "issue_pair (ad_jwt A) (ad_tokens A) (ad_env A) (usr_id u) (usr_role u)
      (w\<lparr>revoked_st := mem_revoke (ad_clock A) (cl_jti c)
        (remaining_ttl (now_at (ad_env A)) (cl_expires_at c)) s1\<rparr>) = (Inr p, w')"
    by (simp add: run)
  from i [OF this] show ?thesis by auto
qed

lemma revoked_refused:
  fixes w :: "('t, revocations) auth_world"
  assumes s: "ad_store B = mem_store_ops"
    and c: "\<And>c. decode_token (ad_jwt B) (ad_tokens B) (now_at (ad_env B)) (Some ''refresh'') tok = Inr c \<Longrightarrow>
      fst (mem_is_revoked (ad_clock B) (cl_jti c) (revoked_st w))"
  shows "\<exists>e. fst (refresh B tok w) = Inl e"
proof (cases "decode_token (ad_jwt B) (ad_tokens B) (now_at (ad_env B)) (Some ''refresh'') tok")
  case (Inr d)
  from c [OF this] show ?thesis
    by (auto simp: refresh_def Let_def Inr run_simps jti_revoked_def s mem_store_ops_def split: prod.splits)
qed (simp add: refresh_def Let_def run_simps)

section \<open>Principals and keys\<close>

lemma resolve_grants:
  assumes "resolve_api_key A raw w = (Inr k, w')"
  shows "\<exists>r u. r \<in> set (api_keys (tables w)) \<and> key_hash r = hash_api_key (ad_sha256 A) raw \<and> key_active r \<and>
    k = r\<lparr>key_last_used := Some (now_at (ad_env A))\<rparr> \<and> u \<in> set (users (tables w)) \<and>
    usr_id u = key_user r \<and> usr_active u"
  using assms
  by (auto simp: resolve_api_key_def bindM_Inr get_by_hash_def select_one_def one_or_none_def raiseM_def
      find_user_def queryM_def returnM_def find_Some_iff split: option.splits list.splits if_splits
      dest!: filter_singleton) (metis nth_mem)

lemma principal_grants:
  fixes w :: "('t, 's) auth_world"
  assumes g: "get_current_principal A credentials key w = (Inr pr, w')"
  shows "\<exists>u\<in>set (users (tables w)). usr_id u = pr_id pr \<and> usr_active u \<and>
    (pr_kind pr = ''user'' \<and> credentials \<noteq> None \<and> pr_role pr = usr_role u \<or>
     pr_kind pr = ''api_key'' \<and> credentials = None \<and> key \<noteq> None \<and>
     (\<exists>r\<in>set (api_keys (tables w)). key_user r = usr_id u \<and> key_active r \<and> pr_role pr = key_role r \<and>
        key_hash r = hash_api_key (ad_sha256 A) (the key)))"
proof (cases credentials)
  case None
  with g obtain raw r where k: "key = Some raw" "resolve_api_key A raw w = (Inr r, w')"
    and p: "pr = \<lparr>pr_id = key_user r, pr_role = key_role r, pr_kind = ''api_key''\<rparr>"
    by (auto simp: get_current_principal_def raiseM_def bindM_Inr returnM_def split: option.splits if_splits)
  from resolve_grants [OF k(2)] obtain s u where "s \<in> set (api_keys (tables w))"
    "key_hash s = hash_api_key (ad_sha256 A) raw" "key_active s"
    "r = s\<lparr>key_last_used := Some (now_at (ad_env A))\<rparr>" "u \<in> set (users (tables w))"
    "usr_id u = key_user s" "usr_active u" by blast
  then show ?thesis by (intro bexI [of _ u] conjI disjI2 bexI [of _ s]) (simp_all add: p k None)
next
  case (Some tok)
  with g obtain u i where u: "find (\<lambda>u. usr_id u = i) (users (tables w)) = Some u" "usr_active u"
    and p: "pr = \<lparr>pr_id = usr_id u, pr_role = usr_role u, pr_kind = ''user''\<rparr>"
    by (auto simp: get_current_principal_def bindM_Inr liftM_def jti_revoked_def raiseM_def
        find_user_def queryM_def returnM_def split: option.splits if_splits prod.splits)
  then show ?thesis by (auto simp: p Some find_Some_iff intro!: bexI [of _ u])
qed


lemma create_key_run:
  fixes w :: "'x world_scheme"
  assumes c: "create_api_key A user_id name w = (Inr (k, g), w1)"
  shows "\<exists>u. find (\<lambda>u. usr_id u = user_id) (users (tables w)) = Some u \<and> usr_id u = user_id \<and>
    key_user k = user_id \<and> key_role k = usr_role u \<and> key_active k \<and>
    g = generate_api_key (ad_sha256 A) (ad_random A) \<and> key_hash k = gen_hash g \<and>
    users (tables w1) = users (tables w) \<and> api_keys (tables w1) = api_keys (tables w) @ [k] \<and>
    key_id k \<notin> set (map key_id (api_keys (tables w))) \<and>
    key_hash k \<notin> set (map key_hash (api_keys (tables w)))"
proof -
  have a: "users (tables w2) = users (tables w1) \<and> api_keys (tables w2) = api_keys (tables w1)"
    if "record_audit E x u ip dt w1 = (r, w2)" for E x u ip dt r and w1 w2 :: "'x world_scheme"
    using that by (auto simp: record_audit_def run_simps insertM_def split: if_splits)
  obtain u where u: "find (\<lambda>u. usr_id u = user_id) (users (tables w)) = Some u"
    using c by (cases "find (\<lambda>u. usr_id u = user_id) (users (tables w))")
      (simp_all add: create_api_key_def get_user_def find_user_def run_simps Let_def)
  then have "usr_id u = user_id" by (auto simp: find_Some_iff)
  with c u show ?thesis
    by (auto simp: create_api_key_def get_user_def find_user_def queryM_def fresh_id_def Let_def
        bindM_Inr returnM_def add_key_def insertM_def split: if_splits dest!: a)
qed

lemma resolve_run:
  assumes "filter (\<lambda>k. key_hash k = hash_api_key (ad_sha256 A) raw \<and> key_active k) (api_keys (tables w)) = ks"
  shows "fst (resolve_api_key A raw w) =
    (case ks of
       [] \<Rightarrow> Inl (raise_app InvalidApiKeyError None [])
     | [k] \<Rightarrow> (case find (\<lambda>u. usr_id u = key_user k) (users (tables w)) of
           None \<Rightarrow> Inl (raise_app InvalidApiKeyError None [])
         | Some u \<Rightarrow> if usr_active u then Inr (k\<lparr>key_last_used := Some (now_at (ad_env A))\<rparr>)
                     else Inl (raise_app InvalidApiKeyError None []))
     | _ \<Rightarrow> Inl (PyExc OtherError ''MultipleResultsFound''))"
proof -
  have "k \<in> set ks \<Longrightarrow> key_active k" for k using assms by auto
  then show ?thesis using assms
    by (cases ks rule: list.exhaust) (auto simp: resolve_api_key_def get_by_hash_def run_simps
        one_or_none_def find_user_def update_key_def split: list.splits option.splits)
qed

text \<open>
  The role of an API key is the one its owner had when it was made: demoting the owner changes
  nothing for requests that come with the key.
\<close>

lemma demotion_leaves_api_keys:
  fixes w :: "('t, 's) auth_world"
  assumes s: "set_user_role E actor i r w = (Inr u', w1)"
    and d: "distinct (map usr_id (users (tables w)))"
  shows "fst (resolve_api_key A raw w1) = fst (resolve_api_key A raw w)"
proof -
  have a: "users (tables w2) = users (tables w1) \<and> api_keys (tables w2) = api_keys (tables w1)"
    if "record_audit E x u ip dt w1 = (r, w2)" for E x u ip dt r and w1 w2 :: "('t, 's) auth_world"
    using that by (auto simp: record_audit_def run_simps insertM_def split: if_splits)
  from s have u: "users (tables w1) = update_where (\<lambda>u. usr_id u = i) (\<lambda>u. u\<lparr>usr_role := role_value r\<rparr>) (users (tables w))"
    and k: "api_keys (tables w1) = api_keys (tables w)"
    by (auto simp: set_user_role_def bindM_Inr get_user_def find_user_def queryM_def raiseM_def
        update_user_def changeM_def returnM_def query_defs split: option.splits if_splits dest!: a)
  have "find (\<lambda>u. usr_id u = j) (map (\<lambda>u. if usr_id u = i then u\<lparr>usr_role := x\<rparr> else u) us) =
      map_option (\<lambda>u. if usr_id u = i then u\<lparr>usr_role := x\<rparr> else u) (find (\<lambda>u. usr_id u = j) us)"
    for j x us by (induction us) auto
  note f = this [folded update_where_def]
  show ?thesis unfolding resolve_run [OF refl] k u f
    by (auto split: list.splits option.splits)
qed


section \<open>A small installation\<close>

text \<open>One administrator and one analyst with an API key, for the examples below.\<close>

definition demo_argon :: argon where
  "demo_argon = \<lparr>argon_hash = (\<lambda>n p. CHR ''h'' # p),
     argon_verify = (\<lambda>h p. if h = CHR ''h'' # p then Verified else VerifyMismatch),
     argon_needs_rehash = (\<lambda>h. False)\<rparr>"

definition demo_uuid :: "nat \<Rightarrow> string" where
  "demo_uuid n = replicate n CHR ''x''"

definition demo_deps ::
  "real \<Rightarrow> (entries, revocations, string \<times> string \<times> (string \<times> json) list) auth_deps" where
  "demo_deps t = \<lparr>ad_env = \<lparr>now_at = t, uuid_of = demo_uuid, strict_columns = True\<rparr>, ad_clock = t,
     ad_open_registration = True, ad_default_role = ''viewer'', ad_argon = demo_argon, ad_salt = 0,
     ad_jwt = plain_jwt,
     ad_tokens = \<lparr>ts_secret = ''k'', ts_algorithm = ''HS256'', ts_access_ttl = 1800, ts_refresh_ttl = 9000\<rparr>,
     ad_throttle = mem_throttle 5 300, ad_store = mem_store_ops, ad_sha256 = (\<lambda>s. s),
     ad_random = ''r''\<rparr>"

definition demo_world :: "(entries, revocations) auth_world" where
  "demo_world =
     \<lparr>tables = empty_db\<lparr>users :=
        [\<lparr>usr_id = ''u1'', usr_email = ''root@a'', usr_password_hash = ''hpw'',
          usr_role = ''admin'', usr_active = True, usr_created = 0\<rparr>,
         \<lparr>usr_id = ''u2'', usr_email = ''ann@a'', usr_password_hash = ''hpw2'',
          usr_role = ''analyst'', usr_active = True, usr_created = 1\<rparr>],
        api_keys := [\<lparr>key_id = ''k1'', key_user = ''u2'', key_name = ''ci'', key_hash = ''tip_1'',
          key_prefix_text = ''tip_1'', key_role = ''analyst'', key_active = True,
          key_last_used = None, key_created = 2\<rparr>]\<rparr>,
      drawn = 0, bus = new_bus 1, throttle_st = Map.empty, revoked_st = Map.empty\<rparr>"

lemmas demo_defs = demo_deps_def demo_world_def demo_argon_def demo_uuid_def empty_db_def

lemma demo_ok: "accounts_ok (tables demo_world)"
  by (simp add: demo_defs accounts_ok_def active_with_role_def) code_simp

text \<open>A refresh token of the analyst that expires at 100, and what a refresh of it does.\<close>

definition demo_token :: "string \<times> string \<times> (string \<times> json) list" where
  "demo_token = jwt_encode plain_jwt ''k'' ''HS256''
     (token_payload ''u2'' ''analyst'' ''refresh'' ''j'' 0 100)"

lemma demo_decode:
  "0 \<le> t \<Longrightarrow> t < 100 \<Longrightarrow>
   decode_token (ad_jwt (demo_deps t)) (ad_tokens (demo_deps t)) (now_at (ad_env (demo_deps t)))
     (Some ''refresh'') demo_token =
   Inr \<lparr>cl_subject = ''u2'', cl_role = ''analyst'', cl_type = JStr ''refresh'', cl_jti = ''j'',
        cl_expires_at = 100\<rparr>"
  using decode_encoded [OF plain_jwt_sound, of "ad_tokens (demo_deps t)" t "''refresh''" "''u2''" "''analyst''" "''refresh''" "''j''" 0 100]
  by (simp add: demo_token_def demo_deps_def)

lemma demo_refresh:
  fixes w :: "(entries, revocations) auth_world"
  assumes "0 \<le> t" "t < 100" "users (tables w) = users (tables demo_world)"
    "\<not> fst (mem_is_revoked t ''j'' (revoked_st w))"
  shows "\<exists>p w'. refresh (demo_deps t) demo_token w = (Inr p, w') \<and>
    tables w' = tables w \<and> revoked_st w' = mem_revoke t ''j'' (max 1 \<lfloor>100 - t\<rfloor>)
      (snd (mem_is_revoked t ''j'' (revoked_st w)))"
proof -
  obtain m where m: "mem_is_revoked t ''j'' (revoked_st w) = (False, m)"
    using assms(4) by (cases "mem_is_revoked t ''j'' (revoked_st w)") auto
  show ?thesis using m assms(3) demo_decode [OF assms(1,2)]
    by (simp add: refresh_def Let_def run_simps jti_revoked_def revoke_jti_def find_user_def
        issue_pair_def encode_token_def remaining_ttl_def mem_store_ops_def demo_deps_def demo_world_def)
qed

text \<open>
  The revocation counts whole seconds, rounded down: a token that expires at 100 and was used at
  10.5 is revoked until 99.5, and works a second time at 99.75.
\<close>

lemma last_second_replay:
  "\<exists>p w' q w''. refresh (demo_deps (21 / 2)) demo_token demo_world = (Inr p, w') \<and>
     refresh (demo_deps (399 / 4)) demo_token w' = (Inr q, w'')"
proof -
  obtain p w' where p: "refresh (demo_deps (21 / 2)) demo_token demo_world = (Inr p, w')"
    "tables w' = tables demo_world" "revoked_st w' = mem_revoke (21 / 2) ''j'' 89 Map.empty"
    using demo_refresh [of "21 / 2" demo_world]
    by (auto simp: mem_is_revoked_def demo_world_def floor_eq_iff)
  then have "\<not> fst (mem_is_revoked (399 / 4) ''j'' (revoked_st w'))"
    by (simp add: mem_revoke_def mem_is_revoked_def)
  with p demo_refresh [of "399 / 4" w'] show ?thesis by auto
qed

section \<open>Properties\<close>

text \<open>Accounts stay sound and the installation administrable: after any sequence of registrations,
  logins, refreshes, logouts, role changes, (de)activations, key operations and runs of
  \<open>create_admin\<close>, whether they succeed or are rolled back, user ids and (lower-case) addresses
  are unique and at least one administrator is active.\<close>

theorem always_an_admin:
  "accounts_ok (tables w) \<Longrightarrow> accounts_ok (tables (serve_all qs w))"
  by (rule serve_all_ok)

theorem always_an_admin_witness:
  "accounts_ok (tables (serve_all
     [(demo_deps 1, SetRoleReq ''u2'' ''u1'' RViewer), (demo_deps 2, SetActiveReq ''u2'' ''u1'' False)]
     demo_world))"
  by (rule always_an_admin [OF demo_ok])




text \<open>Tokens are given only for a password: a login that returns a pair found the address unlocked
  and an active account with it whose hash the password verifies, and both tokens are signed
  for that account and its current role.\<close>

theorem login_grants:
  "authenticate A email password ip w = (Inr p, w') \<Longrightarrow>
   \<not> fst (op_is_locked (ad_throttle A) (ad_clock A) (py_lower email) (throttle_st w)) \<and>
   (\<exists>u\<in>set (users (tables w)). usr_email u = py_lower email \<and> usr_active u \<and>
      verify_password (ad_argon A) (usr_password_hash u) password \<and>
      (\<exists>j j'. access_token p = jwt_encode (ad_jwt A) (ts_secret (ad_tokens A)) (ts_algorithm (ad_tokens A))
           (token_payload (usr_id u) (usr_role u) ''access'' j (now_at (ad_env A))
              (now_at (ad_env A) + ts_access_ttl (ad_tokens A))) \<and>
         refresh_token p = jwt_encode (ad_jwt A) (ts_secret (ad_tokens A)) (ts_algorithm (ad_tokens A))
           (token_payload (usr_id u) (usr_role u) ''refresh'' j' (now_at (ad_env A))
              (now_at (ad_env A) + ts_refresh_ttl (ad_tokens A)))))"
  using authenticate_grants [of A email password ip w p w'] issue_pair_tokens by fastforce

theorem login_grants_witness:
  "\<exists>u\<in>set (users (tables demo_world)). usr_email u = ''ann@a'' \<and> usr_active u"
proof -
  have l: "py_lower ''Ann@a'' = ''ann@a''" "py_lower ''ann@a'' = ''ann@a''" by code_simp+
  obtain p w' where "authenticate (demo_deps 5) ''Ann@a'' ''pw2'' None demo_world = (Inr p, w')"
    by (simp add: demo_defs authenticate_def Let_def is_locked_def mem_throttle_def mem_is_locked_def
        run_simps get_by_email_def one_or_none_def verify_password_def clear_failures_def needs_rehash_def
        record_audit_def insertM_def fits_def issue_pair_def encode_token_def l)
  from login_grants [OF this] show ?thesis by (auto simp: l)
qed

text \<open>A refresh token works once: after a refresh returned a new pair, the same token is refused in
  every later request until the revocation lapses - the whole seconds that were left of the
  token's life - whatever the store was used for in between.\<close>

theorem refresh_single_use:
  "ad_store A = mem_store_ops \<Longrightarrow> ad_store B = mem_store_ops \<Longrightarrow>
   decode_token (ad_jwt A) (ad_tokens A) (now_at (ad_env A)) (Some ''refresh'') tok = Inr c \<Longrightarrow>
   refresh A tok w = (Inr p, w') \<Longrightarrow>
   lapse = ad_clock A + of_int (remaining_ttl (now_at (ad_env A)) (cl_expires_at c)) \<Longrightarrow>
   \<forall>op\<in>set ops. op_time op < lapse \<Longrightarrow>
   \<forall>t n. OpRevoke t (cl_jti c) n \<in> set ops \<longrightarrow> lapse \<le> t + of_int (max n 1) \<Longrightarrow>
   revoked_st w2 = fold (run_op mem_revoke mem_is_revoked) ops (revoked_st w') \<Longrightarrow>
   ad_clock B < lapse \<Longrightarrow>
   (\<forall>d. decode_token (ad_jwt B) (ad_tokens B) (now_at (ad_env B)) (Some ''refresh'') tok = Inr d \<longrightarrow>
      cl_jti d = cl_jti c) \<Longrightarrow>
   \<exists>e. fst (refresh B tok w2) = Inl e"
proof -
  assume s: "ad_store A = mem_store_ops" "ad_store B = mem_store_ops"
    and c: "decode_token (ad_jwt A) (ad_tokens A) (now_at (ad_env A)) (Some ''refresh'') tok = Inr c"
    and r: "refresh A tok w = (Inr p, w')"
    and l: "lapse = ad_clock A + of_int (remaining_ttl (now_at (ad_env A)) (cl_expires_at c))"
    and o: "\<forall>op\<in>set ops. op_time op < lapse"
      "\<forall>t n. OpRevoke t (cl_jti c) n \<in> set ops \<longrightarrow> lapse \<le> t + of_int (max n 1)"
    and w2: "revoked_st w2 = fold (run_op mem_revoke mem_is_revoked) ops (revoked_st w')"
    and b: "ad_clock B < lapse"
    and d: "\<forall>d. decode_token (ad_jwt B) (ad_tokens B) (now_at (ad_env B)) (Some ''refresh'') tok = Inr d \<longrightarrow>
      cl_jti d = cl_jti c"
  let ?n = "remaining_ttl (now_at (ad_env A)) (cl_expires_at c)"
  have n: "max ?n 1 = ?n" by (simp add: remaining_ttl_def)
  from refresh_revokes [OF s(1) c r] obtain m where
    m: "revoked_st w' = mem_revoke (ad_clock A) (cl_jti c) ?n m" ..
  have "fst (mem_is_revoked (ad_clock B) (cl_jti c) (revoked_st w2))"
    unfolding w2 m using o b l n by (intro mem_store.stays_revoked) auto
  with d show ?thesis by (intro revoked_refused [OF s(2)]) auto
qed


theorem refresh_single_use_witness:
  "\<exists>p w' e. refresh (demo_deps 10) demo_token demo_world = (Inr p, w') \<and>
     fst (refresh (demo_deps 50) demo_token w') = Inl e"
proof -
  obtain p w' where p: "refresh (demo_deps 10) demo_token demo_world = (Inr p, w')"
    using demo_refresh [of 10 demo_world] by (auto simp: mem_is_revoked_def demo_world_def)
  have s: "ad_store (demo_deps t) = mem_store_ops" "ad_clock (demo_deps t) = t"
    "now_at (ad_env (demo_deps t)) = t" for t by (simp_all add: demo_deps_def)
  have "\<exists>e. fst (refresh (demo_deps 50) demo_token w') = Inl e"
    by (rule refresh_single_use [OF s(1) s(1) demo_decode p refl, of "[]"])
      (simp_all add: s remaining_ttl_def demo_decode [of 50, unfolded s])
  with p show ?thesis by blast
qed

text \<open>C32: A request acts for a live account only: whoever is identified is an active account, with the
  role the account has now if it came with a bearer token, and with the role stored in an active
  key of that account whose hash is that of the presented key otherwise.\<close>

theorem principal_is_live:
  "get_current_principal A credentials key w = (Inr pr, w') \<Longrightarrow>
   \<exists>u\<in>set (users (tables w)). usr_id u = pr_id pr \<and> usr_active u \<and>
     (pr_kind pr = ''user'' \<and> credentials \<noteq> None \<and> pr_role pr = usr_role u \<or>
      pr_kind pr = ''api_key'' \<and> credentials = None \<and> key \<noteq> None \<and>
      (\<exists>r\<in>set (api_keys (tables w)). key_user r = usr_id u \<and> key_active r \<and> pr_role pr = key_role r \<and>
         key_hash r = hash_api_key (ad_sha256 A) (the key)))"
  by (rule principal_grants)

theorem principal_is_live_witness:
  "\<exists>pr w'. get_current_principal (demo_deps 5) None (Some '' tip_1'') demo_world = (Inr pr, w') \<and>
     pr_kind pr = ''api_key''"
proof -
  have h: "hash_api_key (ad_sha256 (demo_deps 5)) '' tip_1'' = ''tip_1''"
    by (simp add: hash_api_key_def demo_deps_def) code_simp
  obtain pr w' where p: "get_current_principal (demo_deps 5) None (Some '' tip_1'') demo_world = (Inr pr, w')"
    by (simp add: get_current_principal_def resolve_api_key_def run_simps get_by_hash_def h one_or_none_def
        find_user_def update_key_def demo_world_def empty_db_def)
  from principal_is_live [OF this] p show ?thesis by auto
qed

text \<open>An API key works from its creation to its revocation: the raw key that was shown once
  resolves to the stored record while the owner is active, and after a revocation to none.\<close>

theorem api_key_lifecycle:
  "accounts_ok (tables w) \<Longrightarrow> create_api_key A user_id name w = (Inr (k, g), w1) \<Longrightarrow>
   (\<forall>u\<in>set (users (tables w)). usr_id u = user_id \<longrightarrow> usr_active u) \<Longrightarrow>
   fst (resolve_api_key A (gen_raw g) w1) = Inr (k\<lparr>key_last_used := Some (now_at (ad_env A))\<rparr>) \<and>
   (revoke_api_key E user_id (key_id k) w1 = (Inr (), w2) \<longrightarrow>
    fst (resolve_api_key A (gen_raw g) w2) = Inl (raise_app InvalidApiKeyError None []))"
proof -
  assume ok: "accounts_ok (tables w)" and c: "create_api_key A user_id name w = (Inr (k, g), w1)"
    and act: "\<forall>u\<in>set (users (tables w)). usr_id u = user_id \<longrightarrow> usr_active u"
  from create_key_run [OF c] obtain u where
    u: "find (\<lambda>u. usr_id u = user_id) (users (tables w)) = Some u" and
    k: "key_user k = user_id" "key_active k" "key_hash k = hash_api_key (ad_sha256 A) (gen_raw g)"
      "users (tables w1) = users (tables w)" "api_keys (tables w1) = api_keys (tables w) @ [k]"
      "key_id k \<notin> set (map key_id (api_keys (tables w)))"
      "key_hash k \<notin> set (map key_hash (api_keys (tables w)))"
    by (auto simp: generate_api_key_def Let_def)
  from u act have a: "usr_active u" by (auto simp: find_Some_iff)
  have none: "filter (\<lambda>x. key_hash x = key_hash k \<and> key_active x) (api_keys (tables w)) = []"
    using k(7) by (auto simp: filter_empty_conv) (metis imageI)
  have one: "filter (\<lambda>x. key_hash x = hash_api_key (ad_sha256 A) (gen_raw g) \<and> key_active x)
      (api_keys (tables w1)) = [k]"
    using none k by simp
  have "fst (resolve_api_key A (gen_raw g) w2) = Inl (raise_app InvalidApiKeyError None [])"
    if v: "revoke_api_key E user_id (key_id k) w1 = (Inr (), w2)"
  proof -
    have "filter (\<lambda>r. key_id r = key_id k \<and> key_user r = user_id) (api_keys (tables w)) = []"
      using k(6) by (auto simp: filter_empty_conv) (metis imageI)
    then have "filter (\<lambda>r. key_id r = key_id k \<and> key_user r = user_id) (api_keys (tables w1)) = [k]"
      using k(1,5) by simp
    with v have "api_keys (tables w2) = update_where (\<lambda>r. key_id r = key_id k)
        (\<lambda>r. r\<lparr>key_active := False\<rparr>) (api_keys (tables w1))"
      by (auto simp: revoke_api_key_def get_for_user_def run_simps one_or_none_def update_key_def
          record_audit_def insertM_def split: if_splits)
    moreover have "update_where (\<lambda>r. key_id r = key_id k) f (api_keys (tables w)) = api_keys (tables w)" for f
      using k(6) by (auto simp: update_where_def intro!: map_idI) (metis imageI)
    ultimately have "api_keys (tables w2) = api_keys (tables w) @ [k\<lparr>key_active := False\<rparr>]"
      by (simp add: k(5) update_where_def)
    then have "filter (\<lambda>x. key_hash x = hash_api_key (ad_sha256 A) (gen_raw g) \<and> key_active x)
        (api_keys (tables w2)) = []"
      using none k(3) by simp
    from resolve_run [OF this] show ?thesis by simp
  qed
  moreover have "fst (resolve_api_key A (gen_raw g) w1) = Inr (k\<lparr>key_last_used := Some (now_at (ad_env A))\<rparr>)"
    using resolve_run [OF one] k(1,4) u a by simp
  ultimately show ?thesis by blast
qed


theorem api_key_lifecycle_witness:
  "\<exists>k g w1. create_api_key (demo_deps 5) ''u1'' ''bot'' demo_world = (Inr (k, g), w1) \<and>
     (\<exists>r. fst (resolve_api_key (demo_deps 5) (gen_raw g) w1) = Inr r)"
proof -
  have s: "py_strip ''tip_r'' = ''tip_r''" by code_simp
  obtain k g w1 where c: "create_api_key (demo_deps 5) ''u1'' ''bot'' demo_world = (Inr (k, g), w1)"
    by (simp add: demo_defs create_api_key_def get_user_def find_user_def run_simps Let_def
        generate_api_key_def hash_api_key_def key_text_prefix_def prefix_len_def add_key_def insertM_def
        fits_def record_audit_def s)
  have "\<forall>u\<in>set (users (tables demo_world)). usr_id u = ''u1'' \<longrightarrow> usr_active u"
    by (simp add: demo_defs)
  from api_key_lifecycle [OF demo_ok c this, THEN conjunct1] c show ?thesis by blast
qed

end
