(* ===== verification/Sharing.thy ===== *)
theory Sharing
  imports Ioc
begin

text \<open>
  Exports for other platforms: \<open>app/sharing/stix.py\<close> and \<open>app/sharing/misp.py\<close>.  The texts of
  times and the UUIDs are parameters; a dictionary is its list of items.
\<close>

section \<open>STIX\<close>

text \<open>
  \<open>sh_uuid5 s\<close> is \<open>uuid5(STIX_NAMESPACE, s)\<close>, \<open>sh_misp_uuid5\<close> that of MISP's namespace,
  \<open>sh_uuid4\<close> the random id of the bundle; \<open>sh_time\<close> and \<open>sh_iso\<close> format a time.
\<close>

record share_env =
  sh_now :: real
  sh_uuid5 :: "string \<Rightarrow> string"
  sh_misp_uuid5 :: "string \<Rightarrow> string"
  sh_uuid4 :: string
  sh_time :: "real \<Rightarrow> string"
  sh_iso :: "real \<Rightarrow> string"
  sh_today :: string

definition timestamp :: "share_env \<Rightarrow> real option \<Rightarrow> string" where
  "timestamp S t = sh_time S (case t of Some x \<Rightarrow> x | None \<Rightarrow> sh_now S)"

definition stix_escape :: "string \<Rightarrow> string" where
  "stix_escape v =
     py_replace [CHR 0x27] [CHR 0x5C, CHR 0x27] (py_replace [CHR 0x5C] [CHR 0x5C, CHR 0x5C] v)"

definition deterministic_id :: "share_env \<Rightarrow> string \<Rightarrow> string \<Rightarrow> string" where
  "deterministic_id S sdo_type name = sdo_type @ ''--'' @ sh_uuid5 S (sdo_type @ '':'' @ name)"

fun hash_algorithm :: "ioc_type \<Rightarrow> string option" where
  "hash_algorithm Md5 = Some ''MD5''"
| "hash_algorithm Sha1 = Some ''SHA-1''"
| "hash_algorithm Sha256 = Some ''SHA-256''"
| "hash_algorithm _ = None"

definition stix_pattern :: "ioc_type \<Rightarrow> string \<Rightarrow> string option" where
  "stix_pattern t v =
     (let escaped = [CHR 0x27] @ stix_escape v @ [CHR 0x27, CHR '']''] in
      if t \<in> {Ipv4, Ipv6, Domain, Url, Email}
      then Some (''['' @ ioc_type_value t @ '':value = '' @ escaped)
      else if t = Hostname then Some (''[domain-name:value = '' @ escaped)
      else case hash_algorithm t of
        Some alg \<Rightarrow> Some (''[file:hashes.'' @ [CHR 0x27] @ alg @ [CHR 0x27] @ '' = '' @ escaped)
      | None \<Rightarrow> None)"

definition stix_confidence :: "(string \<times> int) list" where
  "stix_confidence = [(''unknown'', 15), (''low'', 30), (''medium'', 50), (''high'', 75), (''confirmed'', 95)]"

definition indicator_type :: "(string \<times> string) list" where
  "indicator_type =
     [(''clean'', ''benign''), (''low'', ''anomalous-activity''), (''medium'', ''anomalous-activity''),
      (''high'', ''malicious-activity''), (''critical'', ''malicious-activity'')]"

definition identity_sdo :: "share_env \<Rightarrow> string \<Rightarrow> dict" where
  "identity_sdo S name =
     [(''type'', JStr ''identity''), (''spec_version'', JStr ''2.1''),
      (''id'', JStr (deterministic_id S ''identity'' name)), (''created'', JStr (timestamp S None)),
      (''modified'', JStr (timestamp S None)), (''name'', JStr name), (''identity_class'', JStr ''system'')]"

definition external_references :: "ioc_row \<Rightarrow> json list" where
  "external_references r =
     JObj [(''source_name'', JStr (ioc_source r))] #
     map (\<lambda>url. JObj [(''source_name'', JStr (ioc_source r)), (''url'', JStr url)])
       (filter (\<lambda>url. startswith url ''http://'' \<or> startswith url ''https://'') (ioc_references r))"

text \<open>\<open>x or default\<close>.\<close>

definition or_text :: "string option \<Rightarrow> string \<Rightarrow> string" where
  "or_text x dflt = (if blank x then dflt else the x)"

definition stix_common :: "share_env \<Rightarrow> string \<Rightarrow> string \<Rightarrow> string \<Rightarrow> ioc_row \<Rightarrow> dict" where
  "stix_common S t name created_by r =
     [(''type'', JStr t), (''spec_version'', JStr ''2.1''), (''id'', JStr (deterministic_id S t name)),
      (''created_by_ref'', JStr created_by), (''created'', JStr (timestamp S (ioc_first_seen r))),
      (''modified'', JStr (timestamp S (ioc_last_seen r)))]"

definition vulnerability_sdo :: "share_env \<Rightarrow> string \<Rightarrow> ioc_row \<Rightarrow> dict" where
  "vulnerability_sdo S by r =
     stix_common S ''vulnerability'' (ioc_value r) by r @
     [(''name'', JStr (ioc_value r)),
      (''description'', JStr (or_text (ioc_description r) (''Vulnerability '' @ ioc_value r))),
      (''external_references'',
         JArr [JObj [(''source_name'', JStr ''cve''), (''external_id'', JStr (ioc_value r))]])]"

definition technique_sdo :: "share_env \<Rightarrow> string \<Rightarrow> ioc_row \<Rightarrow> dict" where
  "technique_sdo S by r =
     (let parent = before CHR ''.'' (ioc_value r); path = py_replace ''.'' ''/'' (ioc_value r) in
      stix_common S ''attack-pattern'' (ioc_value r) by r @
      [(''name'', JStr (or_text (ioc_description r) (''ATT&CK technique '' @ ioc_value r))),
       (''external_references'',
          JArr [JObj [(''source_name'', JStr ''mitre-attack''), (''external_id'', JStr (ioc_value r)),
            (''url'', JStr (''https://attack.mitre.org/techniques/'' @ path @ ''/''))]]),
       (''x_mitre_parent_technique'', if parent \<noteq> ioc_value r then JStr parent else JNull)])"

definition indicator_sdo :: "share_env \<Rightarrow> string \<Rightarrow> string \<Rightarrow> ioc_row \<Rightarrow> dict" where
  "indicator_sdo S by pattern r =
     stix_common S ''indicator'' pattern by r @
     [(''name'', JStr (ioc_defanged r)),
      (''description'', JStr (or_text (ioc_description r)
         (ioc_kind r @ '' observed by '' @ ioc_source r @ ''; threat score '' @ show_int (ioc_score r) @ ''/100.''))),
      (''indicator_types'', JArr [JStr (case map_of indicator_type (ioc_level r) of Some x \<Rightarrow> x | None \<Rightarrow> ''unknown'')]),
      (''pattern'', JStr pattern), (''pattern_type'', JStr ''stix''),
      (''valid_from'', JStr (timestamp S (ioc_first_seen r))),
      (''confidence'', JInt (case map_of stix_confidence (ioc_confidence r) of Some n \<Rightarrow> n | None \<Rightarrow> 50)),
      (''labels'', JArr (map JStr (sorted_set (ioc_tags r @ [ioc_severity r])))),
      (''external_references'', JArr (external_references r)),
      (''x_threat_score'', JInt (ioc_score r)), (''x_threat_level'', JStr (ioc_level r)),
      (''x_sightings'', JInt (ioc_sightings r))]"

definition sdo_for :: "share_env \<Rightarrow> string \<Rightarrow> ioc_row \<Rightarrow> dict option" where
  "sdo_for S by r =
     (case ioc_type_of (ioc_kind r) of
        None \<Rightarrow> None
      | Some t \<Rightarrow>
          if t = Cve then Some (vulnerability_sdo S by r)
          else if t = MitreTechnique then Some (technique_sdo S by r)
          else map_option (\<lambda>pattern. indicator_sdo S by pattern r) (stix_pattern t (ioc_value r)))"

definition without_none :: "dict \<Rightarrow> dict" where
  "without_none d = filter (\<lambda>(k, v). v \<noteq> JNull) d"

definition to_stix_bundle :: "share_env \<Rightarrow> string \<Rightarrow> string option \<Rightarrow> ioc_row list \<Rightarrow> dict" where
  "to_stix_bundle S producer bundle_id rs =
     (let by = deterministic_id S ''identity'' producer in
      [(''type'', JStr ''bundle''), (''id'', JStr (or_text bundle_id (''bundle--'' @ sh_uuid4 S))),
       (''objects'', JArr (JObj (identity_sdo S producer) #
          map (JObj \<circ> without_none) (List.map_filter (sdo_for S by) rs)))])"

section \<open>MISP\<close>

fun misp_type :: "ioc_type \<Rightarrow> string option" where
  "misp_type Ipv4 = Some ''ip-dst''"
| "misp_type Ipv6 = Some ''ip-dst''"
| "misp_type Domain = Some ''domain''"
| "misp_type Hostname = Some ''hostname''"
| "misp_type Url = Some ''url''"
| "misp_type Md5 = Some ''md5''"
| "misp_type Sha1 = Some ''sha1''"
| "misp_type Sha256 = Some ''sha256''"
| "misp_type Email = Some ''email-src''"
| "misp_type Cve = Some ''vulnerability''"
| "misp_type Yara = Some ''yara''"
| "misp_type Sigma = Some ''sigma''"
| "misp_type MitreTechnique = None"

definition misp_category :: "(string \<times> string) list" where
  "misp_category =
     [(''ip-dst'', ''Network activity''), (''domain'', ''Network activity''), (''hostname'', ''Network activity''),
      (''url'', ''Network activity''), (''md5'', ''Payload delivery''), (''sha1'', ''Payload delivery''),
      (''sha256'', ''Payload delivery''), (''email-src'', ''Payload delivery''),
      (''vulnerability'', ''External analysis''), (''yara'', ''Payload installation''),
      (''sigma'', ''Payload installation'')]"

definition misp_threat_level :: "string \<Rightarrow> int" where
  "misp_threat_level l =
     (case map_of [(''critical'', 1), (''high'', 1), (''medium'', 2), (''low'', 3), (''clean'', 4)] l of
        Some n \<Rightarrow> n | None \<Rightarrow> 4)"

definition detectable :: "string list" where
  "detectable = [''ip-dst'', ''domain'', ''hostname'', ''url'', ''md5'', ''sha1'', ''sha256'']"

definition to_ids_min_score :: int where "to_ids_min_score = 50"

definition as_utc :: "share_env \<Rightarrow> real option \<Rightarrow> real" where
  "as_utc S t = (case t of Some x \<Rightarrow> x | None \<Rightarrow> sh_now S)"

definition misp_epoch :: "share_env \<Rightarrow> real option \<Rightarrow> string" where
  "misp_epoch S t = (let x = as_utc S t in show_int (if 0 \<le> x then \<lfloor>x\<rfloor> else \<lceil>x\<rceil>))"

definition misp_attribute :: "share_env \<Rightarrow> ioc_row \<Rightarrow> dict option" where
  "misp_attribute S r =
     (case Option.bind (ioc_type_of (ioc_kind r)) misp_type of
        None \<Rightarrow> None
      | Some t \<Rightarrow> Some
          [(''uuid'', JStr (sh_misp_uuid5 S (ioc_kind r @ '':'' @ ioc_value r))), (''type'', JStr t),
           (''category'', JStr (case map_of misp_category t of Some c \<Rightarrow> c | None \<Rightarrow> ''External analysis'')),
           (''value'', JStr (ioc_value r)),
           (''to_ids'', JBool (t \<in> set detectable \<and> to_ids_min_score \<le> ioc_score r)),
           (''distribution'', JStr ''5''),
           (''comment'', JStr (or_text (ioc_description r)
              (''score '' @ show_int (ioc_score r) @ ''/100 ('' @ ioc_level r @ '') via '' @ ioc_source r))),
           (''timestamp'', JStr (misp_epoch S (ioc_last_seen r))),
           (''first_seen'', JStr (sh_iso S (as_utc S (ioc_first_seen r)))),
           (''last_seen'', JStr (sh_iso S (as_utc S (ioc_last_seen r)))),
           (''Tag'', JArr (map (\<lambda>tag. JObj [(''name'', JStr tag)])
              (sort (ioc_tags r) @ [''tip:threat-level='' @ [CHR 0x22] @ ioc_level r @ [CHR 0x22]])))])"

definition worst_level :: "ioc_row list \<Rightarrow> int" where
  "worst_level rs = fold min (map (misp_threat_level \<circ> ioc_level) rs) 4"

definition to_misp_event :: "share_env \<Rightarrow> string \<Rightarrow> string option \<Rightarrow> string \<Rightarrow> ioc_row list \<Rightarrow> dict" where
  "to_misp_event S info event_date distribution rs =
     (let day = (case event_date of Some x \<Rightarrow> x | None \<Rightarrow> sh_today S) in
      [(''Event'', JObj
         [(''uuid'', JStr (sh_misp_uuid5 S (info @ '':'' @ day))), (''info'', JStr info), (''date'', JStr day),
          (''threat_level_id'', JStr (show_int (worst_level rs))), (''analysis'', JStr ''2''),
          (''distribution'', JStr distribution), (''published'', JBool False),
          (''Attribute'', JArr (map JObj (List.map_filter (misp_attribute S) rs))),
          (''Tag'', JArr (JObj [(''name'', JStr ''tlp:amber'')] #
             map (\<lambda>r. JObj [(''name'', JStr (''misp-galaxy:mitre-attack-pattern='' @ [CHR 0x22] @ ioc_value r @ [CHR 0x22]))])
               (filter (\<lambda>r. ioc_kind r = ioc_type_value MitreTechnique) rs)))])])"

section \<open>Reading a pattern back\<close>

lemma scan_step: "first_match r (p, x # s) = None \<Longrightarrow> scan r (p, x # s) = scan r (x # p, s)"
  by (subst scan.simps) simp

lemma scan_Nil: "first_match r (p, []) = None \<Longrightarrow> scan r (p, []) = []"
  by (subst scan.simps) simp

lemma first_match_unique:
  assumes "plain r" "w \<in> lang r" "s = w @ t"
    and "\<And>u. u \<in> lang r \<Longrightarrow> prefix u s \<Longrightarrow> u = w"
  shows "first_match r (p, s) = Some (rev w @ p, t)"
proof -
  have mem: "c' \<in> set (runs r (p, s)) \<longleftrightarrow> c' = (rev w @ p, t)" for c'
  proof -
    have "c' \<in> set (runs r (p, s)) \<longleftrightarrow> (\<exists>u\<in>lang r. eats (p, s) u c')" by (rule runs_lang [OF assms(1)])
    also have "\<dots> \<longleftrightarrow> eats (p, s) w c'"
      using assms(2,4) by (auto simp: eats_def prefix_def)
    also have "\<dots> \<longleftrightarrow> c' = (rev w @ p, t)"
      using assms(3) by (cases c') (auto simp: eats_def)
    finally show ?thesis .
  qed
  then obtain c' cs where cs: "runs r (p, s) = c' # cs" by (cases "runs r (p, s)") auto
  with mem [of c'] show ?thesis by (simp add: first_match_def)
qed

abbreviation body_re :: re where
  "body_re \<equiv> Rep 0 None (Alt (Cls (\<lambda>c. c \<noteq> CHR 0x27 \<and> c \<noteq> CHR 0x5C))
     (Seq (lit CHR 0x5C) (Cls (\<lambda>c. c \<noteq> CHR 0x0A))))"

lemma star_Nil: "[] \<in> lang (Rep 0 None r)"
  by (auto intro: exI [of _ "[]"])

lemma star_Cons: "v \<in> lang r \<Longrightarrow> u \<in> lang (Rep 0 None r) \<Longrightarrow> v @ u \<in> lang (Rep 0 None r)"
proof -
  assume v: "v \<in> lang r" and "u \<in> lang (Rep 0 None r)"
  then obtain ws where "u = concat ws" "set ws \<subseteq> lang r" by auto
  with v have "v @ u = concat (v # ws)" "set (v # ws) \<subseteq> lang r" by auto
  then show ?thesis unfolding lang.simps count_in_simps by blast
qed

lemma star_cases:
  assumes "u \<in> lang (Rep 0 None r)"
  obtains "u = []" | v w where "u = v @ w" "v \<in> lang r" "w \<in> lang (Rep 0 None r)"
proof -
  from assms obtain ws where ws: "u = concat ws" "set ws \<subseteq> lang r" by auto
  show thesis
  proof (cases ws)
    case Nil
    with ws that(1) show ?thesis by simp
  next
    case (Cons v vs)
    with ws(2) have "concat vs \<in> lang (Rep 0 None r)" by auto
    with ws Cons that(2) show ?thesis by auto
  qed
qed

definition esc :: "char \<Rightarrow> string" where
  "esc x = (if x = CHR 0x5C then [CHR 0x5C, CHR 0x5C] else if x = CHR 0x27 then [CHR 0x5C, CHR 0x27] else [x])"

lemma stix_escape_eq: "stix_escape v = concat (map esc v)"
  by (induction v) (auto simp: stix_escape_def replace_char esc_def)

lemma esc_body: "esc x \<in> lang (Alt (Cls (\<lambda>c. c \<noteq> CHR 0x27 \<and> c \<noteq> CHR 0x5C)) (Seq (lit CHR 0x5C) (Cls (\<lambda>c. c \<noteq> CHR 0x0A))))"
  by (auto simp: esc_def)

lemma escape_body: "stix_escape v \<in> lang body_re"
  unfolding stix_escape_eq
proof (induction v)
  case Nil
  show ?case by (simp only: list.map concat.simps) (rule star_Nil)
next
  case (Cons x v)
  show ?case unfolding list.map concat.simps by (rule star_Cons [OF esc_body Cons])
qed

text \<open>The body of a quoted value ends at the quote that closes it.\<close>

lemma body_unique:
  "u \<in> lang body_re \<Longrightarrow> u @ CHR 0x27 # x = stix_escape v @ CHR 0x27 # y \<Longrightarrow> u = stix_escape v"
  unfolding stix_escape_eq
proof (induction v arbitrary: u)
  case Nil
  from Nil.prems(1) show ?case
  proof (cases rule: star_cases)
    case (2 a b)
    with Nil.prems(2) show ?thesis by (auto simp: lang.simps(1,3,4))
  qed simp
next
  case (Cons z v)
  from Cons.prems(1) show ?case
  proof (cases rule: star_cases)
    case 1
    with Cons.prems(2) show ?thesis by (auto simp: esc_def split: if_splits)
  next
    case (2 a b)
    from 2(2) Cons.prems(2) 2(1) have "a = esc z" "b @ CHR 0x27 # x = concat (map esc v) @ CHR 0x27 # y"
      by (auto simp: esc_def [of z] split: if_splits)
    with Cons.IH [OF 2(3)] 2(1) show ?thesis by simp
  qed
qed

lemma pattern_value_plain: "plain pattern_value_re"
  by (simp add: pattern_value_re_def)

lemma spaces_lang: "u \<in> lang (Rep 0 None (Cls is_space)) \<longleftrightarrow> list_all is_space u"
  by (simp only: lang_Rep_Cls) simp

lemma lang_SeqI: "u \<in> lang a \<Longrightarrow> v \<in> lang b \<Longrightarrow> u @ v \<in> lang (Seq a b)"
  by auto

lemma slice_mid: "slice (a @ b @ c) (length a) (length a + length b) = b"
  by (simp add: slice_def)

lemma pattern_value_lang:
  "w \<in> lang pattern_value_re \<longleftrightarrow>
     (\<exists>sp u. w = CHR ''='' # sp @ CHR 0x27 # u @ [CHR 0x27] \<and> list_all is_space sp \<and> u \<in> lang body_re)"
proof
  assume "w \<in> lang pattern_value_re"
  then obtain sp u where "w = CHR ''='' # sp @ CHR 0x27 # u @ [CHR 0x27]"
    "sp \<in> lang (Rep 0 None (Cls is_space))" "u \<in> lang body_re"
    unfolding pattern_value_re_def seqs.simps by (simp only: lang.simps(1,3)) (auto simp del: lang.simps)
  then show "\<exists>sp u. w = CHR ''='' # sp @ CHR 0x27 # u @ [CHR 0x27] \<and> list_all is_space sp \<and> u \<in> lang body_re"
    unfolding spaces_lang by blast
next
  assume "\<exists>sp u. w = CHR ''='' # sp @ CHR 0x27 # u @ [CHR 0x27] \<and> list_all is_space sp \<and> u \<in> lang body_re"
  then obtain sp u where w: "w = [CHR ''=''] @ sp @ [CHR 0x27] @ u @ [CHR 0x27]"
    and "sp \<in> lang (Rep 0 None (Cls is_space))" "u \<in> lang body_re" unfolding spaces_lang by auto
  then show "w \<in> lang pattern_value_re"
    unfolding pattern_value_re_def seqs.simps w by (intro lang_SeqI) (assumption | simp)+
qed

lemma quote_after_space:
  assumes "CHR '' '' # CHR 0x27 # t = sp @ CHR 0x27 # t'" "list_all is_space sp"
  shows "sp = '' ''" "t' = t"
proof -
  have "\<not> is_space CHR 0x27" by code_simp
  with assms show "sp = '' ''" "t' = t" by (cases sp; cases "tl sp"; auto)+
qed

text \<open>Scanning a pattern: nothing before the equality sign, then the quoted value, then the bracket.\<close>

lemma scan_value:
  "scan pattern_value_re (p, ''= '' @ [CHR 0x27] @ stix_escape v @ [CHR 0x27, CHR '']'']) =
     [(length p, length p + length (stix_escape v) + 4)]"
proof -
  let ?w = "''= '' @ [CHR 0x27] @ stix_escape v @ [CHR 0x27]"
  let ?s = "?w @ '']''"
  have l: "?w \<in> lang pattern_value_re"
    unfolding pattern_value_lang
    by (rule exI [of _ "'' ''"], rule exI [of _ "stix_escape v"])
      (simp add: escape_body is_space_def del: lang.simps)
  have uw: "u = ?w" if u: "u \<in> lang pattern_value_re" "prefix u ?s" for u
  proof -
    from u obtain sp b r where b: "u = CHR ''='' # sp @ CHR 0x27 # b @ [CHR 0x27]" "list_all is_space sp"
      "b \<in> lang body_re" "?s = u @ r" unfolding pattern_value_lang prefix_def by blast
    from b(1,4) have "CHR '' '' # CHR 0x27 # stix_escape v @ [CHR 0x27, CHR '']''] = sp @ CHR 0x27 # b @ CHR 0x27 # r"
      by simp
    from quote_after_space [OF this b(2)] have sp: "sp = '' ''"
      and t: "b @ CHR 0x27 # r = stix_escape v @ CHR 0x27 # '']''" by simp_all
    from body_unique [OF b(3) t] b(1) sp show ?thesis by simp
  qed
  have m: "first_match pattern_value_re (p, ?s) = Some (rev ?w @ p, '']'')"
    by (rule first_match_unique [OF pattern_value_plain l refl uw])
  have "first_match pattern_value_re (q, '']'') = None" "first_match pattern_value_re (q, []) = None" for q
    by (simp_all add: first_match_def pattern_value_re_def)
  then have e: "scan pattern_value_re (q, '']'') = []" for q by (simp add: scan_step scan_Nil)
  have "scan pattern_value_re (p, ?s) = [(length p, length (rev ?w @ p))]"
    by (subst scan.simps) (simp add: m [simplified] e)
  then show ?thesis by simp
qed

lemma scan_skip:
  "CHR ''='' \<notin> set pre \<Longrightarrow> scan pattern_value_re (p, pre @ s) = scan pattern_value_re (rev pre @ p, s)"
proof (induction pre arbitrary: p)
  case (Cons x pre)
  then have "first_match pattern_value_re (p, x # pre @ s) = None"
    by (auto simp: first_match_def pattern_value_re_def)
  with Cons show ?case by (simp add: scan_step)
qed simp

lemma unescape:
  "CHR 0x5C \<notin> set v \<Longrightarrow> py_replace [CHR 0x5C, CHR 0x27] [CHR 0x27] (stix_escape v) = v"
  unfolding stix_escape_eq py_replace_def
  by (induction v) (auto simp: esc_def)

lemma quoted_value:
  assumes pre: "CHR ''='' \<notin> set pre" and v: "CHR 0x5C \<notin> set v"
  shows "quoted_values (pre @ ''= '' @ [CHR 0x27] @ stix_escape v @ [CHR 0x27, CHR '']'']) = [v]"
proof -
  let ?w = "''= '' @ [CHR 0x27] @ stix_escape v @ [CHR 0x27]"
  have "finditer pattern_value_re (pre @ ?w @ '']'') = [(length pre, length pre + length ?w)]"
    using scan_skip [OF pre, of "[]" "?w @ '']''"] scan_value [of "rev pre" v] by (simp add: finditer_def)
  moreover have "slice (pre @ ?w @ '']'') (length pre) (length pre + length ?w) = ?w"
    by (rule slice_mid)
  moreover have "after CHR 0x27 ?w = stix_escape v @ [CHR 0x27]"
    using after_append [of "CHR 0x27" "''= ''" "stix_escape v @ [CHR 0x27]"] by simp
  ultimately show ?thesis using unescape [OF v] by (simp add: quoted_values_def butlast_append)
qed

section \<open>Exporting and importing a bundle\<close>

definition exportable :: "ioc_row \<Rightarrow> bool" where
  "exportable r \<longleftrightarrow> (\<exists>t. ioc_kind r = ioc_type_value t \<and> t \<notin> {Yara, Sigma})"

text \<open>The row's value is read as the indicator it is, and has no backslash.\<close>

definition reimportable :: "ioc_row \<Rightarrow> bool" where
  "reimportable r \<longleftrightarrow> CHR 0x5C \<notin> set (ioc_value r) \<and>
     (\<exists>t. ioc_kind r = ioc_type_value t \<and> classify_indicator (ioc_value r) = Inr \<lparr>ptype = t, pvalue = ioc_value r\<rparr>)"

lemma pattern_values:
  assumes "stix_pattern t v = Some pat" "CHR 0x5C \<notin> set v"
  shows "quoted_values pat = [v]"
proof -
  from assms(1) obtain pre where pre: "pat = pre @ ''= '' @ [CHR 0x27] @ stix_escape v @ [CHR 0x27, CHR '']'']"
    "CHR ''='' \<notin> set pre"
  proof (cases "t \<in> {Ipv4, Ipv6, Domain, Url, Email}")
    case True
    with assms(1) show ?thesis
      by (intro that [of "''['' @ ioc_type_value t @ '':value ''"]) (auto simp: stix_pattern_def Let_def)
  next
    case False
    with assms(1) show ?thesis
    proof (cases "t = Hostname")
      case True
      with assms(1) show ?thesis
        by (intro that [of "''[domain-name:value ''"]) (auto simp: stix_pattern_def Let_def)
    next
      case no: False
      with False assms(1) obtain alg where "hash_algorithm t = Some alg"
        "pat = ''[file:hashes.'' @ [CHR 0x27] @ alg @ [CHR 0x27] @ '' = '' @ [CHR 0x27] @ stix_escape v @ [CHR 0x27, CHR '']'']"
        by (auto simp: stix_pattern_def Let_def split: option.splits)
      then show ?thesis
        by (intro that [of "''[file:hashes.'' @ [CHR 0x27] @ alg @ [CHR 0x27] @ '' ''"])
          (cases t; auto)+
    qed
  qed
  show ?thesis unfolding pre(1) by (rule quoted_value [OF pre(2) assms(2)])
qed

lemma sdo_values:
  assumes r: "reimportable r" and s: "sdo_for S by r = Some d"
  shows "object_values py_str (JObj (without_none d)) = Inr [ioc_value r]"
proof -
  from r obtain t where t: "ioc_kind r = ioc_type_value t" "CHR 0x5C \<notin> set (ioc_value r)"
    "classify_indicator (ioc_value r) = Inr \<lparr>ptype = t, pvalue = ioc_value r\<rparr>" by (auto simp: reimportable_def)
  have ne: "ioc_value r \<noteq> []"
  proof
    assume "ioc_value r = []"
    moreover have "case classify_indicator [] of Inl e \<Rightarrow> True | Inr p \<Rightarrow> False" by code_simp
    ultimately show False using t(3) by simp
  qed
  consider "t = Cve" "d = vulnerability_sdo S by r" | "t = MitreTechnique" "d = technique_sdo S by r" |
    pat where "stix_pattern t (ioc_value r) = Some pat" "d = indicator_sdo S by pat r"
    using s t(1) by (auto simp: sdo_for_def split: if_splits)
  then show ?thesis
  proof cases
    case 1
    with ne show ?thesis
      by (simp add: vulnerability_sdo_def stix_common_def without_none_def object_values_def jget_def
          py_iter_def ref_value_def)
  next
    case 2
    with ne show ?thesis
      by (simp add: technique_sdo_def Let_def stix_common_def without_none_def object_values_def jget_def
          py_iter_def ref_value_def)
  next
    case 3
    with pattern_values [OF 3(1) t(2)] show ?thesis
      by (simp add: indicator_sdo_def stix_common_def without_none_def object_values_def jget_def)
  qed
qed

lemma sdo_exportable: "reimportable r \<Longrightarrow> sdo_for S by r \<noteq> None \<longleftrightarrow> exportable r"
proof -
  assume "reimportable r"
  then obtain t where t: "ioc_kind r = ioc_type_value t" by (auto simp: reimportable_def)
  then have e: "ioc_type_of (ioc_kind r) = Some t" and x: "exportable r \<longleftrightarrow> t \<notin> {Yara, Sigma}"
    by (auto simp: exportable_def)
  show ?thesis unfolding sdo_for_def e x by (cases t) (simp_all add: stix_pattern_def Let_def)
qed

lemma stix_values_exported:
  "list_all reimportable rs \<Longrightarrow>
   stix_values py_str (map (JObj \<circ> without_none) (List.map_filter (sdo_for S by) rs)) =
     Inr (map ioc_value (filter exportable rs))"
proof (induction rs)
  case (Cons r rs)
  then have r: "reimportable r" by simp
  show ?case
  proof (cases "sdo_for S by r")
    case None
    with sdo_exportable [OF r, of S "by"] Cons show ?thesis by (simp add: List.map_filter_simps)
  next
    case (Some d)
    with sdo_exportable [OF r, of S "by"] sdo_values [OF r Some] Cons show ?thesis
      by (simp add: List.map_filter_simps)
  qed
qed (simp add: List.map_filter_simps)

lemma harvest_all:
  "\<forall>p\<in>set ps. classify_indicator (pvalue p) = Inr p \<Longrightarrow> distinct (map key_of ps) \<Longrightarrow>
   key_of ` set ps \<inter> set seen = {} \<Longrightarrow> int (length found) + int (length ps) \<le> limit \<Longrightarrow>
   harvest_stix limit seen found (map pvalue ps) = Inr (found @ map pvalue ps)"
proof (induction ps arbitrary: seen found)
  case (Cons p ps)
  then have p: "classify_indicator (pvalue p) = Inr p" "key_of p \<notin> set seen" by auto
  show ?case
  proof (cases "ps = []")
    case True
    with p show ?thesis by (simp add: Let_def)
  next
    case False
    with Cons.prems(4) have l: "\<not> limit \<le> int (length (found @ [pvalue p]))" by (cases ps) auto
    have "harvest_stix limit (key_of p # seen) (found @ [pvalue p]) (map pvalue ps) =
        Inr ((found @ [pvalue p]) @ map pvalue ps)"
      using Cons.prems by (intro Cons.IH) auto
    with p l show ?thesis by (simp add: Let_def)
  qed
qed simp

section \<open>Properties\<close>


definition demo_share :: share_env where
  "demo_share = \<lparr>sh_now = 0, sh_uuid5 = (\<lambda>s. s), sh_misp_uuid5 = (\<lambda>s. s), sh_uuid4 = ''u'',
     sh_time = (\<lambda>t. ''t''), sh_iso = (\<lambda>t. ''t''), sh_today = ''d''\<rparr>"


text \<open>
  The exporter doubles a backslash, the importer only takes the backslash before a quote away: a
  URL with a backslash comes back with two.
\<close>

lemma backslash_doubled:
  "stix_pattern Url (''http://a.org/'' @ [CHR 0x5C] @ ''x'') = Some pat \<Longrightarrow>
   quoted_values pat = [''http://a.org/'' @ [CHR 0x5C, CHR 0x5C] @ ''x'']"
proof -
  let ?v = "''http://a.org/'' @ [CHR 0x5C] @ ''x''"
  have "case stix_pattern Url ?v of None \<Rightarrow> False
      | Some q \<Rightarrow> quoted_values q = [''http://a.org/'' @ [CHR 0x5C, CHR 0x5C] @ ''x'']" by code_simp
  then show "stix_pattern Url ?v = Some pat \<Longrightarrow> ?thesis" by simp
qed

end
