(* ===== verification/Reports.thy ===== *)
theory Reports
  imports Sharing
begin

text \<open>
  Reports for analysts: \<open>app/services/report_service.py\<close>.  \<open>csv.writer\<close> is modelled with the
  dialect the code uses (commas, minimal quoting, doubled quotes, CR LF); \<open>json.dumps\<close> is a
  parameter.
\<close>

section \<open>Rows\<close>

definition formula_prefixes :: "char list" where
  "formula_prefixes = [CHR ''='', CHR ''+'', CHR ''-'', CHR ''@'', CHR 0x09, CHR 0x0D]"

definition csv_safe :: "json \<Rightarrow> json" where
  "csv_safe v =
     (case v of
        JStr s \<Rightarrow> if s \<noteq> [] \<and> hd s \<in> set formula_prefixes then JStr (CHR 0x27 # s) else v
      | _ \<Rightarrow> v)"

definition time_json :: "share_env \<Rightarrow> real option \<Rightarrow> json" where
  "time_json S t = (case t of None \<Rightarrow> JNull | Some x \<Rightarrow> JStr (sh_iso S x))"

definition report_row :: "share_env \<Rightarrow> ioc_row \<Rightarrow> dict" where
  "report_row S r =
     [(''type'', JStr (ioc_kind r)), (''value'', JStr (ioc_defanged r)), (''threat_score'', JInt (ioc_score r)),
      (''threat_level'', JStr (ioc_level r)), (''severity'', JStr (ioc_severity r)),
      (''source'', JStr (ioc_source r)), (''tags'', JStr (join_with '','' (ioc_tags r))),
      (''first_seen'', time_json S (ioc_first_seen r)), (''last_seen'', time_json S (ioc_last_seen r))]"

definition to_json :: "(json \<Rightarrow> string) \<Rightarrow> share_env \<Rightarrow> ioc_row list \<Rightarrow> string" where
  "to_json dumps S rs = dumps (JArr (map (JObj \<circ> report_row S) rs))"

section \<open>CSV\<close>

definition crlf :: string where "crlf = [CHR 0x0D, CHR 0x0A]"

text \<open>\<open>csv.writer\<close>: a cell is quoted if it holds a comma, a quote or part of a line end.\<close>

definition needs_quotes :: "string \<Rightarrow> bool" where
  "needs_quotes s \<longleftrightarrow> (\<exists>c\<in>set s. c \<in> {CHR '','', CHR 0x22, CHR 0x0D, CHR 0x0A})"

definition csv_cell :: "string \<Rightarrow> string" where
  "csv_cell s = (if needs_quotes s then [CHR 0x22] @ py_replace [CHR 0x22] [CHR 0x22, CHR 0x22] s @ [CHR 0x22] else s)"

definition csv_row :: "string list \<Rightarrow> string" where
  "csv_row cells = join_with '','' (map csv_cell cells) @ crlf"

fun cell_text :: "json \<Rightarrow> string" where
  "cell_text (JStr s) = s"
| "cell_text (JInt n) = show_int n"
| "cell_text _ = []"

definition csv_columns :: "string list" where
  "csv_columns = [''type'', ''value'', ''threat_score'', ''threat_level'', ''severity'', ''source'', ''tags'']"

definition csv_values :: "share_env \<Rightarrow> ioc_row \<Rightarrow> string list" where
  "csv_values S r = map (\<lambda>c. cell_text (csv_safe (the (jget c (report_row S r))))) csv_columns"

definition to_csv :: "share_env \<Rightarrow> ioc_row list \<Rightarrow> string" where
  "to_csv S rs = csv_row csv_columns @ concat (map (\<lambda>r. csv_row (csv_values S r)) rs)"

section \<open>Markdown and the machine formats\<close>

definition markdown_row :: "ioc_row \<Rightarrow> string" where
  "markdown_row r =
     ''| '' @ ioc_kind r @ '' | `'' @ py_replace ''|'' [CHR 0x5C, CHR ''|''] (ioc_defanged r) @ ''` | '' @
     show_int (ioc_score r) @ '' | '' @ ioc_level r @ '' | '' @ ioc_source r @ '' |''"

definition to_markdown :: "string \<Rightarrow> ioc_row list \<Rightarrow> string" where
  "to_markdown title rs =
     join_with [CHR 0x0A]
       ([''# '' @ title, [], ''Total indicators: **'' @ show_int (int (length rs)) @ ''**'', [],
         ''| Type | Indicator | Score | Level | Source |'', ''| --- | --- | --- | --- | --- |''] @
        map markdown_row rs) @ [CHR 0x0A]"

definition to_stix :: "(json \<Rightarrow> string) \<Rightarrow> share_env \<Rightarrow> ioc_row list \<Rightarrow> string" where
  "to_stix dumps S rs = dumps (JObj (to_stix_bundle S ''Threat Intel Platform'' None rs))"

definition to_misp :: "(json \<Rightarrow> string) \<Rightarrow> share_env \<Rightarrow> string \<Rightarrow> ioc_row list \<Rightarrow> string" where
  "to_misp dumps S info rs = dumps (JObj (to_misp_event S info None ''0'' rs))"

text \<open>\<open>str.capitalize\<close>, and the summary of the dashboard's figures.\<close>

definition py_capitalize :: "string \<Rightarrow> string" where
  "py_capitalize s = (case s of [] \<Rightarrow> [] | c # cs \<Rightarrow> upper_char c # py_lower cs)"

definition executive_summary :: "int option \<Rightarrow> (string \<times> int) list \<Rightarrow> string" where
  "executive_summary tracked by_level =
     join_with [CHR 0x0A]
       ([''# Executive Threat Summary'', [],
         ''- Total indicators tracked: **'' @ show_int (case tracked of Some n \<Rightarrow> n | None \<Rightarrow> 0) @ ''**''] @
        List.map_filter (\<lambda>l. map_option (\<lambda>n. ''- '' @ py_capitalize l @ '': '' @ show_int n) (map_of by_level l))
          [''critical'', ''high'', ''medium'', ''low'', ''clean'']) @ [CHR 0x0A]"

text \<open>
  \<open>export_iocs\<close>: the formats of the endpoint, each with its media type and the name of the file
  the browser is told to save.
\<close>

definition export_report ::
  "(json \<Rightarrow> string) \<Rightarrow> share_env \<Rightarrow> string \<Rightarrow> ioc_row list \<Rightarrow> exn + string \<times> string \<times> string option" where
  "export_report dumps S fmt rs =
     (if fmt = ''json'' then Inr (to_json dumps S rs, ''application/json'', None)
      else if fmt = ''csv'' then Inr (to_csv S rs, ''text/csv'', Some ''iocs.csv'')
      else if fmt \<in> {''md'', ''markdown''}
      then Inr (to_markdown ''Threat Intelligence Report'' rs, ''text/markdown'', None)
      else if fmt = ''stix''
      then Inr (to_stix dumps S rs, ''application/stix+json;version=2.1'', Some ''bundle.stix.json'')
      else if fmt = ''misp''
      then Inr (to_misp dumps S ''Threat Intel Platform export'' rs, ''application/json'', Some ''misp-event.json'')
      else Inl (raise_app ValidationError (Some (''Unsupported report format: '' @ fmt)) []))"

section \<open>Reading CSV\<close>

text \<open>
  A reader of the format (RFC 4180): at the start of a cell, inside a plain one, inside a quoted
  one, and just after a quote inside a quoted one.  \<open>cell\<close> and \<open>row\<close> are what was read so far.
\<close>

datatype csv_state = AtStart | InPlain | InQuotes | AfterQuote

fun csv_read :: "csv_state \<Rightarrow> string \<Rightarrow> string list \<Rightarrow> string \<Rightarrow> string list list" where
  "csv_read st cell row [] = (if st = AtStart \<and> row = [] then [] else [row @ [cell]])"
| "csv_read InQuotes cell row (c # cs) =
     (if c = CHR 0x22 then csv_read AfterQuote cell row cs else csv_read InQuotes (cell @ [c]) row cs)"
| "csv_read st cell row (c # cs) =
     (if c = CHR 0x22 \<and> st = AtStart then csv_read InQuotes cell row cs
      else if c = CHR 0x22 \<and> st = AfterQuote then csv_read InQuotes (cell @ [c]) row cs
      else if c = CHR '','' then csv_read AtStart [] (row @ [cell]) cs
      else if c = CHR 0x0D then csv_read st cell row cs
      else if c = CHR 0x0A then (row @ [cell]) # csv_read AtStart [] [] cs
      else csv_read InPlain (cell @ [c]) row cs)"

definition csv_parse :: "string \<Rightarrow> string list list" where
  "csv_parse s = csv_read AtStart [] [] s"

section \<open>Lemmas\<close>

lemma read_plain:
  "\<not> needs_quotes s \<Longrightarrow> st \<in> {AtStart, InPlain} \<Longrightarrow>
   csv_read st cell row (s @ t) = csv_read (if s = [] then st else InPlain) (cell @ s) row t"
proof (induction s arbitrary: cell st)
  case (Cons c s)
  then have "\<not> needs_quotes s" "c \<notin> {CHR '','', CHR 0x22, CHR 0x0D, CHR 0x0A}"
    by (auto simp: needs_quotes_def)
  with Cons.prems(2) Cons.IH [of InPlain "cell @ [c]"] show ?case
    by (cases st) auto
qed simp

lemma read_quoted:
  "csv_read InQuotes cell row (py_replace [CHR 0x22] [CHR 0x22, CHR 0x22] s @ CHR 0x22 # t) =
     csv_read AfterQuote (cell @ s) row t"
  by (induction s arbitrary: cell) (auto simp: replace_char)

text \<open>After a cell: a delimiter or a line end decides the same in every state but inside quotes.\<close>

lemma read_cell:
  assumes "t = [] \<or> hd t \<in> {CHR '','', CHR 0x0D}"
  shows "\<exists>st\<in>{AtStart, InPlain, AfterQuote}. csv_read AtStart [] row (csv_cell s @ t) = csv_read st s row t \<and>
    (s \<noteq> [] \<longrightarrow> st \<noteq> AtStart)"
proof (cases "needs_quotes s")
  case True
  then show ?thesis
    using read_quoted [of "[]" row s t] by (auto simp: csv_cell_def needs_quotes_def)
next
  case False
  then show ?thesis
    using read_plain [OF False, of AtStart "[]" row t] by (auto simp: csv_cell_def)
qed

lemma read_row:
  "cells \<noteq> [] \<Longrightarrow>
   csv_read AtStart [] row (join_with '','' (map csv_cell cells) @ crlf @ t) = (row @ cells) # csv_read AtStart [] [] t"
proof (induction cells arbitrary: row)
  case (Cons s cells)
  show ?case
  proof (cases "cells = []")
    case True
    have "crlf @ t = [] \<or> hd (crlf @ t) \<in> {CHR '','', CHR 0x0D}" by (simp add: crlf_def)
    from read_cell [OF this, of row s] obtain st where "st \<in> {AtStart, InPlain, AfterQuote}"
      "csv_read AtStart [] row (csv_cell s @ crlf @ t) = csv_read st s row (crlf @ t)" by blast
    with True show ?thesis by (cases st) (auto simp: crlf_def)
  next
    case False
    let ?t = "CHR '','' # join_with '','' (map csv_cell cells) @ crlf @ t"
    have "?t = [] \<or> hd ?t \<in> {CHR '','', CHR 0x0D}" by simp
    from read_cell [OF this, of row s] obtain st where st: "st \<in> {AtStart, InPlain, AfterQuote}"
      "csv_read AtStart [] row (csv_cell s @ ?t) = csv_read st s row ?t" by blast
    have "csv_read st s row ?t = csv_read AtStart [] (row @ [s]) (join_with '','' (map csv_cell cells) @ crlf @ t)"
      using st(1) by (cases st) auto
    with False st(2) Cons.IH [of "row @ [s]"] show ?thesis by (cases cells) auto
  qed
qed simp

lemma read_rows:
  "\<forall>cells\<in>set rows. cells \<noteq> [] \<Longrightarrow> csv_parse (concat (map csv_row rows)) = rows"
proof (induction rows)
  case (Cons cells rows)
  then show ?case using read_row [of cells "[]" "concat (map csv_row rows)"] by (simp add: csv_parse_def csv_row_def [of cells])
qed (simp add: csv_parse_def)

lemma jget_column:
  "jget k ((k', v) # d) = (if k = k' then Some v else jget k d)"
  by (simp add: jget_def)

lemma report_columns:
  "jget ''type'' (report_row S r) = Some (JStr (ioc_kind r))"
  "jget ''value'' (report_row S r) = Some (JStr (ioc_defanged r))"
  "jget ''threat_score'' (report_row S r) = Some (JInt (ioc_score r))"
  "jget ''threat_level'' (report_row S r) = Some (JStr (ioc_level r))"
  "jget ''severity'' (report_row S r) = Some (JStr (ioc_severity r))"
  "jget ''source'' (report_row S r) = Some (JStr (ioc_source r))"
  "jget ''tags'' (report_row S r) = Some (JStr (join_with '','' (ioc_tags r)))"
  by (simp_all add: report_row_def jget_column)

text \<open>What a text cell holds: never a text that starts a formula.\<close>

definition inert :: "string \<Rightarrow> string" where
  "inert s = (if s \<noteq> [] \<and> hd s \<in> set formula_prefixes then CHR 0x27 # s else s)"

lemma cell_text_inert: "cell_text (csv_safe (JStr s)) = inert s"
  by (simp add: csv_safe_def inert_def)

lemma inert_is_inert: "inert s = [] \<or> hd (inert s) \<notin> set formula_prefixes"
  by (simp add: inert_def formula_prefixes_def)

lemma csv_values_columns:
  "csv_values S r =
     [inert (ioc_kind r), inert (ioc_defanged r), show_int (ioc_score r), inert (ioc_level r),
      inert (ioc_severity r), inert (ioc_source r), inert (join_with '','' (ioc_tags r))]"
  unfolding csv_values_def csv_columns_def list.map report_columns option.sel cell_text_inert
  by (simp add: csv_safe_def)

section \<open>Properties\<close>

text \<open>C8: The CSV export reads back as it was written and is inert in a spreadsheet: a reader of the
  format gets the header and then, for each indicator in order, its seven cells and nothing else,
  whatever commas, quotes or line ends the data holds; each cell is the field's text, with an
  apostrophe in front exactly when the text begins with a character that starts a formula.\<close>

theorem csv_export_safe:
  "csv_parse (to_csv S rs) = csv_columns # map (csv_values S) rs \<and>
   (\<forall>r. length (csv_values S r) = 7 \<and>
     csv_values S r ! 2 = show_int (ioc_score r) \<and>
     (\<forall>(i, s)\<in>{(0, ioc_kind r), (1, ioc_defanged r), (3, ioc_level r), (4, ioc_severity r), (5, ioc_source r),
         (6, join_with '','' (ioc_tags r))}.
       csv_values S r ! i = (if s \<noteq> [] \<and> hd s \<in> set formula_prefixes then CHR 0x27 # s else s) \<and>
       (csv_values S r ! i = [] \<or> hd (csv_values S r ! i) \<notin> set formula_prefixes)))"
proof (intro conjI allI)
  have "\<forall>cells\<in>set (csv_columns # map (csv_values S) rs). cells \<noteq> []"
    by (simp add: csv_values_columns csv_columns_def)
  from read_rows [OF this] show "csv_parse (to_csv S rs) = csv_columns # map (csv_values S) rs"
    by (simp add: to_csv_def comp_def)
next
  fix r
  show "length (csv_values S r) = 7" "csv_values S r ! 2 = show_int (ioc_score r)"
    by (simp_all add: csv_values_columns)
  show "\<forall>(i, s)\<in>{(0, ioc_kind r), (1, ioc_defanged r), (3, ioc_level r), (4, ioc_severity r), (5, ioc_source r),
         (6, join_with '','' (ioc_tags r))}.
       csv_values S r ! i = (if s \<noteq> [] \<and> hd s \<in> set formula_prefixes then CHR 0x27 # s else s) \<and>
       (csv_values S r ! i = [] \<or> hd (csv_values S r ! i) \<notin> set formula_prefixes)"
    unfolding inert_def [symmetric] by (simp add: csv_values_columns inert_is_inert)
qed

theorem csv_export_safe_witness:
  "csv_values demo_share (demo_ioc\<lparr>ioc_tags := [''=cmd'', ''x'']\<rparr>) ! 6 = [CHR 0x27] @ ''=cmd,x''"
proof -
  let ?r = "demo_ioc\<lparr>ioc_tags := [''=cmd'', ''x'']\<rparr>"
  have "join_with '','' (ioc_tags ?r) = ''=cmd,x''" "CHR ''='' \<in> set formula_prefixes"
    by (simp_all add: formula_prefixes_def)
  with csv_export_safe [of demo_share "[]", THEN conjunct2, THEN spec, of ?r] show ?thesis by simp
qed

end
