(* ===== verification/Schemas.thy ===== *)
theory Schemas
  imports Search Actors AuthProps Reports
begin

text \<open>
  What the endpoints accept and what they send back: \<open>app/schemas\<close> and the request model of
  \<open>app/api/v1/correlation.py\<close>.  Parsing JSON into fields is pydantic's; the model starts from
  typed fields and states the constraints declared on them.  A pattern is anchored at both ends
  of the text; \<open>\w\<close> is read in ASCII.
\<close>

section \<open>Constraints on texts\<close>

definition sized :: "nat \<Rightarrow> nat \<Rightarrow> string \<Rightarrow> bool" where
  "sized lo hi s \<longleftrightarrow> lo \<le> length s \<and> length s \<le> hi"

definition made_of :: "char list \<Rightarrow> string \<Rightarrow> bool" where
  "made_of others s \<longleftrightarrow> (\<forall>c\<in>set s. is_word c \<or> c \<in> set others)"

definition optional :: "(string \<Rightarrow> bool) \<Rightarrow> string option \<Rightarrow> bool" where
  "optional p x = (case x of None \<Rightarrow> True | Some s \<Rightarrow> p s)"

definition tag_ok :: "string \<Rightarrow> bool" where
  "tag_ok s \<longleftrightarrow> sized 1 64 s \<and> made_of ''.:-'' s"

definition tags_ok :: "string list \<Rightarrow> bool" where
  "tags_ok ts \<longleftrightarrow> length ts \<le> 32 \<and> list_all tag_ok ts"

definition references_ok :: "string list \<Rightarrow> bool" where
  "references_ok rs \<longleftrightarrow> length rs \<le> 32 \<and> list_all (sized 0 2048) rs"

definition source_ok :: "string \<Rightarrow> bool" where
  "source_ok s \<longleftrightarrow> sized 1 64 s \<and> made_of ''.-'' s"

text \<open>\<open>^[a-z0-9-]{1,32}:.+$\<close>: the first colon ends the type, and no line end follows.\<close>

definition ref_ok :: "string \<Rightarrow> bool" where
  "ref_ok s \<longleftrightarrow>
     length s \<le> 2100 \<and>
     (let t = takeWhile (\<lambda>c. c \<noteq> CHR '':'') s; v = drop (Suc (length t)) s in
      sized 1 32 t \<and> list_all (\<lambda>c. is_lower c \<or> is_digit c \<or> c = CHR ''-'') t \<and>
      v \<noteq> [] \<and> CHR 0x0A \<notin> set v)"

section \<open>Indicators\<close>

record ioc_create =
  ic_value :: string
  ic_source :: string
  ic_confidence :: confidence
  ic_severity :: severity
  ic_tags :: "string list"
  ic_references :: "string list"
  ic_description :: "string option"
  ic_enrich :: bool

definition valid_ioc_create :: "ioc_create \<Rightarrow> bool" where
  "valid_ioc_create p \<longleftrightarrow>
     sized 1 2048 (ic_value p) \<and> source_ok (ic_source p) \<and> tags_ok (ic_tags p) \<and>
     references_ok (ic_references p) \<and> optional (sized 0 2000) (ic_description p)"

record bulk_request =
  bk_content :: string
  bk_format :: string
  bk_source :: string
  bk_confidence :: confidence
  bk_severity :: severity
  bk_tags :: "string list"
  bk_enrich :: bool
  bk_limit :: int

definition import_formats :: "string list" where
  "import_formats = [''auto'', ''text'', ''csv'', ''stix'']"

definition valid_extract :: "string \<Rightarrow> string \<Rightarrow> bool" where
  "valid_extract content fmt \<longleftrightarrow> sized 1 (nat max_content_chars) content \<and> fmt \<in> set import_formats"

definition valid_bulk :: "bulk_request \<Rightarrow> bool" where
  "valid_bulk p \<longleftrightarrow>
     valid_extract (bk_content p) (bk_format p) \<and> source_ok (bk_source p) \<and> tags_ok (bk_tags p) \<and>
     1 \<le> bk_limit p \<and> bk_limit p \<le> max_indicators"

text \<open>Response fields that are enumerations or validated texts.\<close>

definition checked :: "bool \<Rightarrow> string \<Rightarrow> exn + json" where
  "checked ok s = (if ok then Inr (JStr s) else Inl (PyExc ResponseInvalid s))"

definition threat_level_of :: "string \<Rightarrow> threat_level option" where
  "threat_level_of s = find (\<lambda>t. threat_level_value t = s) [Clean, Low, Medium, High, Critical]"

definition text_or_null :: "string option \<Rightarrow> json" where
  "text_or_null x = (case x of None \<Rightarrow> JNull | Some s \<Rightarrow> JStr s)"

definition texts :: "string list \<Rightarrow> json" where
  "texts ss = JArr (map JStr ss)"

definition ioc_out :: "share_env \<Rightarrow> ioc_row \<Rightarrow> exn + dict" where
  "ioc_out S r =
     bindE (checked (ioc_type_of (ioc_kind r) \<noteq> None) (ioc_kind r)) (\<lambda>t.
     bindE (checked (confidence_of (ioc_confidence r) \<noteq> None) (ioc_confidence r)) (\<lambda>c.
     bindE (checked (severity_of (ioc_severity r) \<noteq> None) (ioc_severity r)) (\<lambda>s.
     bindE (checked (threat_level_of (ioc_level r) \<noteq> None) (ioc_level r)) (\<lambda>l.
     Inr [(''id'', JStr (ioc_id r)), (''type'', t), (''value'', JStr (ioc_value r)),
          (''defanged_value'', JStr (ioc_defanged r)), (''source'', JStr (ioc_source r)),
          (''confidence'', c), (''severity'', s), (''status'', JStr (ioc_state r)),
          (''threat_score'', JInt (ioc_score r)), (''threat_level'', l), (''tags'', texts (ioc_tags r)),
          (''references'', texts (ioc_references r)), (''description'', text_or_null (ioc_description r)),
          (''first_seen'', time_json S (ioc_first_seen r)), (''last_seen'', time_json S (ioc_last_seen r))]))))"

definition enrichment_out :: "enrichment_row \<Rightarrow> json" where
  "enrichment_out e = JObj [(''provider'', JStr (enr_provider e)), (''data'', JObj (enr_data e))]"

text \<open>\<open>ScoreExplainOut\<close> from the stored breakdown.\<close>

definition explain_out :: "json \<Rightarrow> exn + json" where
  "explain_out b =
     bindE (item ''score'' b) (\<lambda>s. bindE (item ''level'' b) (\<lambda>l. bindE (item ''contributions'' b) (\<lambda>c.
     case (s, l, c) of
       (JInt n, JStr t, JObj d) \<Rightarrow>
         bindE (checked (threat_level_of t \<noteq> None) t) (\<lambda>t'.
         Inr (JObj [(''score'', JInt n), (''level'', t'), (''contributions'', JObj d)]))
     | _ \<Rightarrow> Inl (PyExc ResponseInvalid []))))"

text \<open>An item of a bulk import, absent fields as null.\<close>

definition field_or_null :: "string \<Rightarrow> dict \<Rightarrow> json" where
  "field_or_null k d = (case jget k d of Some v \<Rightarrow> v | None \<Rightarrow> JNull)"

definition bulk_item_out :: "dict \<Rightarrow> json" where
  "bulk_item_out d =
     JObj (map (\<lambda>k. (k, field_or_null k d)) [''value'', ''type'', ''status'', ''threat_score'', ''error''])"

section \<open>Alert rules and threat actors\<close>

record rule_create =
  rc_name :: string
  rc_metric :: string
  rc_operator :: string
  rc_threshold :: int
  rc_channel :: string
  rc_config :: dict

definition valid_rule :: "rule_create \<Rightarrow> bool" where
  "valid_rule p \<longleftrightarrow>
     sized 1 120 (rc_name p) \<and> made_of '' .-'' (rc_name p) \<and>
     rc_metric p \<in> {''new_ioc'', ''threat_score''} \<and> rc_operator p \<in> {''gte'', ''lte'', ''eq''} \<and>
     0 \<le> rc_threshold p \<and> rc_threshold p \<le> 100 \<and>
     rc_channel p \<in> {''log'', ''webhook'', ''slack'', ''discord''}"

definition rule_out :: "share_env \<Rightarrow> rule_row \<Rightarrow> json" where
  "rule_out S r =
     JObj [(''id'', JStr (rul_id r)), (''name'', JStr (rul_name r)), (''metric'', JStr (rul_metric r)),
       (''operator'', JStr (rul_operator r)), (''threshold'', JInt (rul_threshold r)),
       (''channel'', JStr (rul_channel r)), (''is_active'', JBool (rul_active r)),
       (''created_at'', JStr (sh_iso S (rul_created r)))]"

definition alert_out :: "share_env \<Rightarrow> alert_row \<Rightarrow> json" where
  "alert_out S a =
     JObj [(''id'', JStr (alr_id a)), (''rule_id'', text_or_null (alr_rule a)), (''ioc_id'', text_or_null (alr_ioc a)),
       (''title'', JStr (alr_title a)), (''message'', text_or_null (alr_message a)),
       (''severity'', JStr (alr_severity a)), (''delivered'', JBool (alr_delivered a)),
       (''created_at'', JStr (sh_iso S (alr_created a)))]"

definition actor_types :: "string list" where
  "actor_types = [''apt'', ''ransomware'', ''hacktivist'', ''nation-state'', ''cybercrime'', ''unknown'']"

definition valid_actor :: "actor_data \<Rightarrow> bool" where
  "valid_actor a \<longleftrightarrow>
     sized 1 128 (acd_name a) \<and> made_of '' .-/'' (acd_name a) \<and> acd_kind a \<in> set actor_types \<and>
     optional (\<lambda>c. sized 2 4 c \<and> list_all is_letter c) (acd_country a) \<and>
     length (acd_aliases a) \<le> 50 \<and> length (acd_motivations a) \<le> 20 \<and> length (acd_techniques a) \<le> 200 \<and>
     length (acd_known_malware a) \<le> 200 \<and> length (acd_targets a) \<le> 100 \<and>
     optional (sized 0 4000) (acd_description a)"

definition actor_out :: "share_env \<Rightarrow> actor_row \<Rightarrow> json" where
  "actor_out S a =
     JObj [(''id'', JStr (act_id a)), (''name'', JStr (act_name a)), (''actor_type'', JStr (act_kind a)),
       (''country'', text_or_null (act_country a)), (''aliases'', texts (act_aliases a)),
       (''motivations'', texts (act_motivations a)), (''techniques'', texts (act_techniques a)),
       (''known_malware'', texts (act_known_malware a)), (''targets'', texts (act_targets a)),
       (''description'', text_or_null (act_description a)), (''created_at'', JStr (sh_iso S (act_created a)))]"

section \<open>Relationships\<close>

record relation_create =
  re_source_ref :: string
  re_target_ref :: string
  re_relationship :: string
  re_confidence :: real

definition relationships :: "string list" where
  "relationships =
     [''resolves-to'', ''communicates-with'', ''drops'', ''exploits'', ''attributed-to'', ''uses'', ''related-to'']"

definition valid_relation :: "relation_create \<Rightarrow> bool" where
  "valid_relation p \<longleftrightarrow>
     ref_ok (re_source_ref p) \<and> ref_ok (re_target_ref p) \<and> re_relationship p \<in> set relationships \<and>
     0 \<le> re_confidence p \<and> re_confidence p \<le> 1"

section \<open>Accounts\<close>

text \<open>
  \<open>EmailStr\<close> checks and normalises an address: \<open>normal\<close> is what the library makes of the text, if
  it accepts it.
\<close>

type_synonym email_rule = "string \<Rightarrow> string option"

definition valid_register :: "email_rule \<Rightarrow> string \<Rightarrow> string \<Rightarrow> bool" where
  "valid_register normal email password \<longleftrightarrow> normal email \<noteq> None \<and> sized 10 128 password"

definition valid_login :: "email_rule \<Rightarrow> string \<Rightarrow> string \<Rightarrow> bool" where
  "valid_login normal email password \<longleftrightarrow> normal email \<noteq> None \<and> sized 1 128 password"

definition valid_key_name :: "string \<Rightarrow> bool" where
  "valid_key_name s \<longleftrightarrow> sized 1 64 s \<and> made_of '' .-'' s"

definition user_out :: "email_rule \<Rightarrow> share_env \<Rightarrow> user_row \<Rightarrow> exn + json" where
  "user_out normal S u =
     (case normal (usr_email u) of
        None \<Rightarrow> Inl (PyExc ResponseInvalid (usr_email u))
      | Some email \<Rightarrow>
          bindE (checked (role_of (usr_role u) \<noteq> None) (usr_role u)) (\<lambda>r.
          Inr (JObj [(''id'', JStr (usr_id u)), (''email'', JStr email), (''role'', r),
            (''is_active'', JBool (usr_active u)), (''created_at'', JStr (sh_iso S (usr_created u)))])))"

definition key_out :: "share_env \<Rightarrow> key_row \<Rightarrow> exn + dict" where
  "key_out S k =
     bindE (checked (role_of (key_role k) \<noteq> None) (key_role k)) (\<lambda>r.
     Inr [(''id'', JStr (key_id k)), (''name'', JStr (key_name k)), (''prefix'', JStr (key_prefix_text k)),
          (''role'', r), (''is_active'', JBool (key_active k)), (''created_at'', JStr (sh_iso S (key_created k)))])"

end
