(* ===== verification/Gateway.thy ===== *)
theory Gateway
  imports PyNet Errors
begin

text \<open>
  What a request meets before its handler: the caller's address behind proxies
  (\<open>app/api/client_ip.py\<close>), the rate limiter and the response headers
  (\<open>app/api/middleware.py\<close>), and the error responses (\<open>app/api/errors.py\<close>).
\<close>

section \<open>Networks\<close>

text \<open>\<open>ipaddress.ip_network(s, strict=False)\<close>: the base address and the prefix length.\<close>

datatype ip_network = N4 int nat | N6 int nat

definition prefix_of_digits :: "int \<Rightarrow> string \<Rightarrow> nat option" where
  "prefix_of_digits max_len s =
     (if py_isdigit s \<and> int_of_digits s \<le> max_len then Some (nat (int_of_digits s)) else None)"

text \<open>A net mask such as \<open>255.255.0.0\<close> is the number with that many leading ones.\<close>

definition prefix_of_mask :: "int \<Rightarrow> nat option" where
  "prefix_of_mask m = find (\<lambda>k. m = (2 ^ 32 - 2 ^ (32 - k))) [0..<33]"

definition prefix4 :: "string \<Rightarrow> nat option" where
  "prefix4 s =
     (case prefix_of_digits 32 s of
        Some k \<Rightarrow> Some k
      | None \<Rightarrow>
          (case ipv4_int s of
             None \<Rightarrow> None
           | Some m \<Rightarrow> (case prefix_of_mask m of
                Some k \<Rightarrow> Some k
              | None \<Rightarrow> prefix_of_mask (2 ^ 32 - 1 - m))))"

definition ip_network :: "string \<Rightarrow> ip_network option" where
  "ip_network s =
     (let parts = split_on CHR ''/'' s in
      if length parts > 2 then None
      else let addr = hd parts;
               p4 = (if length parts = 1 then Some 32 else prefix4 (parts ! 1));
               p6 = (if length parts = 1 then Some 128 else prefix_of_digits 128 (parts ! 1))
           in case (ipv4_address addr, p4) of
             (Some n, Some k) \<Rightarrow> Some (N4 n k)
           | _ \<Rightarrow> (case (ipv6_address addr, p6) of
                (Some (V6 n _), Some k) \<Rightarrow> Some (N6 n k)
              | _ \<Rightarrow> None))"

fun in_network :: "ip_addr \<Rightarrow> ip_network \<Rightarrow> bool" where
  "in_network (V4 n) (N4 b k) = in_net4 n (b, k)"
| "in_network (V6 n _) (N6 b k) = in_net6 n (b, k)"
| "in_network _ _ = False"

section \<open>The caller's address\<close>

text \<open>A \<open>ProxyTrust\<close> is its networks; a CIDR that does not parse is skipped.\<close>

definition proxy_trust :: "string list \<Rightarrow> ip_network list" where
  "proxy_trust trusted_cidrs = List.map_filter ip_network trusted_cidrs"

definition trusts :: "ip_network list \<Rightarrow> string option \<Rightarrow> bool" where
  "trusts nets address =
     (case address of
        None \<Rightarrow> False
      | Some a \<Rightarrow> if a = [] \<or> nets = [] then False
                  else (case ip_address a of
                          None \<Rightarrow> False
                        | Some ip \<Rightarrow> list_ex (in_network ip) nets))"

definition hops :: "string \<Rightarrow> string list" where
  "hops forwarded =
     map py_strip (filter (\<lambda>part. py_strip part \<noteq> []) (split_on CHR '','' forwarded))"

definition client_ip :: "ip_network list \<Rightarrow> string option \<Rightarrow> string \<Rightarrow> string option" where
  "client_ip nets peer forwarded =
     (if \<not> trusts nets peer then peer
      else case find (\<lambda>hop. \<not> trusts nets (Some hop)) (rev (hops forwarded)) of
        Some hop \<Rightarrow> Some hop
      | None \<Rightarrow> peer)"

section \<open>The rate limiter\<close>

record limiter =
  rl_limit :: int
  hits :: "string \<Rightarrow> real list option"
  last_sweep :: real

definition rl_window :: real where "rl_window = 60"

datatype rl_decision = Pass | Refuse int

definition exempt_paths :: "string list" where
  "exempt_paths = [''/api/v1/health'', ''/api/v1/ready'']"

definition new_limiter :: "int \<Rightarrow> limiter" where
  "new_limiter limit = \<lparr>rl_limit = limit, hits = Map.empty, last_sweep = 0\<rparr>"

definition maybe_sweep :: "real \<Rightarrow> limiter \<Rightarrow> limiter" where
  "maybe_sweep now l =
     (if now - last_sweep l < rl_window then l
      else l\<lparr>last_sweep := now,
             hits := (\<lambda>ip. case hits l ip of
                None \<Rightarrow> None
              | Some ts \<Rightarrow> if ts = [] \<or> now - last ts > rl_window then None else Some ts)\<rparr>)"

definition rl_dispatch ::
  "string \<Rightarrow> string option \<Rightarrow> real \<Rightarrow> limiter \<Rightarrow> rl_decision \<times> limiter" where
  "rl_dispatch path client_addr now l =
     (if path \<in> set exempt_paths then (Pass, l)
      else let client = (case client_addr of None \<Rightarrow> ''unknown''
                         | Some a \<Rightarrow> if a = [] then ''unknown'' else a);
               bucket = dropWhile (\<lambda>t. now - t > rl_window)
                 (case hits l client of None \<Rightarrow> [] | Some ts \<Rightarrow> ts)
           in if int (length bucket) \<ge> rl_limit l
              then (Refuse (if bucket = [] then 60
                            else max 0 \<lfloor>rl_window - (now - hd bucket)\<rfloor>),
                    l\<lparr>hits := (hits l)(client \<mapsto> bucket)\<rparr>)
              else (Pass, maybe_sweep now (l\<lparr>hits := (hits l)(client \<mapsto> bucket @ [now])\<rparr>)))"

section \<open>Response headers\<close>

type_synonym headers = "(string \<times> string) list"

text \<open>
  The headers of a response are kept in order with lower-case names;
  \<open>response.headers[k] = v\<close> overwrites the first occurrence and drops the others.
\<close>

definition set_default :: "string \<Rightarrow> string \<Rightarrow> headers \<Rightarrow> headers" where
  "set_default k v h = (if map_of h (py_lower k) = None then h @ [(py_lower k, v)] else h)"

fun set_header :: "string \<Rightarrow> string \<Rightarrow> headers \<Rightarrow> headers" where
  "set_header k v [] = [(py_lower k, v)]"
| "set_header k v (x # h) =
     (if fst x = py_lower k then (py_lower k, v) # filter (\<lambda>y. fst y \<noteq> py_lower k) h
      else x # set_header k v h)"

definition apply_security_headers :: "bool \<Rightarrow> headers \<Rightarrow> headers" where
  "apply_security_headers secure h =
     (let h1 = set_default ''X-Content-Type-Options'' ''nosniff'' h;
          h2 = set_default ''X-Frame-Options'' ''DENY'' h1;
          h3 = set_default ''Referrer-Policy'' ''no-referrer'' h2;
          h4 = set_default ''Content-Security-Policy''
                 (''default-src '' @ [CHR 0x27] @ ''self'' @ [CHR 0x27] @ ''; frame-ancestors '' @
                  [CHR 0x27] @ ''none'' @ [CHR 0x27]) h3
      in if secure
         then set_default ''Strict-Transport-Security'' ''max-age=63072000; includeSubDomains'' h4
         else h4)"

definition request_is_secure :: "string \<Rightarrow> string \<Rightarrow> bool" where
  "request_is_secure forwarded_proto url_scheme =
     (let p = py_strip (before CHR '','' forwarded_proto)
      in (if p = [] then url_scheme else p) = ''https'')"

text \<open>
  \<open>RequestContextMiddleware.dispatch\<close> on the response of the handler: the request's own
  \<open>X-Request-ID\<close> or a fresh \<open>uuid4\<close>, and the elapsed milliseconds as text.
\<close>

definition context_dispatch ::
  "string option \<Rightarrow> string \<Rightarrow> string \<Rightarrow> string option \<Rightarrow> string \<Rightarrow> headers \<Rightarrow> headers" where
  "context_dispatch id_header uuid elapsed forwarded_proto scheme_name h =
     (let request_id = (case id_header of Some i \<Rightarrow> if i = [] then uuid else i | None \<Rightarrow> uuid);
          h1 = set_header ''x-request-id'' request_id h;
          h2 = set_header ''x-response-time-ms'' elapsed h1;
          proto = (case forwarded_proto of Some p \<Rightarrow> p | None \<Rightarrow> '''')
      in apply_security_headers (request_is_secure proto scheme_name) h2)"

section \<open>Error responses\<close>

record http_response =
  resp_status :: nat
  resp_body :: json
  resp_headers :: headers

text \<open>\<open>int(retry_after)\<close> of the values the code puts there.\<close>

definition retry_after_header :: "(string \<times> json) list \<Rightarrow> headers" where
  "retry_after_header details =
     (case jget ''retry_after'' details of
        Some (JInt n) \<Rightarrow> [(''Retry-After'', show_int n)]
      | Some (JReal r) \<Rightarrow> [(''Retry-After'', show_int (if r \<ge> 0 then \<lfloor>r\<rfloor> else \<lceil>r\<rceil>))]
      | _ \<Rightarrow> [])"

definition handle_error :: "exn \<Rightarrow> http_response" where
  "handle_error e =
     (case e of
        AppExc c msg details \<Rightarrow>
          \<lparr>resp_status = status_of c, resp_body = to_dict e,
           resp_headers = retry_after_header details\<rparr>
      | PyExc _ _ \<Rightarrow>
          \<lparr>resp_status = 500,
           resp_body = JObj [(''error'', JObj [(''code'', JStr ''internal_error''),
              (''message'', JStr ''An unexpected error occurred.'')])],
           resp_headers = []\<rparr>)"

text \<open>Requests FastAPI itself rejects: with the encoded errors, or an HTTP exception.\<close>

definition handle_validation :: "json \<Rightarrow> http_response" where
  "handle_validation errors =
     \<lparr>resp_status = 422,
      resp_body = JObj [(''error'', JObj [(''code'', JStr ''validation_error''),
        (''message'', JStr ''Request validation failed.''),
        (''details'', JObj [(''errors'', errors)])])],
      resp_headers = []\<rparr>"

definition handle_http :: "nat \<Rightarrow> string \<Rightarrow> http_response" where
  "handle_http status detail =
     \<lparr>resp_status = status,
      resp_body = JObj [(''error'', JObj [(''code'', JStr ''http_error''), (''message'', JStr detail)])],
      resp_headers = []\<rparr>"

section \<open>Lemmas\<close>

lemma split_on_app: "split_on c (u @ c # v) = split_on c u @ split_on c v"
proof (induction u)
  case (Cons x u)
  then show ?case by (cases "split_on c u") auto
qed simp

lemma hops_app: "hops (u @ CHR '','' # v) = hops u @ hops v"
  by (simp add: hops_def split_on_app)

text \<open>The requests of a run, and the times at which each client's were let through.\<close>

type_synonym request = "string option \<times> real"

definition client_key :: "string option \<Rightarrow> string" where
  "client_key a = (case a of None \<Rightarrow> ''unknown'' | Some s \<Rightarrow> if s = [] then ''unknown'' else s)"

fun passed :: "string \<Rightarrow> limiter \<Rightarrow> request list \<Rightarrow> (string \<times> real) list \<times> limiter" where
  "passed path l [] = ([], l)"
| "passed path l (q # qs) =
     (case rl_dispatch path (fst q) (snd q) l of
        (d, l1) \<Rightarrow> (case passed path l1 qs of
           (lg, l2) \<Rightarrow> ((if d = Pass then [(client_key (fst q), snd q)] else []) @ lg, l2)))"

definition recent :: "real \<Rightarrow> real list \<Rightarrow> real list" where
  "recent now ts = filter (\<lambda>t. now - t \<le> rl_window) ts"

definition bucket_of :: "limiter \<Rightarrow> string \<Rightarrow> real list" where
  "bucket_of l c = (case hits l c of None \<Rightarrow> [] | Some ts \<Rightarrow> ts)"

text \<open>
  A bucket is sorted and not in the future, its recent entries are those of the log of its
  client, and there are no more of them than the limit.
\<close>

definition client_ok :: "int \<Rightarrow> real \<Rightarrow> real list \<Rightarrow> real list \<Rightarrow> bool" where
  "client_ok k now lg bs \<longleftrightarrow> sorted bs \<and> (\<forall>t\<in>set bs. t \<le> now) \<and>
     recent now lg = recent now bs \<and> int (length (recent now bs)) \<le> k"

definition rl_inv :: "int \<Rightarrow> real \<Rightarrow> (string \<Rightarrow> real list) \<Rightarrow> limiter \<Rightarrow> bool" where
  "rl_inv k now lg l \<longleftrightarrow> rl_limit l = k \<and> (\<forall>c. client_ok k now (lg c) (bucket_of l c))"

lemma recent_dropWhile:
  "sorted ts \<Longrightarrow> dropWhile (\<lambda>t. now - t > rl_window) ts = recent now ts"
proof (induction ts)
  case (Cons t ts)
  show ?case
  proof (cases "now - t > rl_window")
    case True
    with Cons show ?thesis by (simp add: recent_def)
  next
    case False
    with Cons.prems have "recent now (t # ts) = t # ts" by (auto simp: recent_def filter_id_conv)
    with False show ?thesis by simp
  qed
qed (simp add: recent_def)

lemma recent_later: "a \<le> b \<Longrightarrow> recent b (recent a ts) = recent b ts"
  by (induction ts) (auto simp: recent_def)

lemma recent_mono: "a \<le> b \<Longrightarrow> length (recent b ts) \<le> length (recent a ts)"
  by (induction ts) (auto simp: recent_def)

lemma client_ok_later: "client_ok k a lg bs \<Longrightarrow> a \<le> b \<Longrightarrow> client_ok k b lg bs"
  unfolding client_ok_def
  using recent_later [of a b lg] recent_later [of a b bs] recent_mono [of a b bs] by force

lemma client_ok_drop: "client_ok k now lg bs \<Longrightarrow> client_ok k now lg (recent now bs)"
  by (auto simp: client_ok_def recent_def sorted_wrt_filter)

lemma client_ok_add:
  "client_ok k now lg bs \<Longrightarrow> int (length (recent now bs)) < k \<Longrightarrow>
   client_ok k now (lg @ [now]) (recent now bs @ [now])"
  by (auto simp: client_ok_def recent_def sorted_wrt_filter sorted_append rl_window_def)

lemma rl_inv_later: "rl_inv k a lg l \<Longrightarrow> a \<le> b \<Longrightarrow> rl_inv k b lg l"
  by (auto simp: rl_inv_def intro: client_ok_later)

lemma bucket_of_upd:
  "bucket_of (l\<lparr>hits := (hits l)(c \<mapsto> ts)\<rparr>) d = (if d = c then ts else bucket_of l d)"
  by (simp add: bucket_of_def)

lemma sorted_le_last: "sorted ts \<Longrightarrow> t \<in> set ts \<Longrightarrow> t \<le> last ts"
  by (induction ts) (auto split: if_splits)

lemma old_bucket: "sorted ts \<Longrightarrow> now - last ts > rl_window \<Longrightarrow> recent now ts = []"
  using sorted_le_last [of ts] by (force simp: recent_def filter_empty_conv)

lemma bucket_of_sweep:
  "bucket_of (maybe_sweep now l) c =
     (if rl_window \<le> now - last_sweep l \<and> bucket_of l c \<noteq> [] \<and>
         now - last (bucket_of l c) > rl_window then [] else bucket_of l c)"
  by (auto simp: maybe_sweep_def bucket_of_def split: option.splits)

lemma client_ok_swept:
  "client_ok k now lg bs \<Longrightarrow> now - last bs > rl_window \<Longrightarrow> client_ok k now lg []"
  using old_bucket [of bs now] by (auto simp: client_ok_def recent_def)

lemma sweep_inv: "rl_inv k now lg l \<Longrightarrow> rl_inv k now lg (maybe_sweep now l)"
proof -
  assume i: "rl_inv k now lg l"
  then have ok: "client_ok k now (lg c) (bucket_of l c)" for c by (simp add: rl_inv_def)
  have "client_ok k now (lg c) (bucket_of (maybe_sweep now l) c)" for c
    unfolding bucket_of_sweep using ok [of c] client_ok_swept [OF ok, of c] by simp
  then show ?thesis using i by (simp add: rl_inv_def maybe_sweep_def)
qed

lemma rl_dispatch_inv:
  assumes i: "rl_inv k now lg l" and p: "path \<notin> set exempt_paths" and k: "0 \<le> k"
    and d: "rl_dispatch path a now l = (d, l')"
  shows "rl_inv k now (if d = Pass then lg(client_key a := lg (client_key a) @ [now]) else lg) l'"
proof -
  let ?c = "client_key a"
  let ?b = "recent now (bucket_of l ?c)"
  have ok: "client_ok k now (lg c) (bucket_of l c)" for c using i by (simp add: rl_inv_def)
  have b: "dropWhile (\<lambda>t. now - t > rl_window) (bucket_of l ?c) = ?b"
    using ok [of ?c] by (intro recent_dropWhile) (simp add: client_ok_def)
  have eq: "rl_dispatch path a now l =
      (if int (length ?b) \<ge> k
       then (Refuse (if ?b = [] then 60 else max 0 \<lfloor>rl_window - (now - hd ?b)\<rfloor>),
             l\<lparr>hits := (hits l)(?c \<mapsto> ?b)\<rparr>)
       else (Pass, maybe_sweep now (l\<lparr>hits := (hits l)(?c \<mapsto> ?b @ [now])\<rparr>)))"
    using p b i unfolding rl_dispatch_def Let_def client_key_def [symmetric] bucket_of_def [symmetric]
    by (simp add: rl_inv_def)
  show ?thesis
  proof (cases "int (length ?b) \<ge> k")
    case True
    then have "l' = l\<lparr>hits := (hits l)(?c \<mapsto> ?b)\<rparr>" "d \<noteq> Pass" using d eq by auto
    with i ok client_ok_drop show ?thesis by (simp add: rl_inv_def bucket_of_upd)
  next
    case False
    then have l': "l' = maybe_sweep now (l\<lparr>hits := (hits l)(?c \<mapsto> ?b @ [now])\<rparr>)" and "d = Pass"
      using d eq by auto
    have "rl_inv k now (lg(?c := lg ?c @ [now])) (l\<lparr>hits := (hits l)(?c \<mapsto> ?b @ [now])\<rparr>)"
      using i ok client_ok_add [OF ok] False by (simp add: rl_inv_def bucket_of_upd)
    with \<open>d = Pass\<close> show ?thesis unfolding l' by (simp add: sweep_inv)
  qed
qed

text \<open>The times logged for a client.\<close>

definition times_of :: "string \<Rightarrow> (string \<times> real) list \<Rightarrow> real list" where
  "times_of c lg = map snd (filter (\<lambda>e. fst e = c) lg)"

lemma passed_inv:
  assumes "rl_inv k t0 lg l" "path \<notin> set exempt_paths" "0 \<le> k" "sorted (t0 # map snd qs)"
  shows "rl_inv k (last (t0 # map snd qs)) (\<lambda>c. lg c @ times_of c (fst (passed path l qs)))
    (snd (passed path l qs))"
  using assms(1,4)
proof (induction qs arbitrary: t0 lg l)
  case Nil
  then show ?case by (simp add: times_of_def)
next
  case (Cons q qs)
  obtain d l1 where d: "rl_dispatch path (fst q) (snd q) l = (d, l1)"
    by (cases "rl_dispatch path (fst q) (snd q) l")
  let ?lg = "if d = Pass then lg(client_key (fst q) := lg (client_key (fst q)) @ [snd q]) else lg"
  have "rl_inv k (snd q) lg l" using Cons.prems(2) by (intro rl_inv_later [OF Cons.prems(1)]) simp
  from rl_dispatch_inv [OF this assms(2,3) d] have "rl_inv k (snd q) ?lg l1" .
  from Cons.IH [OF this] Cons.prems have
    "rl_inv k (last (snd q # map snd qs)) (\<lambda>c. ?lg c @ times_of c (fst (passed path l1 qs)))
      (snd (passed path l1 qs))" by simp
  moreover have "(\<lambda>c. ?lg c @ times_of c (fst (passed path l1 qs))) =
      (\<lambda>c. lg c @ times_of c (fst (passed path l (q # qs))))"
    by (rule ext, cases d) (simp_all add: times_of_def d split: prod.splits)
  moreover have "snd (passed path l (q # qs)) = snd (passed path l1 qs)"
    using d by (simp split: prod.splits)
  ultimately show ?case by simp
qed

section \<open>Properties\<close>

text \<open>The rate limit of one path: whatever clients send and whenever stale buckets are swept, at the
  time of each request no client has had more than the limit of its (non-exempt) requests
  let through within the last sixty seconds.\<close>

theorem rate_limit_holds:
  "0 \<le> limit \<Longrightarrow> path \<notin> set exempt_paths \<Longrightarrow> sorted (0 # map snd qs) \<Longrightarrow>
   int (length (recent (last (0 # map snd qs))
     (times_of c (fst (passed path (new_limiter limit) qs))))) \<le> limit"
proof -
  assume a: "0 \<le> limit" "path \<notin> set exempt_paths" "sorted (0 # map snd qs)"
  then have "rl_inv limit 0 (\<lambda>c. []) (new_limiter limit)"
    by (simp add: rl_inv_def client_ok_def new_limiter_def bucket_of_def recent_def)
  from passed_inv [OF this a(2,1,3)] show ?thesis
    unfolding rl_inv_def client_ok_def append_Nil by metis
qed

theorem rate_limit_holds_witness:
  "length (recent 3 (times_of ''a'' (fst (passed ''/api/v1/iocs'' (new_limiter 2)
     [(Some ''a'', 1), (Some ''b'', 2), (Some ''a'', 2), (Some ''a'', 3)])))) \<le> 2"
  using rate_limit_holds [of 2 "''/api/v1/iocs''"
    "[(Some ''a'', 1), (Some ''b'', 2), (Some ''a'', 2), (Some ''a'', 3)]" "''a''"]
  by (simp add: exempt_paths_def del: passed.simps)

text \<open>C26: \<open>X-Forwarded-For\<close> cannot be spoofed: from a peer outside the trusted networks the header
  is ignored, and from a trusted one the right-most untrusted hop decides, so whatever a
  caller writes to its left changes nothing.\<close>

theorem forwarded_for_unspoofable:
  "(\<not> trusts nets peer \<longrightarrow> client_ip nets peer forged = peer) \<and>
   (list_ex (\<lambda>hop. \<not> trusts nets (Some hop)) (hops h) \<longrightarrow>
     client_ip nets peer (forged @ CHR '','' # h) = client_ip nets peer h)"
proof -
  have "find P (xs @ ys) = find P xs" if "list_ex P xs" for P and xs ys :: "string list"
    using that by (induction xs) auto
  then show ?thesis by (simp add: client_ip_def hops_app list_ex_rev)
qed

theorem forwarded_for_unspoofable_witness:
  "client_ip [N4 (quad 10 0 0 0) 8] (Some ''10.0.0.1'') ''6.6.6.6,1.2.3.4'' =
   client_ip [N4 (quad 10 0 0 0) 8] (Some ''10.0.0.1'') ''1.2.3.4''"
proof -
  have "list_ex (\<lambda>hop. \<not> trusts [N4 (quad 10 0 0 0) 8] (Some hop)) (hops ''1.2.3.4'')"
    by code_simp
  then show ?thesis
    using forwarded_for_unspoofable [of "[N4 (quad 10 0 0 0) 8]" "Some ''10.0.0.1''" "''6.6.6.6''" "''1.2.3.4''"]
    by simp
qed

end
