(* ===== verification/IocProps.thy ===== *)
theory IocProps
  imports Ioc
begin

text \<open>
  What the indicator service keeps and promises: unique keys, well-formed rows whose score is
  explained by their engine record, isolation of the items of a batch, and lookups after
  submissions.
\<close>

section \<open>Unique keys\<close>

definition keys_ok :: "db \<Rightarrow> bool" where
  "keys_ok d \<longleftrightarrow> distinct (map ioc_id (iocs d)) \<and> distinct (map ioc_key (iocs d)) \<and>
     distinct (map enr_id (enrichments d)) \<and> distinct (map enr_key (enrichments d))"

text \<open>The enrichment table as a map from indicator and provider to the data.\<close>

definition records :: "db \<Rightarrow> string \<times> string \<Rightarrow> dict option" where
  "records d = map_of (map (\<lambda>e. (enr_key e, enr_data e)) (enrichments d))"

lemma keys_ok_frame [simp]:
  "keys_ok (d\<lparr>audits := a\<rparr>) = keys_ok d" "keys_ok (d\<lparr>edges := b\<rparr>) = keys_ok d"
  "keys_ok (d\<lparr>alerts := c\<rparr>) = keys_ok d"
  by (simp_all add: keys_ok_def)

lemma records_frame [simp]:
  "records (d\<lparr>audits := a\<rparr>) = records d" "records (d\<lparr>edges := b\<rparr>) = records d"
  "records (d\<lparr>alerts := c\<rparr>) = records d" "records (d\<lparr>iocs := e\<rparr>) = records d"
  by (simp_all add: records_def)

lemma preserves_audit_frame:
  "(\<And>d x. P (d\<lparr>audits := x\<rparr>) = P d) \<Longrightarrow> preserves P (record_audit E a u ip dt)"
  unfolding record_audit_def by (intro inv_intros) simp

lemma preserves_edge_frame:
  "(\<And>d x. P (d\<lparr>edges := x\<rparr>) = P d) \<Longrightarrow> preserves P (upsert_edge E s t r c src)"
  unfolding upsert_edge_def by (intro inv_intros) simp_all

lemma preserves_auto_correlate:
  assumes "\<And>d x. P (d\<lparr>edges := x\<rparr>) = P d"
  shows "preserves P (auto_correlate E t v enr src)"
proof -
  have "preserves P (resolve_edges E r ips)" for r ips
    by (induction ips) (auto intro!: inv_intros preserves_edge_frame assms)
  then show ?thesis
    unfolding auto_correlate_def Let_def by (intro inv_intros preserves_edge_frame assms)
qed

lemma preserves_alert_on:
  "(\<And>d x. P (d\<lparr>alerts := x\<rparr>) = P d) \<Longrightarrow> preserves P (alert_on D r)"
  unfolding alert_on_def by (intro inv_intros preserves_evaluate)

section \<open>One upsert\<close>

lemma update_where_absent:
  "(\<And>r. r \<in> set rs \<Longrightarrow> \<not> p r) \<Longrightarrow> update_where p f rs = rs"
  by (simp add: update_where_def map_idI)

lemma map_of_overwrite:
  "map_of (map (\<lambda>e. (k e, if k e = z then v else f e)) xs) a =
     (if a = z \<and> z \<in> k ` set xs then Some v else map_of (map (\<lambda>e. (k e, f e)) xs) a)"
  by (induction xs) auto

lemma upsert_enrichment_run:
  assumes run: "upsert_enrichment E i p data w = (Inr x, w')" and k: "keys_ok (tables w)"
  shows "keys_ok (tables w')" "iocs (tables w') = iocs (tables w)"
    "records (tables w') = (records (tables w))((i, p) \<mapsto> data)"
proof -
  let ?es = "enrichments (tables w)"
  have u: "length (filter (\<lambda>e. enr_key e = (i, p)) ?es) \<le> 1"
    using filter_unique [of enr_key ?es "(i, p)"] k by (simp add: keys_ok_def)
  have "keys_ok (tables w') \<and> iocs (tables w') = iocs (tables w) \<and>
    records (tables w') = (records (tables w))((i, p) \<mapsto> data)"
  proof (cases "filter (\<lambda>e. enr_key e = (i, p)) ?es")
    case Nil
    then have none: "(i, p) \<notin> enr_key ` set ?es" by (auto simp: filter_empty_conv)
    have "map_of (map (\<lambda>e. (enr_key e, enr_data e)) ?es @ [((i, p), data)]) =
        (map_of (map (\<lambda>e. (enr_key e, enr_data e)) ?es))((i, p) \<mapsto> data)"
    proof
      fix z
      have "map_of (map (\<lambda>e. (enr_key e, enr_data e)) ?es) (i, p) = None"
        using none by (auto simp: map_of_eq_None_iff)
      then show "map_of (map (\<lambda>e. (enr_key e, enr_data e)) ?es @ [((i, p), data)]) z =
          ((map_of (map (\<lambda>e. (enr_key e, enr_data e)) ?es))((i, p) \<mapsto> data)) z"
        by (auto simp: map_add_def split: option.splits)
    qed
    with run k Nil show ?thesis
      by (auto simp: upsert_enrichment_def get_enrichment_def run_simps one_or_none_def insertM_def
          keys_ok_def records_def enr_key_def split: if_splits)
  next
    case (Cons e rest)
    with u have "rest = []" by (cases rest) auto
    with Cons have f: "filter (\<lambda>e. enr_key e = (i, p)) ?es = [e]" by simp
    then have "e \<in> set (filter (\<lambda>e. enr_key e = (i, p)) ?es)" by (simp only: f) simp
    then have e: "e \<in> set ?es" "enr_key e = (i, p)" by simp_all
    let ?es' = "update_where (\<lambda>x. enr_id x = enr_id e) (\<lambda>x. x\<lparr>enr_data := data\<rparr>) ?es"
    have same: "x \<in> set ?es \<Longrightarrow> enr_id x = enr_id e \<longleftrightarrow> enr_key x = (i, p)" for x
      using k e by (simp add: keys_ok_def distinct_map) (metis inj_onD)
    have "map_of (map (\<lambda>e. (enr_key e, enr_data e)) ?es') =
        (map_of (map (\<lambda>e. (enr_key e, enr_data e)) ?es))((i, p) \<mapsto> data)"
    proof -
      have "map (\<lambda>e. (enr_key e, enr_data e)) ?es' =
          map (\<lambda>e. (enr_key e, if enr_key e = (i, p) then data else enr_data e)) ?es"
        by (auto simp: update_where_def enr_key_def [of "_\<lparr>enr_data := data\<rparr>"] same)
          (simp_all add: enr_key_def)
      moreover have "(i, p) \<in> enr_key ` set ?es" using e by (metis image_eqI)
      ultimately show ?thesis by (simp add: map_of_overwrite fun_eq_iff)
    qed
    moreover have "map enr_key ?es' = map enr_key ?es" "map enr_id ?es' = map enr_id ?es"
      by (simp_all add: enr_key_def [abs_def])
    ultimately show ?thesis using run k f
      by (auto simp: upsert_enrichment_def get_enrichment_def run_simps one_or_none_def
          keys_ok_def records_def)
  qed
  then show "keys_ok (tables w')" "iocs (tables w') = iocs (tables w)"
    "records (tables w') = (records (tables w))((i, p) \<mapsto> data)" by auto
qed

text \<open>Storing the row: inserted under a new key, or the one row of its key replaced.\<close>

definition stored :: "env \<Rightarrow> ioc_request \<Rightarrow> parsed_indicator \<Rightarrow> score_result \<Rightarrow> ioc_row option \<Rightarrow>
    ioc_row \<Rightarrow> ioc_row list \<Rightarrow> ioc_row list \<Rightarrow> bool" where
  "stored E q p sc found r rs rs' \<longleftrightarrow>
     (case found of
        None \<Rightarrow> (\<exists>i. r = new_row E q p sc i \<and> i \<notin> ioc_id ` set rs) \<and>
          (ioc_type_value (ptype p), pvalue p) \<notin> ioc_key ` set rs \<and> rs' = rs @ [r]
      | Some old \<Rightarrow> old \<in> set rs \<and> ioc_key old = (ioc_type_value (ptype p), pvalue p) \<and>
          r = seen_again E q sc old \<and> rs' = map (\<lambda>x. if x = old then r else x) rs)"

lemma new_row_key [simp]: "ioc_key (new_row E q p sc i) = (ioc_type_value (ptype p), pvalue p)"
  by (simp add: ioc_key_def new_row_def)

lemma seen_again_key [simp]: "ioc_key (seen_again E q sc r) = ioc_key r" "ioc_id (seen_again E q sc r) = ioc_id r"
  by (simp_all add: ioc_key_def seen_again_def)

lemma lookup_cases:
  assumes d: "distinct (map ioc_key rs)" and f: "one_or_none (filter (\<lambda>r. ioc_key r = k) rs) = Inr found"
  shows "case found of None \<Rightarrow> k \<notin> ioc_key ` set rs | Some old \<Rightarrow> old \<in> set rs \<and> ioc_key old = k"
proof (cases "filter (\<lambda>r. ioc_key r = k) rs")
  case Nil
  with f show ?thesis by (auto simp: one_or_none_def filter_empty_conv)
next
  case (Cons old rest)
  with filter_unique [OF d, of k] have "rest = []" by (cases rest) auto
  with Cons f have "found = Some old" by (simp add: one_or_none_def)
  moreover have "old \<in> set (filter (\<lambda>r. ioc_key r = k) rs)" by (simp only: Cons) simp
  ultimately show ?thesis by simp
qed

lemma store_row_run:
  assumes run: "store_row E q p sc found w = (Inr r, w')"
    and f: "one_or_none (filter (\<lambda>r. ioc_key r = (ioc_type_value (ptype p), pvalue p)) (iocs (tables w))) = Inr found"
    and k: "keys_ok (tables w)"
  shows "stored E q p sc found r (iocs (tables w)) (iocs (tables w'))"
    "records (tables w') = records (tables w)" "keys_ok (tables w')"
proof -
  note c = lookup_cases [OF _ f] k [unfolded keys_ok_def]
  have "stored E q p sc found r (iocs (tables w)) (iocs (tables w')) \<and>
    records (tables w') = records (tables w) \<and> keys_ok (tables w')"
  proof (cases found)
    case None
    with run c k show ?thesis
      by (auto simp: store_row_def run_simps add_ioc_def insertM_def stored_def keys_ok_def split: if_splits)
        (auto simp: new_row_def)
  next
    case (Some old)
    with c have old: "old \<in> set (iocs (tables w))" "ioc_key old = (ioc_type_value (ptype p), pvalue p)" by auto
    have "x \<in> set (iocs (tables w)) \<Longrightarrow> ioc_id x = ioc_id old \<longleftrightarrow> x = old" for x
      using c old by (auto simp: distinct_map dest: inj_onD)
    then have u: "update_where (\<lambda>x. ioc_id x = ioc_id old) f (iocs (tables w)) =
        map (\<lambda>x. if x = old then f x else x) (iocs (tables w))" for f
      by (simp add: update_where_def)
    have "ioc_id \<circ> (\<lambda>x. if x = old then seen_again E q sc old else x) = ioc_id"
      "ioc_key \<circ> (\<lambda>x. if x = old then seen_again E q sc old else x) = ioc_key"
      by auto
    with run Some old k show ?thesis
      by (auto simp: store_row_def run_simps stored_def keys_ok_def u)
  qed
  then show "stored E q p sc found r (iocs (tables w)) (iocs (tables w'))"
    "records (tables w') = records (tables w)" "keys_ok (tables w')" by auto
qed

text \<open>A whole upsert that returns.\<close>

lemma upsert_run:
  assumes run: "upsert D q w = (Inr r, w')" and k: "keys_ok (tables w)"
  obtains p enr found sc where
    "classify_indicator (rq_value q) = Inr p"
    "(if rq_enrich q then enrich_indicator (io_enrich D) (ptype p) (pvalue p) else Inr []) = Inr enr"
    "case found of None \<Rightarrow> (ioc_type_value (ptype p), pvalue p) \<notin> ioc_key ` set (iocs (tables w))
       | Some old \<Rightarrow> old \<in> set (iocs (tables w)) \<and> ioc_key old = (ioc_type_value (ptype p), pvalue p)"
    "sc = score_of (io_env D) q enr found"
    "stored (io_env D) q p sc found r (iocs (tables w)) (iocs (tables w'))"
    "records (tables w') = (records (tables w))((ioc_id r, ''engine'') \<mapsto> engine_payload enr sc)"
    "keys_ok (tables w')"
proof -
  let ?E = "io_env D"
  from run obtain p enr where
    p: "classify_indicator (rq_value q) = Inr p" and
    e: "(if rq_enrich q then enrich_indicator (io_enrich D) (ptype p) (pvalue p) else Inr []) = Inr enr"
    by (auto simp: upsert_def bindM_Inr liftM_def)
  let ?k = "(ioc_type_value (ptype p), pvalue p)"
  from run p e obtain found w1 w2 w3 w4 w5 where
    f: "one_or_none (filter (\<lambda>r. ioc_key r = ?k) (iocs (tables w))) = Inr found" and
    s1: "store_row ?E q p (score_of ?E q enr found) found w = (Inr r, w1)" and
    s2: "upsert_enrichment ?E (ioc_id r) ''engine'' (engine_payload enr (score_of ?E q enr found)) w1 = (Inr (), w2)" and
    s3: "auto_correlate ?E (ptype p) (pvalue p) enr (rq_source q) w2 = (Inr (), w3)" and
    s4: "record_audit ?E (if found = None then ''ioc.create'' else ''ioc.update'') (rq_user q) None
      [(''type'', JStr (ioc_type_value (ptype p))), (''score'', JInt (score (score_of ?E q enr found))),
        (''source'', JStr (rq_source q))] w3 = (Inr (), w4)" and
    s5: "alert_on D r w4 = (Inr (), w')"
    by (auto simp: upsert_def bindM_Inr liftM_def get_by_type_value_def select_one_def Let_def returnM_def)
  have d: "distinct (map ioc_key (iocs (tables w)))" using k by (simp add: keys_ok_def)
  note r1 = store_row_run [OF s1 f k]
  note r2 = upsert_enrichment_run [OF s2 r1(3)]
  let ?P = "\<lambda>d. keys_ok d \<and> iocs d = iocs (tables w2) \<and> records d = records (tables w2)"
  have P2: "?P (tables w2)" using r2 by simp
  have P3: "?P (tables w3)" by (rule preservesD [of ?P, OF preserves_auto_correlate s3 P2]) simp
  have P4: "?P (tables w4)" by (rule preservesD [of ?P, OF preserves_audit_frame s4 P3]) simp
  have P: "?P (tables w')" by (rule preservesD [of ?P, OF preserves_alert_on s5 P4]) simp
  show thesis
    by (rule that [OF p e lookup_cases [OF d f] refl]) (use P r1 r2 in auto)
qed

section \<open>The indicator store\<close>

text \<open>
  A well-formed row: a canonical value with its defanged form, a score between 0 and 100 with the
  level of its band, at least one sighting, sorted distinct tags, and texts that are members of
  their enumerations.
\<close>

definition row_ok :: "ioc_row \<Rightarrow> bool" where
  "row_ok r \<longleftrightarrow>
     (\<exists>t. ioc_kind r = ioc_type_value t \<and> wf_indicator \<lparr>ptype = t, pvalue = ioc_value r\<rparr>) \<and>
     ioc_defanged r = defang (ioc_value r) \<and> 0 \<le> ioc_score r \<and> ioc_score r \<le> 100 \<and>
     ioc_level r = threat_level_value (level_for_score (of_int (ioc_score r))) \<and>
     1 \<le> ioc_sightings r \<and> sorted (ioc_tags r) \<and> distinct (ioc_tags r) \<and>
     confidence_of (ioc_confidence r) \<noteq> None \<and> severity_of (ioc_severity r) \<noteq> None"

text \<open>The engine record of the row holds a breakdown of the very score the row shows.\<close>

definition explained :: "db \<Rightarrow> ioc_row \<Rightarrow> bool" where
  "explained d r \<longleftrightarrow>
     (\<exists>pl sc. records d (ioc_id r, ''engine'') = Some pl \<and> jget ''score'' pl = Some (score_json sc) \<and>
        score sc = ioc_score r \<and> threat_level_value (level sc) = ioc_level r)"

definition iocs_ok :: "db \<Rightarrow> bool" where
  "iocs_ok d \<longleftrightarrow> keys_ok d \<and> (\<forall>r\<in>set (iocs d). row_ok r \<and> explained d r)"

lemma score_of_range:
  "0 \<le> score (score_of E q enr f)" "score (score_of E q enr f) \<le> 100"
  "level (score_of E q enr f) = level_for_score (of_int (score (score_of E q enr f)))"
  using score_range by (simp_all add: score_of_def)

lemma sorted_set_ok [simp]: "sorted (sorted_set xs)" "distinct (sorted_set xs)" "set (sorted_set xs) = set xs"
  by (simp_all add: sorted_set_def)

lemma row_ok_new:
  "wf_indicator p \<Longrightarrow> row_ok (new_row E q p (score_of E' q' enr f) i)"
  by (cases p) (auto simp: row_ok_def new_row_def score_of_range)

lemma row_ok_again: "row_ok r \<Longrightarrow> row_ok (seen_again E q (score_of E' q' enr f) r)"
  by (simp add: row_ok_def seen_again_def score_of_range)

lemma jget_engine_score: "jget ''score'' (engine_payload enr sc) = Some (score_json sc)"
  by (simp add: engine_payload_def)

lemma stored_facts:
  assumes "stored E q p sc found r rs rs'"
  shows "ioc_key r = (ioc_type_value (ptype p), pvalue p)" "r \<in> set rs'"
    "\<And>x. x \<in> set rs' \<Longrightarrow> x = r \<or> x \<in> set rs"
    "\<And>k. k \<noteq> ioc_key r \<Longrightarrow> filter (\<lambda>x. ioc_key x = k) rs' = filter (\<lambda>x. ioc_key x = k) rs"
    "score sc = ioc_score r" "threat_level_value (level sc) = ioc_level r"
proof -
  have "ioc_key r = (ioc_type_value (ptype p), pvalue p) \<and> r \<in> set rs' \<and>
    (\<forall>x. x \<in> set rs' \<longrightarrow> x = r \<or> x \<in> set rs) \<and>
    (\<forall>k. k \<noteq> ioc_key r \<longrightarrow> filter (\<lambda>x. ioc_key x = k) rs' = filter (\<lambda>x. ioc_key x = k) rs) \<and>
    score sc = ioc_score r \<and> threat_level_value (level sc) = ioc_level r"
  proof (cases found)
    case None
    with assms obtain i where "r = new_row E q p sc i" "rs' = rs @ [r]" by (auto simp: stored_def)
    moreover have "ioc_score (new_row E q p sc i) = score sc"
      "ioc_level (new_row E q p sc i) = threat_level_value (level sc)" by (simp_all add: new_row_def)
    ultimately show ?thesis by auto
  next
    case (Some old)
    with assms have o: "old \<in> set rs" "ioc_key old = (ioc_type_value (ptype p), pvalue p)"
      "r = seen_again E q sc old" "rs' = map (\<lambda>x. if x = old then r else x) rs"
      by (simp_all add: stored_def)
    have "ioc_key r = ioc_key old" "ioc_score r = score sc" "ioc_level r = threat_level_value (level sc)"
      by (simp_all add: o(3)) (simp_all add: seen_again_def)
    moreover have "filter (\<lambda>x. ioc_key x = k) (map (\<lambda>x. if x = old then r else x) xs) =
        filter (\<lambda>x. ioc_key x = k) xs" if "k \<noteq> ioc_key r" for k xs
      using that \<open>ioc_key r = ioc_key old\<close> by (induction xs) auto
    ultimately show ?thesis using o(1,2) unfolding o(4) by (auto simp: image_iff)
  qed
  then show "ioc_key r = (ioc_type_value (ptype p), pvalue p)" "r \<in> set rs'"
    "\<And>x. x \<in> set rs' \<Longrightarrow> x = r \<or> x \<in> set rs"
    "\<And>k. k \<noteq> ioc_key r \<Longrightarrow> filter (\<lambda>x. ioc_key x = k) rs' = filter (\<lambda>x. ioc_key x = k) rs"
    "score sc = ioc_score r" "threat_level_value (level sc) = ioc_level r" by blast+
qed

text \<open>An upsert that returns keeps the store well formed and leaves the other rows alone.\<close>

lemma upsert_keeps:
  assumes run: "upsert D q w = (Inr r, w')" and ok: "iocs_ok (tables w)"
  shows "iocs_ok (tables w')" "r \<in> set (iocs (tables w'))"
    "\<And>k. k \<noteq> ioc_key r \<Longrightarrow>
       filter (\<lambda>x. ioc_key x = k) (iocs (tables w')) = filter (\<lambda>x. ioc_key x = k) (iocs (tables w))"
    "\<exists>p. classify_indicator (rq_value q) = Inr p \<and> ioc_key r = (ioc_type_value (ptype p), pvalue p)"
    "\<And>k. fst k \<noteq> ioc_id r \<Longrightarrow> records (tables w') k = records (tables w) k"
proof -
  from ok have k: "keys_ok (tables w)" by (simp add: iocs_ok_def)
  obtain p enr found sc where
    p: "classify_indicator (rq_value q) = Inr p" and
    "(if rq_enrich q then enrich_indicator (io_enrich D) (ptype p) (pvalue p) else Inr []) = Inr enr" and
    "case found of None \<Rightarrow> (ioc_type_value (ptype p), pvalue p) \<notin> ioc_key ` set (iocs (tables w))
       | Some old \<Rightarrow> old \<in> set (iocs (tables w)) \<and> ioc_key old = (ioc_type_value (ptype p), pvalue p)" and
    sc: "sc = score_of (io_env D) q enr found" and
    st: "stored (io_env D) q p sc found r (iocs (tables w)) (iocs (tables w'))" and
    rec: "records (tables w') = (records (tables w))((ioc_id r, ''engine'') \<mapsto> engine_payload enr sc)" and
    k': "keys_ok (tables w')" by (rule upsert_run [OF run k])
  note f = stored_facts [OF st]
  have "row_ok r"
  proof (cases found)
    case None
    with st obtain i where "r = new_row (io_env D) q p sc i" by (auto simp: stored_def)
    then show ?thesis unfolding sc by (simp only: row_ok_new [OF classify_wf [OF p]])
  next
    case (Some old)
    with st have "old \<in> set (iocs (tables w))" "r = seen_again (io_env D) q sc old"
      by (simp_all add: stored_def)
    with ok show ?thesis unfolding sc by (simp add: iocs_ok_def row_ok_again)
  qed
  have ids: "x \<in> set (iocs (tables w')) \<Longrightarrow> x = r \<or> ioc_id x \<noteq> ioc_id r" for x
    using k' f(2) by (auto simp: keys_ok_def distinct_map dest: inj_onD)
  have "row_ok x \<and> explained (tables w') x" if x: "x \<in> set (iocs (tables w'))" for x
  proof (cases "x = r")
    case True
    then show ?thesis
      using f(5,6) \<open>row_ok r\<close> by (auto simp: explained_def rec jget_engine_score)
  next
    case False
    with f(3) [OF x] ids [OF x] ok show ?thesis by (auto simp: explained_def rec iocs_ok_def)
  qed
  with k' show "iocs_ok (tables w')" by (simp add: iocs_ok_def)
  show "r \<in> set (iocs (tables w'))" by (rule f(2))
  show "filter (\<lambda>x. ioc_key x = k) (iocs (tables w')) = filter (\<lambda>x. ioc_key x = k) (iocs (tables w))"
    if "k \<noteq> ioc_key r" for k using that by (rule f(4))
  show "\<exists>p. classify_indicator (rq_value q) = Inr p \<and> ioc_key r = (ioc_type_value (ptype p), pvalue p)"
    using p f(1) by blast
  show "records (tables w') k = records (tables w) k" if "fst k \<noteq> ioc_id r" for k
    using that by (auto simp: rec)
qed

section \<open>Batches\<close>

text \<open>
  What a batch promises: items in order, each either a whole upsert or, when it raises, no trace
  in the tables (ids drawn and alerts published by the failed attempt are not taken back).
\<close>

inductive batch ::
  "ioc_deps \<Rightarrow> 'x world_scheme \<Rightarrow> (exn + ioc_request) list \<Rightarrow> (exn + ioc_row) list \<Rightarrow> 'x world_scheme \<Rightarrow> bool"
  for D where
  batch_done: "batch D w [] [] w"
| batch_stored: "upsert D q w = (Inr r, w1) \<Longrightarrow> batch D w1 qs rs w' \<Longrightarrow>
    batch D w (Inr q # qs) (Inr r # rs) w'"
| batch_failed: "bindM (liftM q) (upsert D) w = (Inl e, w1) \<Longrightarrow>
    batch D (w1\<lparr>tables := tables w\<rparr>) qs rs w' \<Longrightarrow> batch D w (q # qs) (Inl e # rs) w'"

inductive_cases batch_NilE: "batch D w [] rs w'"
inductive_cases batch_ConsE: "batch D w (q # qs) rs w'"

lemma try_upsert_run:
  "try_upsert D q w =
     (case bindM (liftM q) (upsert D) w of
        (Inr r, w1) \<Rightarrow> (Inr (Inr r), w1)
      | (Inl e, w1) \<Rightarrow> (Inr (Inl e), w1\<lparr>tables := tables w\<rparr>))"
  by (simp add: try_upsert_def catchM_def savepoint_def unit_of_work_def bindM_def returnM_def
      split: prod.splits sum.splits)

lemma try_all_batch: "\<exists>rs w'. try_all D qs w = (Inr rs, w') \<and> batch D w qs rs w'"
proof (induction qs arbitrary: w)
  case Nil
  then show ?case by (simp add: returnM_def batch_done)
next
  case (Cons q qs)
  obtain x w1 where x: "bindM (liftM q) (upsert D) w = (x, w1)" by force
  show ?case
  proof (cases x)
    case (Inl e)
    obtain rs w' where "try_all D qs (w1\<lparr>tables := tables w\<rparr>) = (Inr rs, w')"
      "batch D (w1\<lparr>tables := tables w\<rparr>) qs rs w'" using Cons.IH by blast
    with x Inl show ?thesis
      by (auto simp: bindM_def [of "try_upsert D q"] try_upsert_run bindM_def [of "try_all D qs"]
          returnM_def intro: batch_failed)
  next
    case (Inr r)
    with x obtain q' where q: "q = Inr q'" "upsert D q' w = (Inr r, w1)"
      by (cases q) (auto simp: bindM_def liftM_def)
    obtain rs w' where "try_all D qs w1 = (Inr rs, w')" "batch D w1 qs rs w'" using Cons.IH by blast
    with x Inr q show ?thesis
      by (auto simp: bindM_def [of "try_upsert D (Inr q')"] try_upsert_run bindM_def [of "try_all D qs"]
          returnM_def intro: batch_stored)
  qed
qed

lemma batch_keeps: "batch D w qs rs w' \<Longrightarrow> iocs_ok (tables w) \<Longrightarrow> iocs_ok (tables w')"
  by (induction rule: batch.induct) (auto dest: upsert_keeps(1))

lemma batch_length: "batch D w qs rs w' \<Longrightarrow> length rs = length qs"
  by (induction rule: batch.induct) auto

section \<open>Requests on the store\<close>

text \<open>The operations the API and the worker run, each as a unit of work of its own.\<close>

datatype ioc_op =
    Submit ioc_request
  | Collect bool "collected_indicator list"
  | ImportDoc doc_parsers import_request
  | Reenrich string "string option"

definition enrich_ioc :: "ioc_deps \<Rightarrow> string \<Rightarrow> string option \<Rightarrow> (ioc_row, 'x) eff" where
  "enrich_ioc D i user =
     bindM (find_ioc i) (\<lambda>found.
     case found of
       None \<Rightarrow> raiseM (raise_app NotFoundError (Some ''IOC not found.'') [])
     | Some r \<Rightarrow> rerun_enrichment D user r)"

fun serve_ioc :: "ioc_deps \<Rightarrow> ioc_op \<Rightarrow> 'x world_scheme \<Rightarrow> 'x world_scheme" where
  "serve_ioc D (Submit q) w = snd (unit_of_work (upsert D q) w)"
| "serve_ioc D (Collect do_enrich inds) w = snd (unit_of_work (ingest_from_collector D do_enrich inds) w)"
| "serve_ioc D (ImportDoc P q) w = snd (unit_of_work (bulk_import D P q) w)"
| "serve_ioc D (Reenrich i user) w = snd (unit_of_work (enrich_ioc D i user) w)"

definition serve_iocs :: "(ioc_deps \<times> ioc_op) list \<Rightarrow> 'x world_scheme \<Rightarrow> 'x world_scheme" where
  "serve_iocs ops w = fold (\<lambda>(D, op). serve_ioc D op) ops w"

lemma unit_of_work_keeps:
  assumes "\<And>a w'. m w = (Inr a, w') \<Longrightarrow> P (tables w')" "P (tables w)"
  shows "P (tables (snd (unit_of_work m w)))"
  using assms by (auto simp: unit_of_work_def split: prod.splits sum.splits)

lemma ingest_run:
  "\<exists>rs w'. ingest_from_collector D b inds w =
     (Inr \<lparr>ing_ingested = int (length (filter succeeded rs)),
           ing_skipped = int (length (filter (\<lambda>r. \<not> succeeded r) rs))\<rparr>, w') \<and>
     batch D w (map (request_of b) inds) rs w'"
proof -
  obtain rs w' where "try_all D (map (request_of b) inds) w = (Inr rs, w')"
    "batch D w (map (request_of b) inds) rs w'" using try_all_batch by blast
  then show ?thesis by (auto simp: ingest_from_collector_def bindM_def returnM_def)
qed

lemma bulk_run:
  assumes "extract_indicators (dp_csv P) (dp_json P) (dp_str P) (im_format q) (im_limit q) (im_content q) = Inr vs"
  shows "\<exists>rs w'. bulk_import D P q w =
     (Inr \<lparr>ir_extracted = int (length vs), ir_imported = int (length (filter succeeded rs)),
           ir_failed = int (length vs) - int (length (filter succeeded rs)),
           ir_items = map2 item_report vs rs\<rparr>, w') \<and>
     batch D w (map (\<lambda>v. Inr (import_item q v)) vs) rs w'"
proof -
  obtain rs w' where "try_all D (map (\<lambda>v. Inr (import_item q v)) vs) w = (Inr rs, w')"
    "batch D w (map (\<lambda>v. Inr (import_item q v)) vs) rs w'" using try_all_batch by blast
  with assms show ?thesis by (auto simp: bulk_import_def bindM_def returnM_def liftM_def Let_def)
qed

lemma serve_ioc_keeps: "iocs_ok (tables w) \<Longrightarrow> iocs_ok (tables (serve_ioc D op w))"
proof (cases op)
  case (Submit q)
  assume "iocs_ok (tables w)"
  then show ?thesis
    unfolding Submit serve_ioc.simps by (intro unit_of_work_keeps [where P = iocs_ok]) (auto dest: upsert_keeps(1))
next
  case (Collect b inds)
  assume "iocs_ok (tables w)"
  moreover obtain a rs w' where "ingest_from_collector D b inds w = (Inr a, w')"
    "batch D w (map (request_of b) inds) rs w'" using ingest_run by blast
  ultimately show ?thesis
    unfolding Collect serve_ioc.simps by (intro unit_of_work_keeps [where P = iocs_ok]) (auto dest: batch_keeps)
next
  case (ImportDoc P q)
  assume ok: "iocs_ok (tables w)"
  have "iocs_ok (tables w')" if "bulk_import D P q w = (Inr a, w')" for a w'
  proof -
    from that obtain vs where vs: "extract_indicators (dp_csv P) (dp_json P) (dp_str P) (im_format q)
        (im_limit q) (im_content q) = Inr vs"
      by (auto simp: bulk_import_def bindM_Inr liftM_def)
    from bulk_run [OF vs, of D w] that ok show ?thesis by (auto dest: batch_keeps)
  qed
  with ok show ?thesis
    unfolding ImportDoc serve_ioc.simps by (intro unit_of_work_keeps [where P = iocs_ok])
next
  case (Reenrich i user)
  assume ok: "iocs_ok (tables w)"
  have "iocs_ok (tables w')" if "enrich_ioc D i user w = (Inr a, w')" for a w'
    using that ok
    by (auto simp: enrich_ioc_def rerun_enrichment_def find_ioc_def bindM_Inr queryM_def liftM_def raiseM_def
        split: option.splits dest: upsert_keeps(1))
  with ok show ?thesis
    unfolding Reenrich serve_ioc.simps by (intro unit_of_work_keeps [where P = iocs_ok])
qed

lemma iocs_ok_empty [simp]: "iocs_ok empty_db"
  by (simp add: iocs_ok_def keys_ok_def empty_db_def)

section \<open>Lookups and repeated sightings\<close>

lemma one_or_none_key:
  assumes "distinct (map k rs)" "r \<in> set rs" "k r = z"
  shows "one_or_none (filter (\<lambda>x. k x = z) rs) = Inr (Some r)"
  using filter_unique_mem [OF assms(1,2)] assms(3) by (simp add: one_or_none_def)

lemma lookup_run:
  "classify_indicator raw = Inr p \<Longrightarrow> lookup_ioc raw w =
     (one_or_none (filter (\<lambda>x. ioc_key x = (ioc_type_value (ptype p), pvalue p)) (iocs (tables w))), w)"
  by (simp add: lookup_ioc_def bindM_def liftM_def get_by_type_value_def select_one_def)

lemma explain_run:
  assumes "iocs_ok (tables w)" "r \<in> set (iocs (tables w))"
  shows "\<exists>c. explain (ioc_id r) w = (Inr (Some (JObj [(''score'', JInt (ioc_score r)),
    (''level'', JStr (ioc_level r)), (''contributions'', c)])), w)"
proof -
  from assms obtain pl sc where pl: "records (tables w) (ioc_id r, ''engine'') = Some pl"
    and s: "jget ''score'' pl = Some (score_json sc)" "score sc = ioc_score r"
      "threat_level_value (level sc) = ioc_level r"
    by (auto simp: iocs_ok_def explained_def)
  from pl obtain e where e: "e \<in> set (enrichments (tables w))" "enr_key e = (ioc_id r, ''engine'')" "enr_data e = pl"
    by (auto simp: records_def dest!: map_of_SomeD)
  from assms(1) have "distinct (map enr_key (enrichments (tables w)))" by (simp add: iocs_ok_def keys_ok_def)
  from one_or_none_key [OF this e(1,2)] e(3) s show ?thesis
    by (simp add: explain_def get_enrichment_def bindM_def select_one_def returnM_def score_json_def)
qed

text \<open>An upsert of an indicator that is stored.\<close>

lemma upsert_again:
  assumes ok: "iocs_ok (tables w)" and r: "r \<in> set (iocs (tables w))"
    and p: "classify_indicator (rq_value q) = Inr p" "ioc_key r = (ioc_type_value (ptype p), pvalue p)"
    and run: "upsert D q w = (Inr r', w')"
  shows "\<exists>sc. r' = seen_again (io_env D) q sc r \<and> length (iocs (tables w')) = length (iocs (tables w))"
proof -
  from ok have ko: "keys_ok (tables w)" by (simp add: iocs_ok_def)
  obtain p' enr found sc where
    p': "classify_indicator (rq_value q) = Inr p'" and
    "(if rq_enrich q then enrich_indicator (io_enrich D) (ptype p') (pvalue p') else Inr []) = Inr enr" and
    f: "case found of None \<Rightarrow> (ioc_type_value (ptype p'), pvalue p') \<notin> ioc_key ` set (iocs (tables w))
       | Some old \<Rightarrow> old \<in> set (iocs (tables w)) \<and> ioc_key old = (ioc_type_value (ptype p'), pvalue p')" and
    "sc = score_of (io_env D) q enr found" and
    st: "stored (io_env D) q p' sc found r' (iocs (tables w)) (iocs (tables w'))" and
    "records (tables w') = (records (tables w))((ioc_id r', ''engine'') \<mapsto> engine_payload enr sc)" and
    "keys_ok (tables w')" by (rule upsert_run [OF run ko])
  from p p' have pp: "ioc_key r = (ioc_type_value (ptype p'), pvalue p')" by simp
  have "found = Some r"
  proof (cases found)
    case None
    with f have "ioc_key r \<notin> ioc_key ` set (iocs (tables w))" unfolding pp by simp
    with r show ?thesis by blast
  next
    case (Some old)
    with f pp have "old \<in> set (iocs (tables w))" "ioc_key old = ioc_key r" by simp_all
    moreover have "inj_on ioc_key (set (iocs (tables w)))" using ko by (simp add: keys_ok_def distinct_map)
    ultimately show ?thesis using Some r by (metis inj_onD)
  qed
  with st show ?thesis by (auto simp: stored_def)
qed

text \<open>
  Re-running the enrichment of a stored indicator goes through the same path, so an analyst who
  refreshes a row counts as one more sighting of it.
\<close>

lemma rerun_counts_sighting:
  assumes "iocs_ok (tables w)" "r \<in> set (iocs (tables w))"
    and "classify_indicator (ioc_value r) = Inr p" "ioc_key r = (ioc_type_value (ptype p), pvalue p)"
    and "rerun_enrichment D user r w = (Inr r', w')"
  shows "ioc_sightings r' = ioc_sightings r + 1" "ioc_last_seen r' = Some (now_at (io_env D))"
proof -
  from assms(5) obtain c s where u: "upsert D \<lparr>rq_value = ioc_value r, rq_source = ioc_source r,
      rq_confidence = c, rq_severity = s, rq_tags = [], rq_references = [], rq_description = None,
      rq_enrich = True, rq_user = user\<rparr> w = (Inr r', w')"
    by (auto simp: rerun_enrichment_def bindM_Inr liftM_def)
  show "ioc_sightings r' = ioc_sightings r + 1" "ioc_last_seen r' = Some (now_at (io_env D))"
    using upsert_again [OF assms(1,2) _ assms(4) u] assms(3) by (auto simp: seen_again_def)
qed

text \<open>C4: Submitting an indicator makes it retrievable, and only it: afterwards a lookup under any
  spelling that classifies to the same indicator finds exactly the returned row, its explanation
  is the score and level that row shows, and lookups of other indicators answer as before.\<close>

theorem upsert_lookup:
  "iocs_ok (tables w) \<Longrightarrow> upsert D q w = (Inr r, w') \<Longrightarrow>
   classify_indicator raw = classify_indicator (rq_value q) \<Longrightarrow>
   lookup_ioc raw w' = (Inr (Some r), w') \<and>
   (\<exists>c. explain (ioc_id r) w' = (Inr (Some (JObj [(''score'', JInt (ioc_score r)),
      (''level'', JStr (ioc_level r)), (''contributions'', c)])), w')) \<and>
   (\<forall>other. classify_indicator other \<noteq> classify_indicator raw \<longrightarrow>
      fst (lookup_ioc other w') = fst (lookup_ioc other w))"
proof (intro conjI allI impI)
  assume ok: "iocs_ok (tables w)" and run: "upsert D q w = (Inr r, w')"
    and same: "classify_indicator raw = classify_indicator (rq_value q)"
  note k = upsert_keeps [OF run ok]
  from k(4) obtain p where p: "classify_indicator (rq_value q) = Inr p"
    "ioc_key r = (ioc_type_value (ptype p), pvalue p)" by blast
  from k(1) have d: "distinct (map ioc_key (iocs (tables w')))" by (simp add: iocs_ok_def keys_ok_def)
  show "lookup_ioc raw w' = (Inr (Some r), w')"
    using lookup_run [of raw p w'] same p one_or_none_key [OF d k(2) p(2)] by simp
  show "\<exists>c. explain (ioc_id r) w' = (Inr (Some (JObj [(''score'', JInt (ioc_score r)),
      (''level'', JStr (ioc_level r)), (''contributions'', c)])), w')"
    by (rule explain_run [OF k(1,2)])
  show "fst (lookup_ioc other w') = fst (lookup_ioc other w)"
    if "classify_indicator other \<noteq> classify_indicator raw" for other
  proof (cases "classify_indicator other")
    case (Inl e)
    then show ?thesis by (simp add: lookup_ioc_def bindM_def liftM_def)
  next
    case (Inr p')
    with that same p have "(ioc_type_value (ptype p'), pvalue p') \<noteq> ioc_key r" by auto
    with k(3) Inr show ?thesis by (simp add: lookup_run)
  qed
qed

text \<open>A second sighting is an update of the same row: the second submission of an indicator keeps
  the row's id, source, confidence, severity, first sighting and status, counts one more
  sighting, joins the tags, and adds no row.\<close>

theorem repeat_sighting:
  "iocs_ok (tables w) \<Longrightarrow> upsert D q w = (Inr r, w1) \<Longrightarrow> upsert D' q' w1 = (Inr r', w2) \<Longrightarrow>
   classify_indicator (rq_value q') = classify_indicator (rq_value q) \<Longrightarrow>
   ioc_id r' = ioc_id r \<and> ioc_source r' = ioc_source r \<and> ioc_confidence r' = ioc_confidence r \<and>
   ioc_severity r' = ioc_severity r \<and> ioc_first_seen r' = ioc_first_seen r \<and> ioc_state r' = ioc_state r \<and>
   ioc_sightings r' = ioc_sightings r + 1 \<and> ioc_last_seen r' = Some (now_at (io_env D')) \<and>
   set (ioc_tags r') = set (ioc_tags r) \<union> set (rq_tags q') \<and>
   length (iocs (tables w2)) = length (iocs (tables w1))"
proof -
  assume ok: "iocs_ok (tables w)" and r1: "upsert D q w = (Inr r, w1)" and r2: "upsert D' q' w1 = (Inr r', w2)"
    and same: "classify_indicator (rq_value q') = classify_indicator (rq_value q)"
  note k = upsert_keeps [OF r1 ok]
  from k(4) same obtain p where "classify_indicator (rq_value q') = Inr p"
    "ioc_key r = (ioc_type_value (ptype p), pvalue p)" by auto
  from upsert_again [OF k(1,2) this r2] obtain sc where "r' = seen_again (io_env D') q' sc r"
    "length (iocs (tables w2)) = length (iocs (tables w1))" by blast
  then show ?thesis by (simp add: seen_again_def)
qed


text \<open>The indicator store is sound after any sequence of requests, whatever they contain and
  wherever they fail: indicators, their keys and their records are unique, every row is in
  canonical form, defanged, scored between 0 and 100 with the level of its band, and every
  row's stored explanation is of the score it shows.\<close>

theorem store_sound:
  "iocs_ok (tables w) \<Longrightarrow> iocs_ok (tables (serve_iocs ops w))"
  unfolding serve_iocs_def
  by (induction ops arbitrary: w) (auto simp: serve_ioc_keeps)

section \<open>An indicator stored twice\<close>

definition demo_ioc_deps :: ioc_deps where
  "demo_ioc_deps = \<lparr>io_env = ale_env demo_alert_env,
     io_enrich = \<lparr>ee_live = False, ee_allowed = [], ee_resolver = (\<lambda>h p. GaiError), ee_digest = (\<lambda>b i. 0)\<rparr>,
     io_alerts = None\<rparr>"

definition demo_request :: ioc_request where
  "demo_request = \<lparr>rq_value = ''Evil[.]example'', rq_source = ''manual'', rq_confidence = CHigh,
     rq_severity = SevHigh, rq_tags = [''b'', ''a''], rq_references = [], rq_description = None,
     rq_enrich = False, rq_user = None\<rparr>"

definition demo_start :: world where
  "demo_start = \<lparr>tables = empty_db, drawn = 0, bus = new_bus 1\<rparr>"

lemma demo_classify: "classify_indicator ''Evil[.]example'' = Inr \<lparr>ptype = Domain, pvalue = ''evil.example''\<rparr>"
  by code_simp

lemma demo_runs:
  "\<exists>r w1 r' w2. upsert demo_ioc_deps demo_request demo_start = (Inr r, w1) \<and>
     upsert demo_ioc_deps demo_request w1 = (Inr r', w2)"
proof -
  have d: "defang ''evil.example'' = ''evil[.]example''" by code_simp
  have s: "sorted_set [''b'', ''a''] = [''a'', ''b'']" by code_simp
  have l: "length (threat_level_value (level x)) \<le> 16" for x
    by (cases "level x") simp_all
  have r: "reported_addresses [] = []" by (simp add: reported_addresses_def sub_dict_def jget_def)
  show ?thesis
    by (simp add: upsert_def demo_request_def demo_classify run_simps get_by_type_value_def one_or_none_def
        demo_start_def empty_db_def Let_def store_row_def add_ioc_def insertM_def fits_def new_row_def d s l r
        demo_ioc_deps_def demo_alert_env_def upsert_enrichment_def get_enrichment_def auto_correlate_def
        record_audit_def alert_on_def ioc_key_def enr_key_def seen_again_def)
qed

theorem upsert_lookup_witness:
  "\<exists>r w'. upsert demo_ioc_deps demo_request demo_start = (Inr r, w') \<and>
     lookup_ioc ''other.example'' w' = (Inr None, w') \<and> lookup_ioc ''EVIL.example'' w' = (Inr (Some r), w')"
proof -
  obtain r w' where u: "upsert demo_ioc_deps demo_request demo_start = (Inr r, w')" using demo_runs by blast
  have ok: "iocs_ok (tables demo_start)" by (simp add: demo_start_def)
  have c: "classify_indicator ''EVIL.example'' = classify_indicator (rq_value demo_request)"
    "classify_indicator ''other.example'' = Inr \<lparr>ptype = Domain, pvalue = ''other.example''\<rparr>"
    by (simp add: demo_request_def demo_classify) code_simp+
  have "fst (lookup_ioc ''other.example'' demo_start) = Inr None"
    by (simp add: lookup_run [OF c(2)] demo_start_def empty_db_def one_or_none_def)
  moreover have "snd (lookup_ioc ''other.example'' w') = w'" by (simp add: lookup_run [OF c(2)])
  moreover have "classify_indicator ''other.example'' \<noteq> classify_indicator ''EVIL.example''"
    by (simp add: c(1) c(2) demo_request_def demo_classify)
  ultimately show ?thesis using upsert_lookup [OF ok u c(1)] u by (metis prod.collapse)
qed

theorem repeat_sighting_witness:
  "\<exists>r w1 r' w2. upsert demo_ioc_deps demo_request demo_start = (Inr r, w1) \<and>
     upsert demo_ioc_deps demo_request w1 = (Inr r', w2) \<and> ioc_sightings r' = ioc_sightings r + 1"
proof -
  obtain r w1 r' w2 where u: "upsert demo_ioc_deps demo_request demo_start = (Inr r, w1)"
    "upsert demo_ioc_deps demo_request w1 = (Inr r', w2)" using demo_runs by blast
  have "iocs_ok (tables demo_start)" by (simp add: demo_start_def)
  from repeat_sighting [OF this u refl] u show ?thesis by blast
qed

theorem store_sound_witness:
  "iocs_ok (tables (serve_iocs [(demo_ioc_deps, Submit demo_request),
     (demo_ioc_deps, Collect False [collected (JStr ''8.8.8.8'') ''otx'' CHigh SevLow [] [] JNull JNull]),
     (demo_ioc_deps, Reenrich ''x'' None)] demo_start))"
  by (rule store_sound) (simp add: demo_start_def)

end
