(* ===== verification/Api.thy ===== *)
theory Api
  imports Schemas Settings Gateway IocProps
begin

text \<open>
  The HTTP interface: \<open>app/api/v1\<close> and the service factories of \<open>app/api/deps.py\<close>.  An endpoint
  runs after its guard, with its request already parsed and found valid, inside the session of
  the request.  Routing and (de)serialisation are FastAPI's.
\<close>

section \<open>What an endpoint has at hand\<close>

text \<open>
  \<open>ap_token\<close> reads a token from its text, \<open>ap_email\<close> is the rule of \<open>EmailStr\<close>, \<open>ap_dumps\<close> is
  \<open>json.dumps\<close>.
\<close>

record ('t, 's, 'tok, 'g) api_deps =
  ap_auth :: "('t, 's, 'tok) auth_deps"
  ap_enrich :: enrich_env
  ap_alerts :: alert_env
  ap_parsers :: doc_parsers
  ap_graph :: "'g nx"
  ap_settings :: settings
  ap_outside :: outside
  ap_share :: share_env
  ap_dumps :: "json \<Rightarrow> string"
  ap_email :: email_rule
  ap_token :: "string \<Rightarrow> 'tok"

definition ap_env :: "('t, 's, 'tok, 'g) api_deps \<Rightarrow> env" where
  "ap_env D = ad_env (ap_auth D)"

text \<open>\<open>get_ioc_service\<close>: with alerts.\<close>

definition get_ioc_service :: "('t, 's, 'tok, 'g) api_deps \<Rightarrow> ioc_deps" where
  "get_ioc_service D =
     \<lparr>io_env = ap_env D, io_enrich = ap_enrich D, io_alerts = Some ((ap_alerts D)\<lparr>ale_env := ap_env D\<rparr>)\<rparr>"

text \<open>A response: a JSON body, a text with its media type and file name, tokens, the event stream or nothing.\<close>

datatype 'tok body =
    Json json
  | Text string string "string option"
  | Tokens "'tok token_pair"
  | EventStream
  | NoContent

definition jsonM :: "exn + json \<Rightarrow> ('tok body, 'x) eff" where
  "jsonM r = bindM (liftM r) (\<lambda>j. returnM (Json j))"

section \<open>Indicators\<close>

definition to_detail :: "share_env \<Rightarrow> ioc_row \<Rightarrow> ('tok body, 'x) eff" where
  "to_detail S r =
     bindM (list_enrichments (ioc_id r)) (\<lambda>es.
     bindM (liftM (ioc_out S r)) (\<lambda>b.
     returnM (Json (JObj (b @ [(''enrichments'', JArr (map enrichment_out es))])))))"

definition create_request :: "string \<Rightarrow> ioc_create \<Rightarrow> ioc_request" where
  "create_request user p =
     \<lparr>rq_value = ic_value p, rq_source = ic_source p, rq_confidence = ic_confidence p,
      rq_severity = ic_severity p, rq_tags = ic_tags p, rq_references = ic_references p,
      rq_description = ic_description p, rq_enrich = ic_enrich p, rq_user = Some user\<rparr>"

definition api_create_ioc :: "('t, 's, 'tok, 'g) api_deps \<Rightarrow> string \<Rightarrow> ioc_create \<Rightarrow> ('tok body, 'x) eff" where
  "api_create_ioc D user p =
     bindM (upsert (get_ioc_service D) (create_request user p)) (to_detail (ap_share D))"

definition api_extract :: "('t, 's, 'tok, 'g) api_deps \<Rightarrow> string \<Rightarrow> string \<Rightarrow> ('tok body, 'x) eff" where
  "api_extract D content fmt =
     bindM (liftM (preview_extraction (ap_parsers D) fmt content)) (\<lambda>found.
     returnM (Json (JObj [(''count'', JInt (int (length found))), (''indicators'', JArr (map JObj found))])))"

definition bulk_import_request :: "string \<Rightarrow> bulk_request \<Rightarrow> import_request" where
  "bulk_import_request user p =
     \<lparr>im_content = bk_content p, im_format = bk_format p, im_source = bk_source p,
      im_confidence = bk_confidence p, im_severity = bk_severity p, im_tags = bk_tags p,
      im_enrich = bk_enrich p, im_limit = bk_limit p, im_user = Some user\<rparr>"

definition api_bulk_import :: "('t, 's, 'tok, 'g) api_deps \<Rightarrow> string \<Rightarrow> bulk_request \<Rightarrow> ('tok body, 'x) eff" where
  "api_bulk_import D user p =
     bindM (bulk_import (get_ioc_service D) (ap_parsers D) (bulk_import_request user p)) (\<lambda>r.
     returnM (Json (JObj [(''extracted'', JInt (ir_extracted r)), (''imported'', JInt (ir_imported r)),
       (''failed'', JInt (ir_failed r)), (''items'', JArr (map bulk_item_out (ir_items r)))])))"

definition api_lookup :: "('t, 's, 'tok, 'g) api_deps \<Rightarrow> string \<Rightarrow> ('tok body, 'x) eff" where
  "api_lookup D value =
     bindM (lookup_ioc value) (\<lambda>found.
     case found of None \<Rightarrow> returnM (Json JNull) | Some r \<Rightarrow> to_detail (ap_share D) r)"

text \<open>\<open>[model_validate(i) for i in items]\<close>.\<close>

fun all_out :: "('r \<Rightarrow> exn + json) \<Rightarrow> 'r list \<Rightarrow> exn + json list" where
  "all_out f [] = Inr []"
| "all_out f (r # rs) = bindE (f r) (\<lambda>j. bindE (all_out f rs) (\<lambda>js. Inr (j # js)))"

definition ioc_json :: "share_env \<Rightarrow> ioc_row \<Rightarrow> exn + json" where
  "ioc_json S r = bindE (ioc_out S r) (\<lambda>d. Inr (JObj d))"

record search_query =
  sq_type :: "ioc_type option"
  sq_level :: "threat_level option"
  sq_source :: "string option"
  sq_min_score :: "int option"
  sq_q :: "string option"

definition filter_of :: "search_query \<Rightarrow> ioc_filter" where
  "filter_of q =
     \<lparr>fl_type = map_option ioc_type_value (sq_type q), fl_min_score = sq_min_score q,
      fl_level = map_option threat_level_value (sq_level q), fl_source = sq_source q,
      fl_status = None, fl_query = sq_q q\<rparr>"

definition valid_search :: "search_query \<Rightarrow> bool" where
  "valid_search q \<longleftrightarrow>
     (case sq_min_score q of None \<Rightarrow> True | Some n \<Rightarrow> 0 \<le> n \<and> n \<le> 100) \<and> optional (sized 0 256) (sq_q q)"

definition api_search :: "('t, 's, 'tok, 'g) api_deps \<Rightarrow> search_query \<Rightarrow> int \<Rightarrow> int \<Rightarrow> ('tok body, 'x) eff" where
  "api_search D q page page_size =
     bindM (queryM (service_search (filter_of q) page page_size)) (\<lambda>(items, total).
     bindM (liftM (all_out (ioc_json (ap_share D)) items)) (\<lambda>js.
     returnM (Json (JObj [(''items'', JArr js),
       (''meta'', JObj [(''page'', JInt page), (''page_size'', JInt page_size), (''total'', JInt total)])]))))"

definition ioc_missing :: exn where
  "ioc_missing = raise_app NotFoundError (Some ''IOC not found.'') []"

definition api_get_ioc :: "('t, 's, 'tok, 'g) api_deps \<Rightarrow> string \<Rightarrow> ('tok body, 'x) eff" where
  "api_get_ioc D i =
     bindM (find_ioc i) (\<lambda>found.
     case found of None \<Rightarrow> raiseM ioc_missing | Some r \<Rightarrow> to_detail (ap_share D) r)"

definition api_explain :: "string \<Rightarrow> ('tok body, 'x) eff" where
  "api_explain i =
     bindM (find_ioc i) (\<lambda>found.
     case found of
       None \<Rightarrow> raiseM ioc_missing
     | Some _ \<Rightarrow>
         bindM (explain i) (\<lambda>breakdown.
         case breakdown of
           None \<Rightarrow> raiseM (raise_app NotFoundError (Some ''No score breakdown available for this IOC.'') [])
         | Some b \<Rightarrow> jsonM (explain_out b)))"

definition api_enrich :: "('t, 's, 'tok, 'g) api_deps \<Rightarrow> string \<Rightarrow> string \<Rightarrow> ('tok body, 'x) eff" where
  "api_enrich D user i =
     bindM (find_ioc i) (\<lambda>found.
     case found of
       None \<Rightarrow> raiseM ioc_missing
     | Some r \<Rightarrow> bindM (rerun_enrichment (get_ioc_service D) (Some user) r) (to_detail (ap_share D)))"

section \<open>Collectors\<close>

definition api_run_collector ::
  "('t, 's, 'tok, 'g) api_deps \<Rightarrow> string \<Rightarrow> int \<Rightarrow> bool \<Rightarrow> ('tok body, 'x) eff" where
  "api_run_collector D name limit do_enrich =
     bindM (liftM (build_collector (provider_key (ap_settings D)) name)) (\<lambda>c.
     let live = st_live_collectors (ap_settings D); inds = collect live (ap_outside D) c limit in
     bindM (ingest_from_collector (get_ioc_service D) do_enrich inds) (\<lambda>s.
     returnM (Json (JObj [(''collector'', JStr name), (''live'', JBool (collector_is_live live c)),
       (''collected'', JInt (int (length inds))), (''ingested'', JInt (ing_ingested s)),
       (''skipped'', JInt (ing_skipped s))]))))"

definition api_list_collectors :: "('tok body, 'x) eff" where
  "api_list_collectors =
     returnM (Json (JObj [(''collectors'', JArr (map (\<lambda>i. JObj [(''name'', JStr (inf_name i)),
       (''label'', JStr (inf_label i)), (''category'', JStr (inf_category i)),
       (''requires_key'', JBool (inf_requires_key i)), (''format'', JStr (inf_fmt i))]) supported_collectors))]))"

definition env_text :: "app_env \<Rightarrow> string" where
  "env_text e = (case e of Development \<Rightarrow> ''development'' | Staging \<Rightarrow> ''staging'' | Production \<Rightarrow> ''production'')"

definition api_health :: "('tok body, 'x) eff" where
  "api_health = returnM (Json (JObj [(''status'', JStr ''ok'')]))"

definition api_ready :: "('t, 's, 'tok, 'g) api_deps \<Rightarrow> ('tok body, 'x) eff" where
  "api_ready D =
     returnM (Json (JObj [(''status'', JStr ''ok''), (''environment'', JStr (env_text (st_env (ap_settings D)))),
       (''live_collectors_enabled'', JBool (st_live_collectors (ap_settings D)))]))"

section \<open>Correlation\<close>

definition api_add_relationship :: "('t, 's, 'tok, 'g) api_deps \<Rightarrow> string \<Rightarrow> relation_create \<Rightarrow> ('tok body, 'x) eff" where
  "api_add_relationship D user p =
     bindM (add_relationship (ap_env D) (re_source_ref p) (re_target_ref p) (re_relationship p)
       (re_confidence p) (Some user)) (\<lambda>_.
     returnM (Json (JObj [(''status'', JStr ''created''), (''relationship'', JStr (re_relationship p))])))"

definition neighbor_json :: "neighbor \<Rightarrow> json" where
  "neighbor_json n =
     JObj [(''ref'', JStr (nb_ref n)), (''direction'', JStr (nb_direction n)),
       (''relationship'', JStr (ed_relationship (nb_data n))), (''confidence'', JReal (ed_confidence (nb_data n))),
       (''source'', JStr (ed_source (nb_data n)))]"

definition graph_json :: "graph_export \<Rightarrow> json" where
  "graph_json g =
     JObj [(''nodes'', JArr (map (\<lambda>(n, t). JObj [(''id'', JStr n), (''type'', JStr t)]) (ex_nodes g))),
       (''edges'', JArr (map (\<lambda>(u, v, r, c). JObj [(''source'', JStr u), (''target'', JStr v),
          (''relationship'', JStr r), (''confidence'', JReal c)]) (ex_edges g)))]"

definition api_neighbors :: "('t, 's, 'tok, 'g) api_deps \<Rightarrow> string \<Rightarrow> ('tok body, 'x) eff" where
  "api_neighbors D r =
     bindM (queryM (service_neighbors (ap_graph D) r)) (\<lambda>ns.
     returnM (Json (JObj [(''ref'', JStr r), (''neighbors'', JArr (map neighbor_json ns))])))"

definition api_attack_chain :: "('t, 's, 'tok, 'g) api_deps \<Rightarrow> string \<Rightarrow> string \<Rightarrow> ('tok body, 'x) eff" where
  "api_attack_chain D source target =
     bindM (queryM (service_attack_chain (ap_graph D) source target)) (\<lambda>chain.
     returnM (Json (JObj [(''source_ref'', JStr source), (''target_ref'', JStr target), (''chain'', texts chain)])))"

definition api_pivot :: "('t, 's, 'tok, 'g) api_deps \<Rightarrow> ioc_type \<Rightarrow> string \<Rightarrow> int \<Rightarrow> ('tok body, 'x) eff" where
  "api_pivot D t value depth =
     bindM (queryM (service_pivot (ap_graph D) (ioc_type_value t) value depth)) (\<lambda>g. returnM (Json (graph_json g)))"

definition api_graph :: "('t, 's, 'tok, 'g) api_deps \<Rightarrow> ('tok body, 'x) eff" where
  "api_graph D = bindM (queryM (service_full_graph (ap_graph D))) (\<lambda>g. returnM (Json (graph_json g)))"

section \<open>Alerts\<close>

definition api_create_rule :: "('t, 's, 'tok, 'g) api_deps \<Rightarrow> rule_create \<Rightarrow> ('tok body, 'x) eff" where
  "api_create_rule D p =
     bindM (create_rule (ap_env D) (rc_name p) (rc_metric p) (rc_operator p) (rc_threshold p) (rc_channel p)
       (Some (rc_config p))) (\<lambda>r. returnM (Json (rule_out (ap_share D) r)))"

definition api_list_rules :: "('t, 's, 'tok, 'g) api_deps \<Rightarrow> ('tok body, 'x) eff" where
  "api_list_rules D = bindM list_rules (\<lambda>rs. returnM (Json (JArr (map (rule_out (ap_share D)) rs))))"

text \<open>The service's answer whether there was such a rule is dropped.\<close>

definition api_delete_rule :: "('t, 's, 'tok, 'g) api_deps \<Rightarrow> string \<Rightarrow> ('tok body, 'x) eff" where
  "api_delete_rule D i = bindM (delete_rule (ap_env D) i) (\<lambda>_. returnM NoContent)"

definition api_list_alerts :: "('t, 's, 'tok, 'g) api_deps \<Rightarrow> int \<Rightarrow> int \<Rightarrow> ('tok body, 'x) eff" where
  "api_list_alerts D limit offset =
     bindM (list_alerts limit offset) (\<lambda>rs. returnM (Json (JArr (map (alert_out (ap_share D)) rs))))"

text \<open>The session is given back first; the frames are those of \<open>stream_turn\<close>.\<close>

definition api_stream :: "('tok body, 'x) eff" where
  "api_stream = returnM EventStream"

section \<open>Threat actors\<close>

definition api_create_actor :: "('t, 's, 'tok, 'g) api_deps \<Rightarrow> string \<Rightarrow> actor_data \<Rightarrow> ('tok body, 'x) eff" where
  "api_create_actor D user p =
     bindM (create_actor (ap_env D) p (Some user)) (\<lambda>a. returnM (Json (actor_out (ap_share D) a)))"

definition api_list_actors :: "('t, 's, 'tok, 'g) api_deps \<Rightarrow> ('tok body, 'x) eff" where
  "api_list_actors D = bindM list_actors (\<lambda>rs. returnM (Json (JArr (map (actor_out (ap_share D)) rs))))"

definition api_get_actor :: "('t, 's, 'tok, 'g) api_deps \<Rightarrow> string \<Rightarrow> ('tok body, 'x) eff" where
  "api_get_actor D i = bindM (get_actor i) (\<lambda>a. returnM (Json (actor_out (ap_share D) a)))"

definition api_delete_actor :: "('t, 's, 'tok, 'g) api_deps \<Rightarrow> string \<Rightarrow> string \<Rightarrow> ('tok body, 'x) eff" where
  "api_delete_actor D user i = bindM (delete_actor (ap_env D) i (Some user)) (\<lambda>_. returnM NoContent)"

section \<open>Dashboard and reports\<close>

definition counts_json :: "(string \<times> int) list \<Rightarrow> json" where
  "counts_json cs = JObj (map (\<lambda>(k, n). (k, JInt n)) cs)"

definition api_stats :: "('tok body, 'x) eff" where
  "api_stats =
     bindM (queryM total_rows) (\<lambda>n. bindM (queryM count_by_level) (\<lambda>ls.
     bindM (queryM count_by_type) (\<lambda>ts. bindM (queryM count_by_source) (\<lambda>ss.
     returnM (Json (JObj [(''total'', JInt n), (''by_level'', counts_json ls), (''by_type'', counts_json ts),
       (''by_source'', counts_json ss)]))))))"

definition api_top :: "('t, 's, 'tok, 'g) api_deps \<Rightarrow> int \<Rightarrow> ('tok body, 'x) eff" where
  "api_top D limit =
     bindM (queryM (top_rows (ap_env D) (min limit 50))) (\<lambda>r. bindM (liftM r) (\<lambda>items.
     bindM (liftM (all_out (ioc_json (ap_share D)) items)) (\<lambda>js. returnM (Json (JArr js)))))"

definition api_export :: "('t, 's, 'tok, 'g) api_deps \<Rightarrow> string \<Rightarrow> search_query \<Rightarrow> int \<Rightarrow> ('tok body, 'x) eff" where
  "api_export D fmt q limit =
     bindM (queryM (list_for_report (filter_of q) limit)) (\<lambda>rs.
     bindM (liftM (export_report (ap_dumps D) (ap_share D) fmt rs)) (\<lambda>(text, media, file).
     returnM (Text text media file)))"

section \<open>Accounts\<close>

definition user_json :: "('t, 's, 'tok, 'g) api_deps \<Rightarrow> user_row \<Rightarrow> exn + json" where
  "user_json D = user_out (ap_email D) (ap_share D)"

text \<open>The address a request model hands on.\<close>

definition sent_email :: "('t, 's, 'tok, 'g) api_deps \<Rightarrow> string \<Rightarrow> string" where
  "sent_email D email = the (ap_email D email)"

definition api_register ::
  "('t, 's, 'tok, 'g) api_deps \<Rightarrow> string \<Rightarrow> string \<Rightarrow> ('t, 's) auth_world \<Rightarrow>
   (exn + 'tok body) \<times> ('t, 's) auth_world" where
  "api_register D email password =
     bindM (register (ap_auth D) (sent_email D email) password None) (\<lambda>u. jsonM (user_json D u))"

definition api_login ::
  "('t, 's, 'tok, 'g) api_deps \<Rightarrow> string \<Rightarrow> string \<Rightarrow> string option \<Rightarrow> string \<Rightarrow> ('t, 's) auth_world \<Rightarrow>
   (exn + 'tok body) \<times> ('t, 's) auth_world" where
  "api_login D email password peer forwarded =
     bindM (authenticate (ap_auth D) (sent_email D email) password
       (client_ip (proxy_trust (st_trusted_proxies (ap_settings D))) peer forwarded)) (\<lambda>p. returnM (Tokens p))"

definition api_refresh ::
  "('t, 's, 'tok, 'g) api_deps \<Rightarrow> 'tok \<Rightarrow> ('t, 's) auth_world \<Rightarrow> (exn + 'tok body) \<times> ('t, 's) auth_world" where
  "api_refresh D tok = bindM (refresh (ap_auth D) tok) (\<lambda>p. returnM (Tokens p))"

definition bearer_text :: "string \<Rightarrow> string option" where
  "bearer_text header = (if startswith (py_lower header) ''bearer '' then Some (drop 7 header) else None)"

definition api_logout ::
  "('t, 's, 'tok, 'g) api_deps \<Rightarrow> 'tok \<Rightarrow> string \<Rightarrow> ('t, 's) auth_world \<Rightarrow>
   (exn + 'tok body) \<times> ('t, 's) auth_world" where
  "api_logout D tok header =
     bindM (logout (ap_auth D) tok (map_option (ap_token D) (bearer_text header))) (\<lambda>_. returnM NoContent)"

definition api_get_user :: "('t, 's, 'tok, 'g) api_deps \<Rightarrow> string \<Rightarrow> ('tok body, 'x) eff" where
  "api_get_user D i = bindM (get_user i) (\<lambda>u. jsonM (user_json D u))"

definition api_create_key :: "('t, 's, 'tok, 'g) api_deps \<Rightarrow> string \<Rightarrow> string \<Rightarrow> ('tok body, 'x) eff" where
  "api_create_key D user name =
     bindM (create_api_key (ap_auth D) user name) (\<lambda>(k, g). bindM (liftM (key_out (ap_share D) k)) (\<lambda>d.
     returnM (Json (JObj (d @ [(''api_key'', JStr (gen_raw g))])))))"

definition key_json :: "('t, 's, 'tok, 'g) api_deps \<Rightarrow> key_row \<Rightarrow> exn + json" where
  "key_json D k = bindE (key_out (ap_share D) k) (\<lambda>d. Inr (JObj d))"

definition api_list_keys :: "('t, 's, 'tok, 'g) api_deps \<Rightarrow> string \<Rightarrow> ('tok body, 'x) eff" where
  "api_list_keys D user =
     bindM (list_for_user user) (\<lambda>ks. bindM (liftM (all_out (key_json D) ks)) (\<lambda>js. returnM (Json (JArr js))))"

definition api_get_key :: "('t, 's, 'tok, 'g) api_deps \<Rightarrow> string \<Rightarrow> string \<Rightarrow> ('tok body, 'x) eff" where
  "api_get_key D user k = bindM (get_api_key user k) (\<lambda>r. jsonM (key_json D r))"

definition api_revoke_key :: "('t, 's, 'tok, 'g) api_deps \<Rightarrow> string \<Rightarrow> string \<Rightarrow> ('tok body, 'x) eff" where
  "api_revoke_key D user k = bindM (revoke_api_key (ap_env D) user k) (\<lambda>_. returnM NoContent)"

definition api_list_users :: "('t, 's, 'tok, 'g) api_deps \<Rightarrow> int \<Rightarrow> int \<Rightarrow> ('tok body, 'x) eff" where
  "api_list_users D limit offset =
     bindM (list_users limit offset) (\<lambda>us. bindM (liftM (all_out (user_json D) us)) (\<lambda>js. returnM (Json (JArr js))))"

definition api_set_role :: "('t, 's, 'tok, 'g) api_deps \<Rightarrow> string \<Rightarrow> string \<Rightarrow> role \<Rightarrow> ('tok body, 'x) eff" where
  "api_set_role D actor i r = bindM (set_user_role (ap_env D) actor i r) (\<lambda>u. jsonM (user_json D u))"

definition api_set_active :: "('t, 's, 'tok, 'g) api_deps \<Rightarrow> string \<Rightarrow> string \<Rightarrow> bool \<Rightarrow> ('tok body, 'x) eff" where
  "api_set_active D actor i b = bindM (set_user_active (ap_env D) actor i b) (\<lambda>u. jsonM (user_json D u))"

end
