(* ===== verification/Routes.thy ===== *)
theory Routes
  imports Api
begin

text \<open>
  The routes of \<open>app/api/v1\<close> as a table: the guard of each, the constraints on its parameters and
  its endpoint; and a request, which runs guard, validation and endpoint in one session
  (\<open>require\<close> of \<open>app/api/deps.py\<close>, \<open>get_session\<close>).
\<close>

datatype 'tok api_call =
    Health | Ready | ListCollectors
  | Register string string | Login string string "string option" string | Refresh 'tok | Logout 'tok string
  | Me | CreateKey string | ListKeys | GetKey string | RevokeKey string
  | ListUsers int int | GetUser string | SetRole string role | SetActive string bool
  | CreateIoc ioc_create | ExtractIocs string string | BulkImport bulk_request | LookupIoc string
  | SearchIocs search_query int int | GetIoc string | ExplainIoc string | EnrichIoc string
  | RunCollector string int bool
  | AddRelationship relation_create | Neighbors string | AttackChain string string
  | Pivot ioc_type string int | Graph
  | CreateRule rule_create | ListRules | DeleteRule string | ListAlerts int int | StreamAlerts real
  | CreateActor actor_data | ListActors | GetActor string | DeleteActor string
  | Stats | Top int | Export string search_query int

text \<open>
  The guard of a route is what its decorator's \<open>dependencies\<close> or its handler's signature declare:
  \<open>Depends(require(p))\<close>, \<open>Depends(get_current_principal)\<close> or neither.
\<close>

datatype guard = Public | Authenticated | Needs permission

fun guard_of :: "'tok api_call \<Rightarrow> guard" where
  "guard_of Health = Public"
| "guard_of Ready = Public"
| "guard_of ListCollectors = Public"
| "guard_of (Register email pw) = Public"
| "guard_of (Login email pw peer fwd) = Public"
| "guard_of (Refresh tok) = Public"
| "guard_of (Logout tok header) = Public"
| "guard_of Me = Authenticated"
| "guard_of (CreateKey name) = Authenticated"
| "guard_of ListKeys = Authenticated"
| "guard_of (GetKey k) = Authenticated"
| "guard_of (RevokeKey k) = Authenticated"
| "guard_of (ListUsers limit offset) = Needs AdminManage"
| "guard_of (GetUser i) = Needs AdminManage"
| "guard_of (SetRole i r) = Needs AdminManage"
| "guard_of (SetActive i b) = Needs AdminManage"
| "guard_of (CreateIoc p) = Needs IocWrite"
| "guard_of (ExtractIocs content fmt) = Needs IocRead"
| "guard_of (BulkImport p) = Needs IocWrite"
| "guard_of (LookupIoc v) = Needs IocRead"
| "guard_of (SearchIocs q page page_size) = Needs IocRead"
| "guard_of (GetIoc i) = Needs IocRead"
| "guard_of (ExplainIoc i) = Needs IocRead"
| "guard_of (EnrichIoc i) = Needs EnrichRun"
| "guard_of (RunCollector name limit enrich) = Needs CollectorRun"
| "guard_of (AddRelationship p) = Needs IocWrite"
| "guard_of (Neighbors r) = Needs IocRead"
| "guard_of (AttackChain r s) = Needs IocRead"
| "guard_of (Pivot t v depth) = Needs IocRead"
| "guard_of Graph = Needs IocRead"
| "guard_of (CreateRule p) = Needs AlertManage"
| "guard_of ListRules = Needs AlertRead"
| "guard_of (DeleteRule i) = Needs AlertManage"
| "guard_of (ListAlerts limit offset) = Needs AlertRead"
| "guard_of (StreamAlerts heartbeat) = Needs AlertRead"
| "guard_of (CreateActor p) = Needs IocWrite"
| "guard_of ListActors = Needs IocRead"
| "guard_of (GetActor i) = Needs IocRead"
| "guard_of (DeleteActor i) = Needs IocWrite"
| "guard_of Stats = Authenticated"
| "guard_of (Top limit) = Authenticated"
| "guard_of (Export fmt q limit) = Needs ReportGenerate"

text \<open>The declared bounds of path, query and body parameters.\<close>

fun valid_call :: "email_rule \<Rightarrow> 'tok api_call \<Rightarrow> bool" where
  "valid_call E (Register email pw) = valid_register E email pw"
| "valid_call E (Login email pw peer fwd) = valid_login E email pw"
| "valid_call E (CreateKey name) = valid_key_name name"
| "valid_call E (ListUsers limit offset) = (1 \<le> limit \<and> limit \<le> 200 \<and> 0 \<le> offset)"
| "valid_call E (CreateIoc p) = valid_ioc_create p"
| "valid_call E (ExtractIocs content fmt) = valid_extract content fmt"
| "valid_call E (BulkImport p) = valid_bulk p"
| "valid_call E (LookupIoc v) = sized 1 2048 v"
| "valid_call E (SearchIocs q page page_size) = (valid_search q \<and> 1 \<le> page \<and> 1 \<le> page_size \<and> page_size \<le> 200)"
| "valid_call E (RunCollector name limit enrich) = (1 \<le> limit \<and> limit \<le> 500)"
| "valid_call E (AddRelationship p) = valid_relation p"
| "valid_call E (Neighbors r) = ref_ok r"
| "valid_call E (AttackChain r s) = (ref_ok r \<and> ref_ok s)"
| "valid_call E (Pivot t v depth) = (sized 0 2048 v \<and> 1 \<le> depth \<and> depth \<le> 4)"
| "valid_call E (CreateRule p) = valid_rule p"
| "valid_call E (ListAlerts limit offset) = (1 \<le> limit \<and> limit \<le> 200 \<and> 0 \<le> offset)"
| "valid_call E (StreamAlerts heartbeat) = (1 \<le> heartbeat \<and> heartbeat \<le> 60)"
| "valid_call E (CreateActor p) = valid_actor p"
| "valid_call E (Export fmt q limit) = (valid_search q \<and> 1 \<le> limit \<and> limit \<le> 5000)"
| "valid_call E _ = True"

text \<open>The endpoints; \<open>u\<close> is the id of the principal, which only guarded endpoints read.\<close>

fun endpoint ::
  "('t, 's, 'tok, 'g) api_deps \<Rightarrow> string \<Rightarrow> 'tok api_call \<Rightarrow> ('t, 's) auth_world \<Rightarrow>
   (exn + 'tok body) \<times> ('t, 's) auth_world" where
  "endpoint D u Health = api_health"
| "endpoint D u Ready = api_ready D"
| "endpoint D u ListCollectors = api_list_collectors"
| "endpoint D u (Register email pw) = api_register D email pw"
| "endpoint D u (Login email pw peer fwd) = api_login D email pw peer fwd"
| "endpoint D u (Refresh tok) = api_refresh D tok"
| "endpoint D u (Logout tok header) = api_logout D tok header"
| "endpoint D u Me = api_get_user D u"
| "endpoint D u (CreateKey name) = api_create_key D u name"
| "endpoint D u ListKeys = api_list_keys D u"
| "endpoint D u (GetKey k) = api_get_key D u k"
| "endpoint D u (RevokeKey k) = api_revoke_key D u k"
| "endpoint D u (ListUsers limit offset) = api_list_users D limit offset"
| "endpoint D u (GetUser i) = api_get_user D i"
| "endpoint D u (SetRole i r) = api_set_role D u i r"
| "endpoint D u (SetActive i b) = api_set_active D u i b"
| "endpoint D u (CreateIoc p) = api_create_ioc D u p"
| "endpoint D u (ExtractIocs content fmt) = api_extract D content fmt"
| "endpoint D u (BulkImport p) = api_bulk_import D u p"
| "endpoint D u (LookupIoc v) = api_lookup D v"
| "endpoint D u (SearchIocs q page page_size) = api_search D q page page_size"
| "endpoint D u (GetIoc i) = api_get_ioc D i"
| "endpoint D u (ExplainIoc i) = api_explain i"
| "endpoint D u (EnrichIoc i) = api_enrich D u i"
| "endpoint D u (RunCollector name limit enrich) = api_run_collector D name limit enrich"
| "endpoint D u (AddRelationship p) = api_add_relationship D u p"
| "endpoint D u (Neighbors r) = api_neighbors D r"
| "endpoint D u (AttackChain r s) = api_attack_chain D r s"
| "endpoint D u (Pivot t v depth) = api_pivot D t v depth"
| "endpoint D u Graph = api_graph D"
| "endpoint D u (CreateRule p) = api_create_rule D p"
| "endpoint D u ListRules = api_list_rules D"
| "endpoint D u (DeleteRule i) = api_delete_rule D i"
| "endpoint D u (ListAlerts limit offset) = api_list_alerts D limit offset"
| "endpoint D u (StreamAlerts heartbeat) = api_stream"
| "endpoint D u (CreateActor p) = api_create_actor D u p"
| "endpoint D u ListActors = api_list_actors D"
| "endpoint D u (GetActor i) = api_get_actor D i"
| "endpoint D u (DeleteActor i) = api_delete_actor D u i"
| "endpoint D u Stats = api_stats"
| "endpoint D u (Top limit) = api_top D limit"
| "endpoint D u (Export fmt q limit) = api_export D fmt q limit"

section \<open>A request\<close>

text \<open>Who calls: the credentials the request carries.\<close>

record 'tok caller =
  cl_bearer :: "'tok option"
  cl_key :: "string option"

text \<open>The dependencies of a route: no principal, any principal, or one that has the permission.\<close>

definition admit ::
  "('t, 's, 'tok) auth_deps \<Rightarrow> guard \<Rightarrow> 'tok caller \<Rightarrow> ('t, 's) auth_world \<Rightarrow>
   (exn + string) \<times> ('t, 's) auth_world" where
  "admit A g c =
     (case g of
        Public \<Rightarrow> returnM []
      | Authenticated \<Rightarrow> bindM (get_current_principal A (cl_bearer c) (cl_key c)) (\<lambda>p. returnM (pr_id p))
      | Needs perm \<Rightarrow>
          bindM (get_current_principal A (cl_bearer c) (cl_key c)) (\<lambda>p.
          bindM (liftM (require_permission perm p)) (\<lambda>p. returnM (pr_id p))))"

definition request_error :: exn where
  "request_error = PyExc RequestInvalid []"

definition run_call ::
  "('t, 's, 'tok, 'g) api_deps \<Rightarrow> 'tok caller \<Rightarrow> 'tok api_call \<Rightarrow> ('t, 's) auth_world \<Rightarrow>
   (exn + 'tok body) \<times> ('t, 's) auth_world" where
  "run_call D c call =
     unit_of_work (bindM (admit (ap_auth D) (guard_of call) c) (\<lambda>u.
       if \<not> valid_call (ap_email D) call then raiseM request_error else endpoint D u call))"

text \<open>The status of the answer (the routes' \<open>status_code\<close>, \<open>app/api/errors.py\<close>).\<close>

fun success_status :: "'tok api_call \<Rightarrow> nat" where
  "success_status (Register email pw) = 201"
| "success_status (Logout tok header) = 204"
| "success_status (CreateKey name) = 201"
| "success_status (RevokeKey k) = 204"
| "success_status (AddRelationship p) = 201"
| "success_status (CreateRule p) = 201"
| "success_status (DeleteRule i) = 204"
| "success_status (CreateActor p) = 201"
| "success_status (DeleteActor i) = 204"
| "success_status _ = 200"

definition call_status :: "'tok api_call \<Rightarrow> exn + 'tok body \<Rightarrow> nat" where
  "call_status call r =
     (case r of
        Inr _ \<Rightarrow> success_status call
      | Inl e \<Rightarrow> if e = request_error then resp_status (handle_validation JNull) else resp_status (handle_error e))"

fun run_calls ::
  "(('t, 's, 'tok, 'g) api_deps \<times> 'tok caller \<times> 'tok api_call) list \<Rightarrow> ('t, 's) auth_world \<Rightarrow>
   ('t, 's) auth_world" where
  "run_calls [] w = w"
| "run_calls ((D, c, call) # cs) w = run_calls cs (snd (run_call D c call w))"

end
