(* ===== verification/Frames.thy ===== *)
theory Frames
  imports IocProps Actors AuthProps "HOL-Library.Sublist"
begin

text \<open>
  Which tables an operation can touch, as interfaces: an invariant that does not read the tables
  of a component, or that admits the component's own changes of them, is kept by all its
  operations.  Each interface is instantiated by the invariants of the other components.
\<close>

section \<open>The audit log\<close>

locale admits_audits =
  fixes P :: "db \<Rightarrow> bool"
  assumes new_audit: "P d \<Longrightarrow> P (d\<lparr>audits := audits d @ [a]\<rparr>)"
begin

lemma audit_kept [inv_intros]: "preserves P (record_audit E a u ip dt)"
  unfolding record_audit_def by (intro inv_intros) (rule new_audit)

end

section \<open>Accounts\<close>

locale blind_keys = admits_audits +
  assumes keys: "P (d\<lparr>api_keys := x\<rparr>) = P d"
begin

lemma key_changes [inv_intros]: "preserves P (add_key E k)" "preserves P (update_key i f)"
  unfolding add_key_def update_key_def by (intro inv_intros; simp add: keys)+

lemma key_operations [inv_intros]:
  "preserves P (create_api_key A i name)" "preserves P (revoke_api_key E i k)"
  "preserves P (resolve_api_key A raw)"
  unfolding create_api_key_def revoke_api_key_def resolve_api_key_def Let_def by (intro inv_intros)+

lemma identify [inv_intros]: "preserves P (get_current_principal A tok key)"
  unfolding get_current_principal_def by (intro inv_intros)

end

locale blind_accounts = blind_keys +
  assumes users: "P (d\<lparr>users := x\<rparr>) = P d"
begin

lemma user_changes [inv_intros]: "preserves P (add_user E u)" "preserves P (update_user i f)"
  unfolding add_user_def update_user_def by (intro inv_intros; simp add: users)+

lemma account_operations [inv_intros]:
  "preserves P (register A email pw r)" "preserves P (authenticate A email pw ip)"
  "preserves P (refresh A tok)" "preserves P (set_user_role E i k ro)"
  "preserves P (set_user_active E i k b)" "preserves P (create_admin E H n email pw)"
proof -
  show "preserves P (register A email pw r)" unfolding register_def Let_def by (intro inv_intros)
  show "preserves P (authenticate A email pw ip)" unfolding authenticate_def Let_def by (intro inv_intros)
  show "preserves P (refresh A tok)" unfolding refresh_def Let_def by (intro inv_intros)
  show "preserves P (set_user_role E i k ro)" unfolding set_user_role_def by (intro inv_intros)
  show "preserves P (set_user_active E i k b)" unfolding set_user_active_def by (intro inv_intros)
  show "preserves P (create_admin E H n email pw)" unfolding create_admin_def by (intro inv_intros)
qed

lemma logout [inv_intros]: "preserves P (logout A tok acc)"
  unfolding logout_def Let_def by (intro inv_intros) (auto split: sum.splits intro!: inv_intros)

end

section \<open>Rules, alerts and actors\<close>

locale blind_alerts =
  fixes P :: "db \<Rightarrow> bool"
  assumes alerts: "P (d\<lparr>alerts := x\<rparr>) = P d"
begin

lemma evaluate [inv_intros]: "preserves P (evaluate_ioc AE r)" "preserves P (alert_on D r)"
  using alerts by (auto intro: preserves_evaluate preserves_alert_on)

end

locale blind_rules = blind_alerts +
  assumes rules: "P (d\<lparr>rules := x\<rparr>) = P d"
begin

lemma rule_operations [inv_intros]:
  "preserves P (create_rule E n m op t ch cfg)" "preserves P (delete_rule E i)"
  unfolding create_rule_def delete_rule_def Let_def by (intro inv_intros; simp add: rules alerts)+

end

locale blind_actors = admits_audits +
  assumes actors: "P (d\<lparr>actors := x\<rparr>) = P d"
begin

lemma actor_operations [inv_intros]:
  "preserves P (create_actor E a u)" "preserves P (delete_actor E i u)"
  unfolding create_actor_def delete_actor_def get_actor_def Let_def by (intro inv_intros; simp add: actors)+

end

section \<open>Edges and indicators\<close>

text \<open>An invariant that admits a new edge with a new key, and a new confidence of an edge.\<close>

locale admits_edges = admits_audits +
  assumes new_edge: "P d \<Longrightarrow> edge_triple e \<notin> set (map edge_triple (edges d)) \<Longrightarrow> P (d\<lparr>edges := edges d @ [e]\<rparr>)"
    and set_confidence: "P d \<Longrightarrow> P (d\<lparr>edges := update_where p (\<lambda>x. x\<lparr>edg_confidence := c\<rparr>) (edges d)\<rparr>)"
begin

lemma edge_changes [inv_intros]: "preserves P (upsert_edge E s t r c src)"
  unfolding upsert_edge_def
  by (intro inv_intros) (auto intro!: new_edge set_confidence simp: edge_triple_def)

lemma edge_operations [inv_intros]:
  "preserves P (add_relationship E s t r c u)" "preserves P (resolve_edges E self ips)"
  "preserves P (auto_correlate E k v enr src)"
proof -
  show "preserves P (add_relationship E s t r c u)" unfolding add_relationship_def by (intro inv_intros)
  show res: "preserves P (resolve_edges E self ips)" for self ips
    by (induction ips) (auto intro!: inv_intros)
  show "preserves P (auto_correlate E k v enr src)"
    unfolding auto_correlate_def Let_def by (intro inv_intros res)
qed

end

locale blind_indicators = admits_edges + blind_alerts +
  assumes iocs: "P (d\<lparr>iocs := x\<rparr>) = P d"
    and enrichments: "P (d\<lparr>enrichments := y\<rparr>) = P d"
begin

lemma row_changes [inv_intros]:
  "preserves P (store_row E q p sc found)" "preserves P (upsert_enrichment E i pr dt)"
  unfolding store_row_def add_ioc_def upsert_enrichment_def get_enrichment_def
  by (intro inv_intros; simp add: iocs enrichments)+

lemma upsert_keeps_P [inv_intros]: "preserves P (upsert D q)"
  unfolding upsert_def get_by_type_value_def Let_def by (intro inv_intros)

lemma batches [inv_intros]:
  "preserves P (try_all D qs)" "preserves P (ingest_from_collector D b inds)" "preserves P (bulk_import D Q im)"
proof -
  have one: "preserves P (try_upsert D q)" for q
    unfolding try_upsert_def by (intro inv_intros)
  show all: "preserves P (try_all D qs)" for qs
    by (induction qs) (auto intro!: inv_intros one)
  show "preserves P (ingest_from_collector D b inds)" "preserves P (bulk_import D Q im)"
    unfolding ingest_from_collector_def bulk_import_def Let_def by (intro inv_intros all)+
qed

lemma rerun [inv_intros]: "preserves P (rerun_enrichment D u r)"
  unfolding rerun_enrichment_def by (intro inv_intros)

end

section \<open>The invariants of the components\<close>

interpretation accounts: blind_indicators accounts_ok
  by unfold_locales (simp_all add: accounts_ok_def active_with_role_def)

interpretation accounts: blind_rules accounts_ok
  by unfold_locales (simp add: accounts_ok_def active_with_role_def)

interpretation accounts: blind_actors accounts_ok
  by unfold_locales (simp add: accounts_ok_def active_with_role_def)

lemma iocs_ok_frame:
  "iocs_ok (d\<lparr>audits := a\<rparr>) = iocs_ok d" "iocs_ok (d\<lparr>edges := b\<rparr>) = iocs_ok d"
  "iocs_ok (d\<lparr>alerts := c\<rparr>) = iocs_ok d" "iocs_ok (d\<lparr>users := e\<rparr>) = iocs_ok d"
  "iocs_ok (d\<lparr>api_keys := f\<rparr>) = iocs_ok d" "iocs_ok (d\<lparr>rules := g\<rparr>) = iocs_ok d"
  "iocs_ok (d\<lparr>actors := h\<rparr>) = iocs_ok d"
  by (simp_all add: iocs_ok_def keys_ok_def explained_def records_def)

interpretation store: blind_accounts iocs_ok
  by unfold_locales (simp_all add: iocs_ok_frame)

interpretation store: blind_rules iocs_ok
  by unfold_locales (simp_all add: iocs_ok_frame)

interpretation store: blind_actors iocs_ok
  by unfold_locales (simp_all add: iocs_ok_frame)

interpretation store: admits_edges iocs_ok
  by unfold_locales (simp_all add: iocs_ok_frame)

interpretation graph: blind_accounts edges_ok
  by unfold_locales (simp_all add: edges_ok_def)

interpretation graph: blind_rules edges_ok
  by unfold_locales (simp_all add: edges_ok_def)

interpretation graph: blind_actors edges_ok
  by unfold_locales (simp add: edges_ok_def)

interpretation graph: blind_indicators edges_ok
  by unfold_locales (simp_all add: edges_ok_def edge_triple_def)

interpretation actor: blind_accounts actors_ok
  by unfold_locales (simp_all add: actors_ok_def)

interpretation actor: blind_rules actors_ok
  by unfold_locales (simp_all add: actors_ok_def)

interpretation actor: blind_indicators actors_ok
  by unfold_locales (simp_all add: actors_ok_def)

text \<open>The audit records from a time on: operations only add to them.\<close>

definition trail_since :: "real \<Rightarrow> db \<Rightarrow> audit_row list" where
  "trail_since t d = filter (\<lambda>a. t \<le> aud_created a) (audits d)"

interpretation trail: blind_accounts "\<lambda>d. prefix A (trail_since t d)" for A t
  by unfold_locales (auto simp: prefix_def trail_since_def)

interpretation trail: blind_rules "\<lambda>d. prefix A (trail_since t d)" for A t
  by unfold_locales (simp_all add: trail_since_def)

interpretation trail: blind_actors "\<lambda>d. prefix A (trail_since t d)" for A t
  by unfold_locales (simp_all add: trail_since_def)

interpretation trail: blind_indicators "\<lambda>d. prefix A (trail_since t d)" for A t
  by unfold_locales (simp_all add: trail_since_def)

end
