(* ===== verification/Workers.thy ===== *)
theory Workers
  imports Routes Frames
begin

text \<open>
  The background tasks: \<open>app/workers/tasks.py\<close>.  A task is one unit of work of its own, and shares
  the services with the interface but raises no alerts.
\<close>

definition task_iocs :: "('t, 's, 'tok, 'g) api_deps \<Rightarrow> ioc_deps" where
  "task_iocs D = \<lparr>io_env = ap_env D, io_enrich = ap_enrich D, io_alerts = None\<rparr>"

text \<open>\<open>run_collector\<close>: \<open>ingest_from_collector\<close> enriches by default.\<close>

definition task_run_collector ::
  "('t, 's, 'tok, 'g) api_deps \<Rightarrow> string \<Rightarrow> int \<Rightarrow> (dict, 'x) eff" where
  "task_run_collector D name limit =
     bindM (liftM (build_collector (provider_key (ap_settings D)) name)) (\<lambda>c.
     bindM (ingest_from_collector (task_iocs D) True
       (collect (st_live_collectors (ap_settings D)) (ap_outside D) c limit)) (\<lambda>s.
     returnM [(''collector'', JStr name), (''ingested'', JInt (ing_ingested s)), (''skipped'', JInt (ing_skipped s))]))"

text \<open>\<open>cleanup_old_audit_logs\<close>: a day has 86400 seconds.\<close>

definition stale :: "env \<Rightarrow> int \<Rightarrow> audit_row \<Rightarrow> bool" where
  "stale E retention_days a \<longleftrightarrow> aud_created a < now_at E - of_int retention_days * 86400"

definition task_cleanup :: "env \<Rightarrow> int \<Rightarrow> (dict, 'x) eff" where
  "task_cleanup E retention_days =
     bindM (queryM (\<lambda>d. length (filter (stale E retention_days) (audits d)))) (\<lambda>n.
     bindM (changeM (\<lambda>d. d\<lparr>audits := filter (\<lambda>a. \<not> stale E retention_days a) (audits d)\<rparr>)) (\<lambda>_.
     returnM [(''deleted'', JInt (int n))]))"

text \<open>
  The schedule of \<open>app/workers/celery_app.py\<close>: a name, the seconds between two runs, and the task;
  the clean-up runs with its default of 90 days.  Every scheduled collector can be built, whatever
  keys are configured.
\<close>

datatype scheduled = RunCollectorTask string int | CleanupTask int

definition beat_schedule :: "(string \<times> real \<times> scheduled) list" where
  "beat_schedule =
     [(''collect-urlhaus'', 900, RunCollectorTask ''urlhaus'' 100),
      (''collect-cisa-kev'', 3600, RunCollectorTask ''cisa_kev'' 200),
      (''cleanup-audit-logs'', 86400, CleanupTask 90)]"

lemma scheduled_collectors_exist:
  "(n, s, RunCollectorTask name limit) \<in> set beat_schedule \<Longrightarrow> \<exists>c. build_collector keys name = Inr c \<and> 1 \<le> limit"
proof -
  have "map_of collector_classes (py_lower ''urlhaus'') \<noteq> None" "get_info (py_lower ''urlhaus'') \<noteq> None"
    "map_of collector_classes (py_lower ''cisa_kev'') \<noteq> None" "get_info (py_lower ''cisa_kev'') \<noteq> None"
    by code_simp+
  then show "(n, s, RunCollectorTask name limit) \<in> set beat_schedule \<Longrightarrow> \<exists>c. build_collector keys name = Inr c \<and> 1 \<le> limit"
    by (auto simp: beat_schedule_def build_collector_def Let_def)
qed

section \<open>Everything that runs\<close>

text \<open>A step of the platform: a request, a task, or the command that makes an administrator.\<close>

datatype 'tok activity =
    Request "'tok caller" "'tok api_call"
  | Collector string int
  | Cleanup int
  | MakeAdmin string string

fun step ::
  "('t, 's, 'tok, 'g) api_deps \<Rightarrow> 'tok activity \<Rightarrow> ('t, 's) auth_world \<Rightarrow> ('t, 's) auth_world" where
  "step D (Request c call) w = snd (run_call D c call w)"
| "step D (Collector name limit) w = snd (unit_of_work (task_run_collector D name limit) w)"
| "step D (Cleanup days) w = snd (unit_of_work (task_cleanup (ap_env D) days) w)"
| "step D (MakeAdmin email pw) w =
     snd (unit_of_work (create_admin_main (ap_env D) (ad_argon (ap_auth D)) (ad_salt (ap_auth D)) email pw) w)"

text \<open>A history of the platform: activities in order, each in its own environment.\<close>

fun history ::
  "(('t, 's, 'tok, 'g) api_deps \<times> 'tok activity) list \<Rightarrow> ('t, 's) auth_world \<Rightarrow> ('t, 's) auth_world" where
  "history [] w = w"
| "history ((D, a) # as) w = history as (step D a w)"

end
