(* ===== verification/ApiProps.thy ===== *)
theory ApiProps
  imports Workers
begin

text \<open>
  What holds of every request whatever its route: access control, the invariants of the whole
  database, and the shape of what is served.
\<close>

section \<open>Access\<close>

lemma preserves_json [inv_intros]: "preserves P (jsonM r)"
  unfolding jsonM_def by (intro inv_intros)

lemma preserves_detail [inv_intros]: "preserves P (to_detail S r)"
  unfolding to_detail_def list_enrichments_def by (intro inv_intros)

lemma preserves_case_prod [inv_intros]:
  "(\<And>a b. preserves P (f a b)) \<Longrightarrow> preserves P (case p of (a, b) \<Rightarrow> f a b)"
  by (cases p) simp

text \<open>Guards that admit readers, and their endpoints.\<close>

definition reading :: "guard \<Rightarrow> bool" where
  "reading g \<longleftrightarrow> g \<in> {Authenticated, Needs IocRead, Needs AlertRead}"

lemmas reading_endpoints = api_extract_def api_lookup_def api_search_def api_get_ioc_def api_explain_def
  api_neighbors_def api_attack_chain_def api_pivot_def api_graph_def api_list_rules_def
  api_list_alerts_def api_stream_def api_list_actors_def api_get_actor_def api_stats_def api_top_def
  api_get_user_def api_list_keys_def api_get_key_def lookup_ioc_def get_by_type_value_def find_ioc_def
  explain_def get_enrichment_def list_rules_def list_alerts_def list_actors_def get_actor_def list_for_user_def
  api_health_def api_ready_def api_list_collectors_def api_export_def api_list_users_def list_users_def

context blind_keys
begin

lemma reading_kept: "reading (guard_of call) \<Longrightarrow> preserves P (endpoint D u call)"
  by (cases call; simp add: reading_def;
      simp only: reading_endpoints api_create_key_def api_revoke_key_def; intro inv_intros)

end

text \<open>Everything but keys and the audit log.\<close>

definition content :: "db \<Rightarrow> user_row list \<times> ioc_row list \<times> enrichment_row list \<times> edge_row list \<times>
    rule_row list \<times> alert_row list \<times> actor_row list" where
  "content d = (users d, iocs d, enrichments d, edges d, rules d, alerts d, actors d)"

interpretation contents: blind_keys "\<lambda>d. content d = C" for C
  by unfold_locales (simp_all add: content_def)

lemma admit_kept: "preserves (\<lambda>d. content d = C) (admit A g c)"
  unfolding admit_def by (cases g; simp only: guard.case; intro inv_intros)

lemma admitted:
  "admit A (Needs p) c w = (Inr u, w1) \<Longrightarrow>
   \<exists>pr. get_current_principal A (cl_bearer c) (cl_key c) w = (Inr pr, w1) \<and> has_permission (pr_role pr) p \<and> u = pr_id pr"
  by (auto simp: admit_def bindM_Inr liftM_def returnM_def require_permission_def split: if_splits)

lemma run_call_eq:
  "run_call D c call w =
     (case admit (ap_auth D) (guard_of call) c w of
        (Inl e, w1) \<Rightarrow> (Inl e, w1\<lparr>tables := tables w\<rparr>)
      | (Inr u, w1) \<Rightarrow>
          if \<not> valid_call (ap_email D) call then (Inl request_error, w1\<lparr>tables := tables w\<rparr>)
          else (case endpoint D u call w1 of
            (Inl e, w2) \<Rightarrow> (Inl e, w2\<lparr>tables := tables w\<rparr>) | (Inr b, w2) \<Rightarrow> (Inr b, w2)))"
  by (auto simp: run_call_def unit_of_work_def bindM_def raiseM_def split: prod.splits sum.splits)

lemma failed_call: "run_call D c call w = (Inl e, w') \<Longrightarrow> tables w' = tables w"
  unfolding run_call_def by (rule unit_of_work_Inl)

lemma answered_call:
  assumes "run_call D c call w = (Inr b, w')"
  obtains u w1 where "admit (ap_auth D) (guard_of call) c w = (Inr u, w1)"
    "valid_call (ap_email D) call" "endpoint D u call w1 = (Inr b, w')"
  using assms by (auto simp: run_call_eq split: prod.splits sum.splits if_splits)

lemma reading_is_all:
  "guard_of call \<noteq> Public \<Longrightarrow> guard_of call = Authenticated \<or>
   (\<exists>p. guard_of call = Needs p \<and> (reading (guard_of call) \<or> (\<forall>r. has_permission r p \<longrightarrow> r \<in> {''admin'', ''analyst''})))"
  by (cases "guard_of call") (auto simp: reading_def permission_table split: permission.splits)

section \<open>The database under the interface\<close>

definition system_ok :: "db \<Rightarrow> bool" where
  "system_ok d \<longleftrightarrow> accounts_ok d \<and> iocs_ok d \<and> edges_ok d \<and> actors_ok d"

lemmas writing_endpoints = api_create_ioc_def api_bulk_import_def api_enrich_def api_run_collector_def
  api_add_relationship_def api_create_rule_def api_delete_rule_def api_create_actor_def api_delete_actor_def
  api_register_def api_login_def api_refresh_def api_logout_def api_create_key_def api_revoke_key_def
  api_set_role_def api_set_active_def

lemma preserves_let [inv_intros]: "(\<And>x. preserves P (f x)) \<Longrightarrow> preserves P (Let a f)"
  by (simp add: Let_def)

lemma endpoint_accounts: "preserves accounts_ok (endpoint D u call)"
  by (cases call; simp only: endpoint.simps reading_endpoints writing_endpoints; intro inv_intros)

lemma endpoint_graph: "preserves edges_ok (endpoint D u call)"
  by (cases call; simp only: endpoint.simps reading_endpoints writing_endpoints; intro inv_intros)

lemma endpoint_actors: "preserves actors_ok (endpoint D u call)"
  by (cases call; simp only: endpoint.simps reading_endpoints writing_endpoints; intro inv_intros)

text \<open>Endpoints that write indicators.\<close>

fun submits :: "'tok api_call \<Rightarrow> bool" where
  "submits (CreateIoc p) = True"
| "submits (BulkImport p) = True"
| "submits (EnrichIoc i) = True"
| "submits (RunCollector name limit enrich) = True"
| "submits _ = False"

lemma endpoint_other: "\<not> submits call \<Longrightarrow> preserves iocs_ok (endpoint D u call)"
  by (cases call; simp only: endpoint.simps submits.simps; (simp; fail)?;
      simp only: reading_endpoints writing_endpoints; intro inv_intros)

lemma unit_of_work_Inr: "m w = (Inr a, w') \<Longrightarrow> snd (unit_of_work m w) = w'"
  by (simp add: unit_of_work_def)

lemma batches_keep:
  assumes "iocs_ok (tables w)"
  shows "ingest_from_collector D b inds w = (Inr s, w') \<Longrightarrow> iocs_ok (tables w')"
    "bulk_import D Q im w = (Inr r, w') \<Longrightarrow> iocs_ok (tables w')"
  using serve_ioc_keeps [OF assms, of D "Collect b inds"] serve_ioc_keeps [OF assms, of D "ImportDoc Q im"]
  by (simp_all add: unit_of_work_Inr)

lemma detail_kept: "to_detail S r w = (x, w') \<Longrightarrow> tables w' = tables w"
  by (auto simp: to_detail_def list_enrichments_def run_simps split: sum.splits)

lemma endpoint_iocs:
  assumes run: "endpoint D u call w = (Inr b, w')" and ok: "iocs_ok (tables w)"
  shows "iocs_ok (tables w')"
proof (cases "submits call")
  case False
  from preservesD [OF endpoint_other [OF this] run ok] show ?thesis .
next
  case True
  with run show ?thesis
  proof (cases call)
    case (CreateIoc p)
    with run ok show ?thesis
      by (auto simp: api_create_ioc_def bindM_Inr) (metis detail_kept upsert_keeps(1))
  next
    case (BulkImport p)
    with run ok show ?thesis
      by (auto simp: api_bulk_import_def bindM_Inr returnM_def dest: batches_keep(2))
  next
    case (EnrichIoc i)
    with run ok show ?thesis
      by (auto simp: api_enrich_def bindM_Inr find_ioc_def queryM_def raiseM_def rerun_enrichment_def liftM_def
          split: option.splits) (metis detail_kept upsert_keeps(1))
  next
    case (RunCollector name limit enrich)
    with run ok show ?thesis
      by (auto simp: api_run_collector_def bindM_Inr returnM_def liftM_def Let_def dest: batches_keep(1))
  qed simp_all
qed

lemma admit_keeps: "admit A g c w = (r, w') \<Longrightarrow> system_ok (tables w) \<Longrightarrow> system_ok (tables w')"
proof -
  have p: "preserves P (admit A g c)" if "preserves P (get_current_principal A (cl_bearer c) (cl_key c))" for P
    unfolding admit_def by (cases g; simp only: guard.case; intro inv_intros that)
  show "admit A g c w = (r, w') \<Longrightarrow> system_ok (tables w) \<Longrightarrow> system_ok (tables w')"
    unfolding system_ok_def
    by (intro conjI; erule conjE; erule preservesD [rotated]; (intro p inv_intros)?) auto
qed

lemma run_call_keeps: "system_ok (tables w) \<Longrightarrow> system_ok (tables (snd (run_call D c call w)))"
proof -
  assume ok: "system_ok (tables w)"
  obtain r w' where run: "run_call D c call w = (r, w')" by fastforce
  show ?thesis
  proof (cases r)
    case (Inl e)
    with run ok show ?thesis by (auto dest: failed_call)
  next
    case (Inr b)
    with run obtain u w1 where a: "admit (ap_auth D) (guard_of call) c w = (Inr u, w1)"
      and e: "endpoint D u call w1 = (Inr b, w')" by (metis answered_call)
    from admit_keeps [OF a ok] have "system_ok (tables w1)" .
    with e run show ?thesis
      using preservesD [OF endpoint_accounts e] preservesD [OF endpoint_graph e]
        preservesD [OF endpoint_actors e] endpoint_iocs [OF e]
      by (simp add: system_ok_def)
  qed
qed

section \<open>Histories\<close>

lemma task_run_keeps:
  assumes ok: "iocs_ok (tables w)" and run: "task_run_collector D name limit w = (Inr s, w')"
  shows "iocs_ok (tables w')"
  using run ok by (auto simp: task_run_collector_def bindM_Inr liftM_def returnM_def dest: batches_keep(1))

lemma system_ok_audits [simp]: "system_ok (d\<lparr>audits := x\<rparr>) = system_ok d"
  by (simp add: system_ok_def iocs_ok_frame)

lemma keep_steps:
  assumes "preserves P m" "P (tables w)"
  shows "P (tables (snd (unit_of_work m w)))"
  using preserves_unit_of_work [OF assms(1)] assms(2) by (simp add: preserves_def)

lemma task_keeps [inv_intros]:
  "preserves accounts_ok (task_run_collector D name limit)" "preserves edges_ok (task_run_collector D name limit)"
  "preserves actors_ok (task_run_collector D name limit)"
  "preserves (\<lambda>d. prefix A (trail_since t d)) (task_run_collector D name limit)"
  unfolding task_run_collector_def by (intro inv_intros)+

lemma main_keeps [inv_intros]:
  "preserves accounts_ok (create_admin_main E H n email pw)" "preserves edges_ok (create_admin_main E H n email pw)"
  "preserves actors_ok (create_admin_main E H n email pw)" "preserves iocs_ok (create_admin_main E H n email pw)"
  "preserves (\<lambda>d. prefix A (trail_since t d)) (create_admin_main E H n email pw)"
  unfolding create_admin_main_def by (intro inv_intros)+

lemma step_keeps: "system_ok (tables w) \<Longrightarrow> system_ok (tables (step D a w))"
proof (cases a)
  case (Request c call)
  then show "system_ok (tables w) \<Longrightarrow> ?thesis" by (simp add: run_call_keeps)
next
  case (Collector name limit)
  assume ok: "system_ok (tables w)"
  have "iocs_ok (tables (snd (unit_of_work (task_run_collector D name limit) w)))"
    using ok task_run_keeps [of w D name limit] unfolding system_ok_def
    by (intro unit_of_work_keeps [where P = iocs_ok]) auto
  with ok show ?thesis unfolding Collector step.simps system_ok_def
    using keep_steps [OF task_keeps(1)] keep_steps [OF task_keeps(2)] keep_steps [OF task_keeps(3)] by blast
next
  case (Cleanup days)
  assume "system_ok (tables w)"
  then show ?thesis
    by (simp add: Cleanup task_cleanup_def unit_of_work_def run_simps)
next
  case (MakeAdmin email pw)
  assume ok: "system_ok (tables w)"
  then show ?thesis unfolding MakeAdmin step.simps system_ok_def
    by (simp add: keep_steps [OF main_keeps(1)] keep_steps [OF main_keeps(2)] keep_steps [OF main_keeps(3)]
        keep_steps [OF main_keeps(4)])
qed

lemma endpoint_trail: "preserves (\<lambda>d. prefix A (trail_since t d)) (endpoint D u call)"
  by (cases call; simp only: endpoint.simps reading_endpoints writing_endpoints; intro inv_intros)

lemma call_trail: "preserves (\<lambda>d. prefix A (trail_since t d)) (run_call D c call)"
proof -
  have "preserves (\<lambda>d. prefix A (trail_since t d)) (admit (ap_auth D) g c)" for g
    unfolding admit_def by (cases g; simp only: guard.case; intro inv_intros)
  then show ?thesis unfolding run_call_def by (intro inv_intros endpoint_trail)
qed

definition keeps_since :: "real \<Rightarrow> ('t, 's, 'tok, 'g) api_deps \<times> 'tok activity \<Rightarrow> bool" where
  "keeps_since t x =
     (case x of (D, Cleanup days) \<Rightarrow> now_at (ap_env D) - of_int days * 86400 \<le> t | _ \<Rightarrow> True)"

lemma step_trail:
  assumes "keeps_since t (D, a)" "prefix A (trail_since t (tables w))"
  shows "prefix A (trail_since t (tables (step D a w)))"
proof (cases a)
  case (Request c call)
  with assms(2) preservesD [OF call_trail [of A t D c call], of w] show ?thesis
    by (metis prod.collapse step.simps(1))
next
  case (Collector name limit)
  then show ?thesis using keep_steps [OF task_keeps(4) assms(2)] by simp
next
  case (Cleanup days)
  have "t \<le> aud_created x \<Longrightarrow> \<not> stale (ap_env D) days x" for x
    using assms(1) by (simp add: Cleanup keeps_since_def stale_def)
  then have "trail_since t (tables (step D a w)) = trail_since t (tables w)"
    by (auto simp: Cleanup task_cleanup_def unit_of_work_def run_simps trail_since_def intro!: filter_cong)
  with assms(2) show ?thesis by simp
next
  case (MakeAdmin email pw)
  then show ?thesis using keep_steps [OF main_keeps(5) assms(2)] by simp
qed

section \<open>What is served\<close>

lemma value_of_level: "threat_level_of (threat_level_value l) \<noteq> None"
  by (cases l) (simp_all add: threat_level_of_def)

lemma value_of_type: "ioc_type_of (ioc_type_value t) \<noteq> None"
  by (cases t) (simp_all add: ioc_type_of_def ioc_types_def)

lemma row_served: "row_ok r \<Longrightarrow> \<exists>d. ioc_out S r = Inr d"
  using value_of_level value_of_type by (auto simp: row_ok_def ioc_out_def checked_def)

lemma rows_served: "\<forall>r\<in>set rs. row_ok r \<Longrightarrow> \<exists>js. all_out (ioc_json S) rs = Inr js \<and> length js = length rs"
proof (induction rs)
  case (Cons r rs)
  then obtain d js where "ioc_out S r = Inr d" "all_out (ioc_json S) rs = Inr js" "length js = length rs"
    using row_served [of r S] by auto
  then show ?case by (simp add: ioc_json_def [of S r])
qed simp

lemma found_rows: "r \<in> set (fst (service_search f page n d)) \<Longrightarrow> r \<in> set (iocs d)"
  by (auto simp: service_search_def search_rows_def paged_def ranked_def dest!: in_set_takeD in_set_dropD)

lemma engine_record:
  assumes ok: "keys_ok d" and rec: "records d k = Some pl"
  shows "\<exists>e. filter (\<lambda>e. enr_key e = k) (enrichments d) = [e] \<and> enr_data e = pl"
proof -
  from rec obtain e where e: "e \<in> set (enrichments d)" "enr_key e = k" "enr_data e = pl"
    by (auto simp: records_def dest!: map_of_SomeD)
  have "distinct (map enr_key (enrichments d))" using ok by (simp add: keys_ok_def)
  from filter_unique_mem [OF this e(1)] e show ?thesis by auto
qed

lemma item_of: "item k (JObj d) = (case jget k d of Some v \<Rightarrow> Inr v | None \<Rightarrow> Inl (PyExc KeyError k))"
  by (simp add: item_def)

lemma explain_of:
  "\<exists>c. explain_out (score_json sc) =
     Inr (JObj [(''score'', JInt (score sc)), (''level'', JStr (threat_level_value (level sc))), (''contributions'', JObj c)])"
  unfolding explain_out_def score_json_def item_of
  by (simp add: jget_column checked_def value_of_level)

lemma explain_served:
  assumes ok: "keys_ok (tables w)" and r: "r \<in> set (iocs (tables w))" and ex: "explained (tables w) r"
  shows "\<exists>c. api_explain (ioc_id r) w =
     (Inr (Json (JObj [(''score'', JInt (ioc_score r)), (''level'', JStr (ioc_level r)), (''contributions'', JObj c)])), w)"
proof -
  from ex obtain pl sc where sc: "records (tables w) (ioc_id r, ''engine'') = Some pl"
    "jget ''score'' pl = Some (score_json sc)" "score sc = ioc_score r" "threat_level_value (level sc) = ioc_level r"
    by (auto simp: explained_def)
  from engine_record [OF ok sc(1)] obtain e where e:
    "filter (\<lambda>e. enr_key e = (ioc_id r, ''engine'')) (enrichments (tables w)) = [e]" "enr_data e = pl" by blast
  obtain r' where f: "find (\<lambda>x. ioc_id x = ioc_id r) (iocs (tables w)) = Some r'"
    using r by (cases "find (\<lambda>x. ioc_id x = ioc_id r) (iocs (tables w))") (auto simp: find_None_iff)
  obtain c where c: "explain_out (score_json sc) =
      Inr (JObj [(''score'', JInt (ioc_score r)), (''level'', JStr (ioc_level r)), (''contributions'', JObj c)])"
    using explain_of [of sc] unfolding sc(3,4) by blast
  have "get_enrichment (ioc_id r) ''engine'' w = (Inr (Some e), w)"
    by (simp only: get_enrichment_def select_one_def e(1) one_or_none_def list.case)
  then have "explain (ioc_id r) w = (Inr (Some (score_json sc)), w)"
    by (simp only: explain_def bindM_def returnM_def e(2) sc(2) prod.case sum.case option.case)
  moreover have "find_ioc (ioc_id r) w = (Inr (Some r'), w)" by (simp only: find_ioc_def queryM_def f)
  ultimately have "api_explain (ioc_id r) w =
     (Inr (Json (JObj [(''score'', JInt (ioc_score r)), (''level'', JStr (ioc_level r)), (''contributions'', JObj c)])), w)"
    unfolding api_explain_def
    by (simp only: bindM_def prod.case sum.case option.case jsonM_def liftM_def returnM_def c)
  then show ?thesis by blast
qed

lemma detail_run: "row_ok r \<Longrightarrow> \<exists>b. to_detail S r w = (Inr b, w)"
  using row_served [of r S] by (auto simp: to_detail_def list_enrichments_def run_simps)

section \<open>Properties\<close>

text \<open>C2: No route answers without its permission: a request to a guarded route is answered only if its
  credentials identify a caller whose role holds the permission of the route; for any other caller
  it raises (with 403 for an identified caller) and leaves every table as it was.\<close>

theorem access_enforced:
  "run_call D c call w = (r, w') \<Longrightarrow> guard_of call = Needs p \<Longrightarrow>
   (\<exists>pr w1. get_current_principal (ap_auth D) (cl_bearer c) (cl_key c) w = (Inr pr, w1) \<and> has_permission (pr_role pr) p) \<or>
   (\<exists>e. r = Inl e) \<and> tables w' = tables w \<and>
   (\<forall>pr w1. get_current_principal (ap_auth D) (cl_bearer c) (cl_key c) w = (Inr pr, w1) \<longrightarrow> call_status call r = 403)"
proof -
  assume run: "run_call D c call w = (r, w')" and g: "guard_of call = Needs p"
  let ?A = "ap_auth D" and ?who = "get_current_principal (ap_auth D) (cl_bearer c) (cl_key c) w"
  show ?thesis
  proof (cases "\<exists>pr w1. ?who = (Inr pr, w1) \<and> has_permission (pr_role pr) p")
    case False
    obtain x w1 where who: "?who = (x, w1)" by fastforce
    have "\<exists>e. admit ?A (Needs p) c w = (Inl e, w1) \<and> (\<forall>pr. x = Inr pr \<longrightarrow> (\<exists>m. e = AppExc PermissionDeniedError m []))"
      using False who by (cases x) (auto simp: admit_def bindM_def liftM_def require_permission_def raise_app_def)
    then obtain e where e: "admit ?A (Needs p) c w = (Inl e, w1)"
      "\<forall>pr. x = Inr pr \<longrightarrow> (\<exists>m. e = AppExc PermissionDeniedError m [])" by metis
    with run g have r: "r = Inl e" by (simp add: run_call_eq)
    with run have "tables w' = tables w" by (metis failed_call)
    moreover have "call_status call r = 403" if "x = Inr pr" for pr
      using e(2) that r
      by (auto simp: call_status_def request_error_def handle_error_def status_of_def mro.simps)
    ultimately show ?thesis using r who by auto
  qed blast
qed

text \<open>C5: Readers change nothing: whatever a caller who is not an administrator or an analyst asks of a
  guarded route - a viewer, an unknown role, somebody without valid credentials - indicators,
  enrichment records, edges, rules, alerts, actors and accounts stay as they are (only API keys
  and the audit log can change, by the caller's own keys).\<close>

theorem readers_change_nothing:
  "run_call D c call w = (r, w') \<Longrightarrow> guard_of call \<noteq> Public \<Longrightarrow>
   (\<forall>pr w1. get_current_principal (ap_auth D) (cl_bearer c) (cl_key c) w = (Inr pr, w1) \<longrightarrow>
      pr_role pr \<notin> {''admin'', ''analyst''}) \<Longrightarrow>
   content (tables w') = content (tables w)"
proof -
  assume run: "run_call D c call w = (r, w')" and g: "guard_of call \<noteq> Public"
    and no: "\<forall>pr w1. get_current_principal (ap_auth D) (cl_bearer c) (cl_key c) w = (Inr pr, w1) \<longrightarrow>
      pr_role pr \<notin> {''admin'', ''analyst''}"
  show ?thesis
  proof (cases r)
    case (Inl e)
    with run show ?thesis by (metis failed_call)
  next
    case (Inr b)
    with run obtain u w1 where a: "admit (ap_auth D) (guard_of call) c w = (Inr u, w1)"
      and e: "endpoint D u call w1 = (Inr b, w')" by (metis answered_call)
    have "reading (guard_of call)"
    proof (cases "guard_of call")
      case (Needs p)
      with a obtain pr where "get_current_principal (ap_auth D) (cl_bearer c) (cl_key c) w = (Inr pr, w1)"
        "has_permission (pr_role pr) p" by (metis admitted)
      with no Needs reading_is_all [of call] show ?thesis by auto
    qed (use g in \<open>auto simp: reading_def\<close>)
    from preservesD [OF contents.reading_kept [OF this] e] preservesD [OF admit_kept a]
    show ?thesis by simp
  qed
qed

text \<open>C1: The platform stays sound whatever happens to it: after any history of requests of any callers to
  any routes, collector tasks, clean-ups and runs of \<open>create_admin\<close>, in any order and wherever they
  fail, the accounts are unique and administrable, the indicator store is sound (unique,
  canonical, scored and explained rows), and edges and actors are unique.\<close>

theorem platform_sound:
  "system_ok (tables w) \<Longrightarrow> system_ok (tables (history hs w))"
  by (induction hs w rule: history.induct) (auto simp: step_keeps)

text \<open>C16: The audit trail is append-only within its retention: no history of requests, tasks and commands
  removes, changes or reorders a record from \<open>t\<close> on, as long as every clean-up in it keeps records
  from \<open>t\<close> on; it can only add records behind them.\<close>

theorem audit_trail_kept:
  "list_all (keeps_since t) hs \<Longrightarrow> prefix (trail_since t (tables w)) (trail_since t (tables (history hs w)))"
proof (induction hs w rule: history.induct)
  case (2 D a hs w)
  then have "prefix (trail_since t (tables (step D a w))) (trail_since t (tables (history hs (step D a w))))" by simp
  moreover have "prefix (trail_since t (tables w)) (trail_since t (tables (step D a w)))"
    using 2 by (intro step_trail) simp_all
  ultimately show ?case by simp
qed simp


section \<open>A deployment\<close>

definition demo_api ::
  "(entries, revocations, string \<times> string \<times> (string \<times> json) list, (string \<times> string \<times> edge_data) list) api_deps" where
  "demo_api =
     \<lparr>ap_auth = demo_deps 5, ap_enrich = io_enrich demo_ioc_deps, ap_alerts = demo_alert_env,
      ap_parsers = \<lparr>dp_csv = (\<lambda>s. Inr []), dp_json = (\<lambda>s. Inl type_error), dp_str = (\<lambda>j. [])\<rparr>,
      ap_graph = list_nx, ap_settings = default_settings,
      ap_outside = \<lparr>out_json = Inl type_error, out_feeds = (\<lambda>f. Inl type_error)\<rparr>,
      ap_share = demo_share, ap_dumps = (\<lambda>j. []), ap_email = Some, ap_token = (\<lambda>s. demo_token)\<rparr>"

text \<open>The holder of the analyst's API key, and nobody.\<close>

definition demo_analyst :: "(string \<times> string \<times> (string \<times> json) list) caller" where
  "demo_analyst = \<lparr>cl_bearer = None, cl_key = Some '' tip_1''\<rparr>"

definition demo_nobody :: "(string \<times> string \<times> (string \<times> json) list) caller" where
  "demo_nobody = \<lparr>cl_bearer = None, cl_key = None\<rparr>"

lemma demo_identified:
  "\<exists>pr w1. get_current_principal (ap_auth demo_api) (cl_bearer demo_analyst) (cl_key demo_analyst) demo_world =
     (Inr pr, w1) \<and> pr_role pr = ''analyst''"
proof -
  have h: "hash_api_key (ad_sha256 (demo_deps 5)) '' tip_1'' = ''tip_1''"
    by (simp add: hash_api_key_def demo_deps_def) code_simp
  show ?thesis
    by (simp add: demo_api_def demo_analyst_def get_current_principal_def resolve_api_key_def run_simps
        get_by_hash_def h one_or_none_def find_user_def update_key_def demo_world_def empty_db_def)
qed

lemma demo_system: "system_ok (tables demo_world)"
proof -
  have "iocs (tables demo_world) = []" "edges (tables demo_world) = []" "actors (tables demo_world) = []"
    "enrichments (tables demo_world) = []"
    by (simp_all add: demo_world_def empty_db_def)
  with demo_ok show ?thesis by (simp add: system_ok_def iocs_ok_def keys_ok_def edges_ok_def actors_ok_def)
qed

theorem access_enforced_witness:
  "call_status (ListUsers 10 0) (fst (run_call demo_api demo_analyst (ListUsers 10 0) demo_world)) = 403"
proof -
  obtain r w' where run: "run_call demo_api demo_analyst (ListUsers 10 0) demo_world = (r, w')" by fastforce
  from demo_identified obtain pr w1 where p:
    "get_current_principal (ap_auth demo_api) (cl_bearer demo_analyst) (cl_key demo_analyst) demo_world = (Inr pr, w1)"
    "pr_role pr = ''analyst''" by blast
  then have "\<not> has_permission (pr_role pr) AdminManage" by (simp add: permission_table)
  with access_enforced [OF run guard_of.simps(13)] p run show ?thesis by auto
qed

theorem readers_change_nothing_witness:
  "content (tables (snd (run_call demo_api demo_nobody (DeleteRule ''r1'') demo_world))) = content (tables demo_world)"
proof -
  obtain r w' where run: "run_call demo_api demo_nobody (DeleteRule ''r1'') demo_world = (r, w')" by fastforce
  have "\<forall>pr w1. get_current_principal (ap_auth demo_api) (cl_bearer demo_nobody) (cl_key demo_nobody) demo_world =
      (Inr pr, w1) \<longrightarrow> pr_role pr \<notin> {''admin'', ''analyst''}"
    by (simp add: demo_nobody_def get_current_principal_def raiseM_def)
  with readers_change_nothing [OF run _ this] run show ?thesis by simp
qed

definition demo_history :: "((entries, revocations, string \<times> string \<times> (string \<times> json) list,
    (string \<times> string \<times> edge_data) list) api_deps \<times> (string \<times> string \<times> (string \<times> json) list) activity) list" where
  "demo_history =
     [(demo_api, Request demo_analyst (RunCollector ''urlhaus'' 5 False)), (demo_api, Collector ''otx'' 3),
      (demo_api, Request demo_nobody (DeleteActor ''x'')), (demo_api, Cleanup 90), (demo_api, MakeAdmin ''x@y'' ''secret secret'')]"

theorem platform_sound_witness: "system_ok (tables (history demo_history demo_world))"
  by (rule platform_sound) (rule demo_system)

theorem audit_trail_kept_witness:
  "prefix (trail_since 0 (tables demo_world)) (trail_since 0 (tables (history demo_history demo_world)))"
  by (rule audit_trail_kept) (simp add: demo_history_def keeps_since_def demo_api_def ap_env_def demo_deps_def)


end
