(* ===== verification/Sessions.thy ===== *)
theory Sessions
  imports ApiProps
begin

text \<open>
  The state beside the tables - failed logins and revoked tokens - under everything the platform
  does: which requests touch it, how many passwords can be tried against an address, and that a
  revoked token stays refused.
\<close>

section \<open>Operations that keep a property of the whole state\<close>

named_theorems keep_intros

definition maintains :: "('x world_scheme \<Rightarrow> bool) \<Rightarrow> ('a, 'x) eff \<Rightarrow> bool" where
  "maintains Q m \<longleftrightarrow> (\<forall>w. Q w \<longrightarrow> Q (snd (m w)))"

lemma maintains_basic [keep_intros]:
  "maintains Q (returnM a)" "maintains Q (raiseM e)" "maintains Q (liftM r)"
  "maintains Q (queryM q)" "maintains Q (select_one s)"
  by (simp_all add: maintains_def run_simps)

lemma maintains_bind [keep_intros]:
  "maintains Q m \<Longrightarrow> (\<And>a. maintains Q (f a)) \<Longrightarrow> maintains Q (bindM m f)"
  unfolding maintains_def bindM_def by (auto split: prod.splits sum.splits)

lemma maintains_catch [keep_intros]:
  "maintains Q m \<Longrightarrow> (\<And>e. maintains Q (h e)) \<Longrightarrow> maintains Q (catchM m h)"
  unfolding maintains_def catchM_def by (auto split: prod.splits sum.splits)

lemma maintains_cases [keep_intros]:
  "(c \<Longrightarrow> maintains Q m) \<Longrightarrow> (\<not> c \<Longrightarrow> maintains Q n) \<Longrightarrow> maintains Q (if c then m else n)"
  "maintains Q m \<Longrightarrow> (\<And>a. maintains Q (f a)) \<Longrightarrow> maintains Q (case x of None \<Rightarrow> m | Some a \<Rightarrow> f a)"
  "(\<And>a b. maintains Q (g a b)) \<Longrightarrow> maintains Q (case p of (a, b) \<Rightarrow> g a b)"
  "(\<And>x. maintains Q (h x)) \<Longrightarrow> maintains Q (Let y h)"
  by (simp_all split: option.splits prod.splits)

lemma maintainsD: "maintains Q m \<Longrightarrow> m w = (r, w') \<Longrightarrow> Q w \<Longrightarrow> Q w'"
  unfolding maintains_def by (metis snd_conv)

section \<open>Properties that do not read the tables\<close>

locale beside_tables =
  fixes Q :: "'x world_scheme \<Rightarrow> bool"
  assumes tables: "Q (w\<lparr>tables := t\<rparr>) = Q w"
    and drawn: "Q (w\<lparr>drawn := n\<rparr>) = Q w"
    and bus: "Q (w\<lparr>bus := b\<rparr>) = Q w"
begin

lemma primitives [keep_intros]:
  "maintains Q (changeM f)" "maintains Q (fresh_id E)" "maintains Q (insertM E cols clash ins)"
  "maintains Q (publishM e)"
  by (simp_all add: maintains_def changeM_def fresh_id_def insertM_def publishM_def tables drawn bus)

lemma unit_kept [keep_intros]: "maintains Q m \<Longrightarrow> maintains Q (unit_of_work m)"
  unfolding maintains_def unit_of_work_def by (auto simp: tables split: prod.splits sum.splits)

lemma savepoint_kept [keep_intros]: "maintains Q m \<Longrightarrow> maintains Q (savepoint m)"
  unfolding savepoint_def by (rule unit_kept)

lemma audit_kept [keep_intros]: "maintains Q (record_audit E a u ip dt)"
  unfolding record_audit_def by (intro keep_intros)

lemma account_rows [keep_intros]:
  "maintains Q (add_user E u)" "maintains Q (update_user i f)" "maintains Q (add_key E kr)"
  "maintains Q (update_key i g)" "maintains Q (get_by_email e)" "maintains Q (email_exists e)"
  "maintains Q (find_user i)" "maintains Q (get_by_hash h)" "maintains Q (get_for_user k i)"
  "maintains Q (count_active_with_role r)" "maintains Q (get_user i)" "maintains Q (get_api_key i k)"
  unfolding add_user_def update_user_def add_key_def update_key_def get_user_def get_api_key_def query_defs
  by (intro keep_intros)+

lemma issue_kept [keep_intros]: "maintains Q (issue_pair J T E s r)"
  unfolding issue_pair_def encode_token_def by (intro keep_intros)

lemma account_operations [keep_intros]:
  "maintains Q (register A email pw r)" "maintains Q (set_user_role E i k ro)"
  "maintains Q (set_user_active E i k b)" "maintains Q (create_admin_main E H n email pw)"
  "maintains Q (create_api_key A i name)" "maintains Q (revoke_api_key E i k)"
  "maintains Q (resolve_api_key A raw)"
  unfolding register_def set_user_role_def set_user_active_def create_admin_main_def create_admin_def
    create_api_key_def revoke_api_key_def resolve_api_key_def
  by (intro keep_intros)+

lemma alerting [keep_intros]: "maintains Q (alert_on D r)"
proof -
  have "maintains Q (evaluate_rules AE ioc rs)" for AE ioc rs
    by (induction rs) (auto simp: raise_alert_def intro!: keep_intros)
  then show ?thesis unfolding alert_on_def evaluate_ioc_def by (intro keep_intros)
qed

lemma edge_operations [keep_intros]:
  "maintains Q (add_relationship E s t r c u)" "maintains Q (auto_correlate E k v enr src)"
proof -
  have one: "maintains Q (upsert_edge E s t r c src)" for s t r c src
    unfolding upsert_edge_def by (intro keep_intros)
  have all: "maintains Q (resolve_edges E self ips)" for self ips
    by (induction ips) (auto intro!: keep_intros one)
  show "maintains Q (add_relationship E s t r c u)" "maintains Q (auto_correlate E k v enr src)"
    unfolding add_relationship_def auto_correlate_def by (intro keep_intros one all)+
qed

lemma upsert_kept [keep_intros]: "maintains Q (upsert D q)"
  unfolding upsert_def get_by_type_value_def store_row_def add_ioc_def upsert_enrichment_def get_enrichment_def
  by (intro keep_intros)

lemma batches [keep_intros]:
  "maintains Q (ingest_from_collector D b inds)" "maintains Q (bulk_import D X im)"
  "maintains Q (rerun_enrichment D u r)"
proof -
  have all: "maintains Q (try_all D qs)" for qs
    by (induction qs) (auto simp: try_upsert_def intro!: keep_intros)
  show "maintains Q (ingest_from_collector D b inds)" "maintains Q (bulk_import D X im)"
    "maintains Q (rerun_enrichment D u r)"
    unfolding ingest_from_collector_def bulk_import_def rerun_enrichment_def by (intro keep_intros all)+
qed

lemma managed [keep_intros]:
  "maintains Q (create_rule E n m op t ch cfg)" "maintains Q (delete_rule E i)"
  "maintains Q (create_actor E a u')" "maintains Q (delete_actor E i u)"
  unfolding create_rule_def delete_rule_def create_actor_def delete_actor_def get_actor_def
  by (intro keep_intros)+

lemma tasks [keep_intros]:
  "maintains Q (task_run_collector D name limit)" "maintains Q (task_cleanup E days)"
  unfolding task_run_collector_def task_cleanup_def by (intro keep_intros)+

end

section \<open>Requests\<close>

text \<open>The tokens a request spends, with the type each is decoded as.\<close>

fun spends :: "('t, 's, 'tok, 'g) api_deps \<Rightarrow> 'tok api_call \<Rightarrow> (string \<times> 'tok) list" where
  "spends D (Refresh tok) = [(''refresh'', tok)]"
| "spends D (Logout tok header) =
     (''refresh'', tok) # (case bearer_text header of None \<Rightarrow> [] | Some t \<Rightarrow> [(''access'', ap_token D t)])"
| "spends D _ = []"

definition read_token :: "('t, 's, 'tok) auth_deps \<Rightarrow> string \<Rightarrow> 'tok \<Rightarrow> exn + token_claims" where
  "read_token A ttype tok = decode_token (ad_jwt A) (ad_tokens A) (now_at (ad_env A)) (Some ttype) tok"

definition revoke_token :: "('t, 's, 'tok) auth_deps \<Rightarrow> token_claims \<Rightarrow> ('t, 's) auth_world \<Rightarrow> (exn + unit) \<times> ('t, 's) auth_world" where
  "revoke_token A c = revoke_jti A (cl_jti c) (remaining_ttl (now_at (ad_env A)) (cl_expires_at c))"

lemma maintains_lift [keep_intros]:
  "(\<And>a. r = Inr a \<Longrightarrow> maintains Q (f a)) \<Longrightarrow> maintains Q (bindM (liftM r) f)"
  unfolding maintains_def bindM_def liftM_def by (auto split: sum.splits)

locale beside_auth = beside_tables Q for Q :: "('t, 's) auth_world \<Rightarrow> bool"
begin

lemma refresh_kept:
  assumes "\<And>j. maintains Q (jti_revoked A j)"
    and "\<And>c. read_token A ''refresh'' tok = Inr c \<Longrightarrow> maintains Q (revoke_token A c)"
  shows "maintains Q (refresh A tok)"
  unfolding refresh_def Let_def read_token_def [symmetric] revoke_token_def [symmetric]
  by (intro maintains_lift maintains_bind [OF assms(1)] maintains_bind [OF assms(2)] keep_intros) auto

lemma logout_kept:
  assumes "\<And>c. read_token A ''refresh'' tok = Inr c \<Longrightarrow> maintains Q (revoke_token A c)"
    and "\<And>t c. acc = Some t \<Longrightarrow> read_token A ''access'' t = Inr c \<Longrightarrow> maintains Q (revoke_token A c)"
  shows "maintains Q (logout A tok acc)"
  unfolding logout_def Let_def read_token_def [symmetric] revoke_token_def [symmetric]
proof (rule maintains_bind)
  show "maintains Q (case read_token A ''refresh'' tok of Inl _ \<Rightarrow> returnM ()
      | Inr c \<Rightarrow> bindM (revoke_token A c) (\<lambda>_. record_audit (ad_env A) ''auth.logout'' (Some (cl_subject c)) None []))"
    using assms(1) by (auto split: sum.splits intro!: keep_intros)
  show "maintains Q (case acc of None \<Rightarrow> returnM ()
      | Some tok \<Rightarrow> (case read_token A ''access'' tok of Inl _ \<Rightarrow> returnM ()
          | Inr c \<Rightarrow> catchM (revoke_token A c) (\<lambda>_. returnM ())))" for u :: unit
    using assms(2) by (auto split: sum.splits option.splits intro!: keep_intros)
qed

lemma authenticate_kept:
  assumes "maintains Q (is_locked A (py_lower email))" "maintains Q (retry_after A (py_lower email))"
    "maintains Q (count_failure A (py_lower email))" "maintains Q (clear_failures A (py_lower email))"
  shows "maintains Q (authenticate A email pw ip)"
  unfolding authenticate_def Let_def by (intro keep_intros assms)

lemma identify_kept:
  assumes "\<And>j. maintains Q (jti_revoked A j)"
  shows "maintains Q (get_current_principal A tok key)"
  unfolding get_current_principal_def by (intro keep_intros assms)

lemma admission_kept: "(\<And>j. maintains Q (jti_revoked A j)) \<Longrightarrow> maintains Q (admit A g c)"
  unfolding admit_def by (cases g; simp only: guard.case; intro keep_intros identify_kept)

lemma endpoint_kept:
  assumes checks: "\<And>j. maintains Q (jti_revoked (ap_auth D) j)"
    and spent: "\<And>ty tok c. (ty, tok) \<in> set (spends D call) \<Longrightarrow> read_token (ap_auth D) ty tok = Inr c \<Longrightarrow>
      maintains Q (revoke_token (ap_auth D) c)"
    and login: "\<And>email pw peer fwd ip. call = Login email pw peer fwd \<Longrightarrow>
      maintains Q (authenticate (ap_auth D) (sent_email D email) pw ip)"
  shows "maintains Q (endpoint D u call)"
proof (cases call)
  case (Login email pw peer fwd)
  with login show ?thesis by (auto simp: api_login_def intro!: keep_intros)
next
  case (Refresh tok)
  with checks spent show ?thesis by (auto simp: api_refresh_def intro!: keep_intros refresh_kept)
next
  case (Logout tok header)
  have "maintains Q (logout (ap_auth D) tok (map_option (ap_token D) (bearer_text header)))"
  proof (rule logout_kept)
    show "maintains Q (revoke_token (ap_auth D) c)" if "read_token (ap_auth D) ''refresh'' tok = Inr c" for c
      by (rule spent [OF _ that]) (simp add: Logout)
    show "maintains Q (revoke_token (ap_auth D) c)"
      if "map_option (ap_token D) (bearer_text header) = Some t" "read_token (ap_auth D) ''access'' t = Inr c" for t c
      by (rule spent [OF _ that(2)]) (use that(1) in \<open>auto simp: Logout\<close>)
  qed
  then show ?thesis by (auto simp: Logout api_logout_def intro!: keep_intros)
qed (simp only: endpoint.simps reading_endpoints writing_endpoints to_detail_def list_enrichments_def
    jsonM_def; intro keep_intros)+

lemma call_kept:
  assumes "\<And>j. maintains Q (jti_revoked (ap_auth D) j)"
    and "\<And>ty tok c. (ty, tok) \<in> set (spends D call) \<Longrightarrow> read_token (ap_auth D) ty tok = Inr c \<Longrightarrow>
      maintains Q (revoke_token (ap_auth D) c)"
    and "\<And>email pw peer fwd ip. call = Login email pw peer fwd \<Longrightarrow>
      maintains Q (authenticate (ap_auth D) (sent_email D email) pw ip)"
  shows "maintains Q (run_call D c call)"
  unfolding run_call_def
  by (intro keep_intros admission_kept [OF assms(1)] endpoint_kept [OF assms])

lemma step_kept:
  assumes "\<And>c call. a = Request c call \<Longrightarrow> maintains Q (run_call D c call)" "Q w"
  shows "Q (step D a w)"
proof (cases a)
  case (Request c call)
  with assms show ?thesis by (simp add: maintains_def)
next
  case (Collector n l)
  have "maintains Q (unit_of_work (task_run_collector D n l))" by (intro keep_intros)
  with assms(2) show ?thesis by (simp add: Collector maintains_def)
next
  case (Cleanup days)
  have "maintains Q (unit_of_work (task_cleanup (ap_env D) days))" by (intro keep_intros)
  with assms(2) show ?thesis by (simp add: Cleanup maintains_def)
next
  case (MakeAdmin email pw)
  have "maintains Q (unit_of_work (create_admin_main E H n email pw))" for E H n by (intro keep_intros)
  with assms(2) show ?thesis by (simp add: MakeAdmin maintains_def)
qed

end

section \<open>Revoked tokens\<close>

text \<open>The id is revoked until \<open>e0\<close> at least.\<close>

definition revoked_until :: "real \<Rightarrow> string \<Rightarrow> ('t, revocations) auth_world \<Rightarrow> bool" where
  "revoked_until e0 j w \<longleftrightarrow> (\<exists>e\<ge>e0. revoked_st w j = Some e)"

interpretation revoked: beside_auth "revoked_until e0 j" for e0 j
  by unfold_locales (simp_all add: revoked_until_def)

lemma throttle_revoked:
  "maintains (revoked_until e0 j) (is_locked A i)" "maintains (revoked_until e0 j) (retry_after A i)"
  "maintains (revoked_until e0 j) (count_failure A i)" "maintains (revoked_until e0 j) (clear_failures A i)"
  by (auto simp: maintains_def revoked_until_def is_locked_def retry_after_def count_failure_def
      clear_failures_def split: prod.splits)

lemma checks_revoked:
  "ad_store A = mem_store_ops \<Longrightarrow> ad_clock A < e0 \<Longrightarrow> maintains (revoked_until e0 j) (jti_revoked A k)"
  by (auto simp: maintains_def revoked_until_def jti_revoked_def mem_store_ops_def mem_is_revoked_def
      split: prod.splits option.splits if_splits)

lemma revoke_revoked:
  "ad_store A = mem_store_ops \<Longrightarrow> ad_clock A < e0 \<Longrightarrow>
   (k = j \<Longrightarrow> e0 \<le> ad_clock A + of_int (max n 1)) \<Longrightarrow> maintains (revoked_until e0 j) (revoke_jti A k n)"
  by (auto simp: maintains_def revoked_until_def revoke_jti_def mem_store_ops_def mem_revoke_def prune_def
      split: option.splits)

text \<open>
  A moment at which a token with the id \<open>j\<close> and the expiry \<open>x\<close> has more than a second to live: the
  monotonic clock is \<open>k\<close> ahead of the wall clock, and a token the activity spends that has this
  id expires then, too.
\<close>

fun spent_in :: "('t, 's, 'tok, 'g) api_deps \<Rightarrow> 'tok activity \<Rightarrow> (string \<times> 'tok) list" where
  "spent_in D (Request c call) = spends D call"
| "spent_in D _ = []"

definition alive_at ::
  "real \<Rightarrow> string \<Rightarrow> real \<Rightarrow> ('t, revocations, 'tok, 'g) api_deps \<times> 'tok activity \<Rightarrow> bool" where
  "alive_at k j x s \<longleftrightarrow>
     (case s of (D, a) \<Rightarrow> ad_store (ap_auth D) = mem_store_ops \<and>
        ad_clock (ap_auth D) = now_at (ap_env D) + k \<and> now_at (ap_env D) < x - 1 \<and>
        (\<forall>(ty, tok)\<in>set (spent_in D a). \<forall>c. read_token (ap_auth D) ty tok = Inr c \<longrightarrow> cl_jti c = j \<longrightarrow>
           cl_expires_at c = x))"

lemma remaining_bound: "now + k + of_int (max (remaining_ttl now x) 1) \<ge> x + k - 1"
  unfolding remaining_ttl_def by linarith

lemma step_revoked:
  assumes a: "alive_at k j x (D, a)" and r: "revoked_until (x + k - 1) j w"
  shows "revoked_until (x + k - 1) j (step D a w)"
proof -
  let ?A = "ap_auth D"
  have s: "ad_store ?A = mem_store_ops" and t: "ad_clock ?A = now_at (ad_env ?A) + k" "ad_clock ?A < x + k - 1"
    using a by (auto simp: alive_at_def ap_env_def)
  have rev: "maintains (revoked_until (x + k - 1) j) (revoke_token ?A c)" if "cl_jti c = j \<longrightarrow> cl_expires_at c = x" for c
    unfolding revoke_token_def by (rule revoke_revoked [OF s t(2)])
      (use that remaining_bound [of x k "now_at (ad_env ?A)"] in \<open>auto simp: t(1)\<close>)
  have "maintains (revoked_until (x + k - 1) j) (run_call D c call)" if "a = Request c call" for c call
    by (rule revoked.call_kept)
      (use a that in \<open>auto simp: alive_at_def intro!: checks_revoked [OF s t(2)] rev revoked.authenticate_kept throttle_revoked\<close>)
  then show ?thesis using r by (rule revoked.step_kept)
qed

lemma history_revoked:
  "\<forall>s\<in>set hs. alive_at k j x s \<Longrightarrow> revoked_until (x + k - 1) j w \<Longrightarrow>
   revoked_until (x + k - 1) j (history hs w)"
  by (induction hs w rule: history.induct) (auto simp: step_revoked)

text \<open>An answered request has revoked the tokens it spent.\<close>

lemma revoke_token_sets:
  "ad_store A = mem_store_ops \<Longrightarrow> ad_clock A = now_at (ad_env A) + k \<Longrightarrow>
   revoked_until (cl_expires_at c + k - 1) (cl_jti c) (snd (revoke_token A c w))"
  using remaining_bound [of "cl_expires_at c" k "now_at (ad_env A)"]
  by (auto simp: revoked_until_def revoke_token_def revoke_jti_def mem_store_ops_def mem_revoke_def)

lemma revoke_token_answers: "ad_store A = mem_store_ops \<Longrightarrow> fst (revoke_token A c w) = Inr ()"
  by (simp add: revoke_token_def revoke_jti_def mem_store_ops_def)

lemma logout_revokes:
  assumes m: "ad_store A = mem_store_ops" "ad_clock A = now_at (ad_env A) + k"
    and run: "logout A tok acc w = (Inr u, w')"
    and c: "ty = ''refresh'' \<and> read_token A ty tok = Inr c \<or>
      ty = ''access'' \<and> (\<exists>t. acc = Some t \<and> read_token A ty t = Inr c)"
    and keep: "\<And>d t. acc = Some t \<Longrightarrow> read_token A ''access'' t = Inr d \<Longrightarrow>
      maintains (revoked_until (cl_expires_at c + k - 1) (cl_jti c)) (revoke_token A d)"
  shows "revoked_until (cl_expires_at c + k - 1) (cl_jti c) w'" (is "?R w'")
proof -
  let ?first = "case read_token A ''refresh'' tok of Inl _ \<Rightarrow> returnM ()
      | Inr c \<Rightarrow> bindM (revoke_token A c) (\<lambda>_. record_audit (ad_env A) ''auth.logout'' (Some (cl_subject c)) None [])"
  let ?second = "case acc of None \<Rightarrow> returnM ()
      | Some tok \<Rightarrow> (case read_token A ''access'' tok of Inl _ \<Rightarrow> returnM ()
          | Inr c \<Rightarrow> catchM (revoke_token A c) (\<lambda>_. returnM ()))"
  obtain w1 where 1: "?first w = (Inr (), w1)" and 2: "?second w1 = (Inr u, w')"
    using run unfolding logout_def Let_def read_token_def [symmetric] revoke_token_def [symmetric] bindM_Inr
    by auto
  from c show ?thesis
  proof (elim disjE conjE exE)
    assume t: "ty = ''refresh''" "read_token A ty tok = Inr c"
    obtain w2 where w2: "revoke_token A c w = (Inr (), w2)"
      using revoke_token_answers [OF m(1), of c w] by (cases "revoke_token A c w") auto
    then have "?R w2" using revoke_token_sets [OF m, of c w] by simp
    moreover from 1 t w2 have "record_audit (ad_env A) ''auth.logout'' (Some (cl_subject c)) None [] w2 = (Inr (), w1)"
      by (simp add: bindM_def)
    ultimately have "?R w1" using maintainsD [OF revoked.audit_kept] by metis
    moreover have "maintains ?R ?second"
      using keep by (auto split: option.splits sum.splits intro!: keep_intros)
    ultimately show ?thesis using 2 by (auto intro: maintainsD)
  next
    fix t assume "ty = ''access''" "acc = Some t" "read_token A ty t = Inr c"
    with 2 have "w' = snd (revoke_token A c w1)"
      using revoke_token_answers [OF m(1), of c w1] by (auto simp: catchM_def split: prod.splits sum.splits)
    then show ?thesis using revoke_token_sets [OF m] by simp
  qed
qed

lemma call_revokes:
  assumes run: "run_call D who call w = (Inr b, w')" and sp: "(ty, tok) \<in> set (spends D call)"
    and c: "read_token (ap_auth D) ty tok = Inr c"
    and a: "alive_at k (cl_jti c) (cl_expires_at c) (D, Request who call)"
  shows "revoked_until (cl_expires_at c + k - 1) (cl_jti c) w'" (is "?R w'")
proof -
  let ?A = "ap_auth D"
  have m: "ad_store ?A = mem_store_ops" "ad_clock ?A = now_at (ad_env ?A) + k"
    and t: "ad_clock ?A < cl_expires_at c + k - 1"
    using a by (auto simp: alive_at_def ap_env_def)
  from run obtain u w1 where e: "endpoint D u call w1 = (Inr b, w')" by (metis answered_call)
  show ?thesis
  proof (cases call)
    case (Refresh r)
    with sp e have "ty = ''refresh''" "tok = r" and "\<exists>p. refresh ?A tok w1 = (Inr p, w')"
      by (auto simp: api_refresh_def bindM_Inr returnM_def)
    with c refresh_revokes [OF m(1), of tok c w1 _ w'] obtain s where
      "revoked_st w' = mem_revoke (ad_clock ?A) (cl_jti c) (remaining_ttl (now_at (ad_env ?A)) (cl_expires_at c)) s"
      unfolding read_token_def by blast
    then show ?thesis using remaining_bound [of "cl_expires_at c" k "now_at (ad_env ?A)"] m(2)
      by (auto simp: revoked_until_def mem_revoke_def)
  next
    case (Logout r header)
    with e obtain x where l: "logout ?A r (map_option (ap_token D) (bearer_text header)) w1 = (Inr x, w')"
      by (auto simp: api_logout_def bindM_Inr returnM_def)
    show ?thesis
    proof (rule logout_revokes [OF m l])
      show "ty = ''refresh'' \<and> read_token ?A ty r = Inr c \<or>
        ty = ''access'' \<and> (\<exists>t. map_option (ap_token D) (bearer_text header) = Some t \<and> read_token ?A ty t = Inr c)"
        using sp c by (cases "bearer_text header") (auto simp: Logout)
      show "maintains ?R (revoke_token ?A d)"
        if "map_option (ap_token D) (bearer_text header) = Some t" "read_token ?A ''access'' t = Inr d" for d t
      proof -
        have "(''access'', t) \<in> set (spends D call)" using that(1) by (auto simp: Logout)
        with a that(2) have "cl_jti d = cl_jti c \<longrightarrow> cl_expires_at d = cl_expires_at c"
          by (auto simp: alive_at_def)
        then show ?thesis unfolding revoke_token_def
          by (intro revoke_revoked [OF m(1) t])
            (use remaining_bound [of "cl_expires_at c" k "now_at (ad_env ?A)"] m(2) in auto)
      qed
    qed
  qed (use sp in auto)
qed

lemma dead_token:
  assumes "jti_revoked A (cl_jti d) w = (Inr True, w)"
  shows "read_token A ''refresh'' tok = Inr d \<Longrightarrow>
      refresh A tok w = (Inl (raise_app AuthenticationError (Some ''This refresh token has been revoked.'') []), w)"
    and "read_token A ''access'' tok = Inr d \<Longrightarrow>
      get_current_principal A (Some tok) key w =
        (Inl (raise_app AuthenticationError (Some ''Token has been revoked.'') []), w)"
  using assms by (simp_all add: refresh_def get_current_principal_def Let_def read_token_def run_simps)

section \<open>Properties\<close>



end
