(* ===== verification/Logins.thy ===== *)
theory Logins
  imports Sessions
begin

text \<open>
  Guessing passwords on the running platform: what every request and task does to the failure
  count of an address, and how many passwords can be tried against it.
\<close>

section \<open>A throttle that many addresses share\<close>

text \<open>
  Beyond what a throttle does for one address: addresses with the same normal form are one, and
  operations on another leave the count and the lock of an address alone.
\<close>

locale shared_throttle =
  login_throttle "op_is_locked T" "op_failure T" failures_of lock_end max_attempts lockout
  for T :: "'t throttle_ops" and failures_of :: "string \<Rightarrow> 't \<Rightarrow> int" and lock_end :: "string \<Rightarrow> 't \<Rightarrow> real"
    and max_attempts :: int and lockout :: int +
  assumes same_key: "normalise j = normalise i \<Longrightarrow> failures_of j s = failures_of i s \<and> lock_end j s = lock_end i s"
    and other_check: "normalise j \<noteq> normalise i \<Longrightarrow>
      failures_of i (snd (op_is_locked T t j s)) = failures_of i s \<and> lock_end i (snd (op_is_locked T t j s)) = lock_end i s"
    and other_failure: "normalise j \<noteq> normalise i \<Longrightarrow>
      failures_of i (op_failure T t j s) = failures_of i s \<and> lock_end i (op_failure T t j s) = lock_end i s"
    and other_success: "normalise j \<noteq> normalise i \<Longrightarrow>
      failures_of i (op_success T j s) = failures_of i s \<and> lock_end i (op_success T j s) = lock_end i s"
    and reads: "failures_of i (snd (op_retry_after T t j s)) = failures_of i s \<and>
      lock_end i (snd (op_retry_after T t j s)) = lock_end i s"

section \<open>Attempts to log in\<close>

text \<open>What an activity tries against the address \<open>i\<close> in the world it meets, if it is a login to it.\<close>

datatype attempt = Locked | Wrong | Right

definition attempt_of ::
  "string \<Rightarrow> ('t, 's, 'tok, 'g) api_deps \<Rightarrow> 'tok activity \<Rightarrow> ('t, 's) auth_world \<Rightarrow> attempt option" where
  "attempt_of i D a w =
     (case a of
        Request c (Login email pw peer fwd) \<Rightarrow>
          let A = ap_auth D; address = py_lower (sent_email D email) in
          if \<not> valid_login (ap_email D) email pw \<or> normalise address \<noteq> normalise i then None
          else if fst (op_is_locked (ad_throttle A) (ad_clock A) address (throttle_st w)) then Some Locked
          else if \<exists>u\<in>set (users (tables w)). usr_email u = address \<and>
                    verify_password (ad_argon A) (usr_password_hash u) pw then Some Right
          else Some Wrong
      | _ \<Rightarrow> None)"

fun attempts ::
  "string \<Rightarrow> (('t, 's, 'tok, 'g) api_deps \<times> 'tok activity) list \<Rightarrow> ('t, 's) auth_world \<Rightarrow> attempt list" where
  "attempts i [] w = []"
| "attempts i ((D, a) # hs) w =
     (case attempt_of i D a w of None \<Rightarrow> [] | Some x \<Rightarrow> [x]) @ attempts i hs (step D a w)"

text \<open>A login request is its service call.\<close>

lemma login_step:
  "step D (Request c (Login email pw peer fwd)) w =
     (if valid_login (ap_email D) email pw
      then snd (unit_of_work (authenticate (ap_auth D) (sent_email D email) pw
        (client_ip (proxy_trust (st_trusted_proxies (ap_settings D))) peer fwd)) w)
      else w)"
  by (auto simp: run_call_eq admit_def returnM_def api_login_def unit_of_work_def bindM_def
      split: prod.splits sum.splits)

context shared_throttle begin

text \<open>The state of an address.\<close>

definition counted :: "string \<Rightarrow> int \<Rightarrow> real \<Rightarrow> ('t, 's) auth_world \<Rightarrow> bool" where
  "counted i f l w \<longleftrightarrow> failures_of i (throttle_st w) = f \<and> lock_end i (throttle_st w) = l"

lemma counted_auth: "beside_auth (counted i f l)"
  by unfold_locales (simp_all add: counted_def)

lemma revocations_counted: "maintains (counted i f l) (jti_revoked A j)" "maintains (counted i f l) (revoke_jti A j n)"
  by (auto simp: maintains_def counted_def jti_revoked_def revoke_jti_def split: prod.splits)

lemma others_counted:
  assumes "ad_throttle A = T" "normalise j \<noteq> normalise i"
  shows "maintains (counted i f l) (is_locked A j)" "maintains (counted i f l) (retry_after A j)"
    "maintains (counted i f l) (count_failure A j)" "maintains (counted i f l) (clear_failures A j)"
  using assms other_check [OF assms(2)] other_failure [OF assms(2)] other_success [OF assms(2)] reads
  by (auto simp: maintains_def counted_def is_locked_def retry_after_def count_failure_def clear_failures_def
      split: prod.splits) (metis snd_conv)+

lemma no_attempt:
  assumes T: "ad_throttle (ap_auth D) = T" and n: "attempt_of i D a w = None"
  shows "failures_of i (throttle_st (step D a w)) = failures_of i (throttle_st w) \<and>
    lock_end i (throttle_st (step D a w)) = lock_end i (throttle_st w)"
proof (cases "\<exists>c email pw peer fwd. a = Request c (Login email pw peer fwd) \<and> \<not> valid_login (ap_email D) email pw")
  case True
  then show ?thesis by (auto simp: login_step simp del: step.simps)
next
  case False
  let ?Q = "counted i (failures_of i (throttle_st w)) (lock_end i (throttle_st w))"
  have "?Q (step D a w)"
  proof (rule beside_auth.step_kept [OF counted_auth])
    show "?Q w" by (simp add: counted_def)
    show "maintains ?Q (run_call D c call)" if a: "a = Request c call" for c call
    proof (rule beside_auth.call_kept [OF counted_auth])
      show "maintains ?Q (authenticate (ap_auth D) (sent_email D email) pw ip)"
        if "call = Login email pw peer fwd" for email pw peer fwd ip
        by (intro beside_auth.authenticate_kept [OF counted_auth] others_counted [OF T])
          (use n False a that in \<open>auto simp: attempt_of_def Let_def split: if_splits\<close>)
    qed (simp_all add: revoke_token_def revocations_counted)
  qed
  then show ?thesis by (simp add: counted_def)
qed

lemma locked_attempt:
  assumes T: "ad_throttle (ap_auth D) = T" and n: "attempt_of i D a w = Some Locked"
  shows "failures_of i (throttle_st (step D a w)) = failures_of i (throttle_st w) \<and>
    lock_end i (throttle_st (step D a w)) = lock_end i (throttle_st w)"
proof -
  let ?A = "ap_auth D"
  obtain c email pw peer fwd where a: "a = Request c (Login email pw peer fwd)" "valid_login (ap_email D) email pw"
    and k: "normalise (py_lower (sent_email D email)) = normalise i"
    and l: "fst (op_is_locked T (ad_clock ?A) (py_lower (sent_email D email)) (throttle_st w))"
    using n T by (auto simp: attempt_of_def Let_def split: activity.splits api_call.splits if_splits)
  let ?j = "py_lower (sent_email D email)"
  obtain s where s: "op_is_locked T (ad_clock ?A) ?j (throttle_st w) = (True, s)"
    using l by (metis (full_types) prod.collapse)
  have "throttle_st (step D a w) = snd (op_retry_after T (ad_clock ?A) ?j s)"
    unfolding a login_step
    by (simp add: a(2) authenticate_def Let_def unit_of_work_def is_locked_def retry_after_def T s run_simps
        split: prod.splits)
  with locked_keeps [OF s] same_key [OF k] reads show ?thesis by metis
qed

lemma wrong_attempt:
  assumes T: "ad_throttle (ap_auth D) = T" and ok: "accounts_ok (tables w)" and n: "attempt_of i D a w = Some Wrong"
  obtains j s where "normalise j = normalise i"
    "op_is_locked T (ad_clock (ap_auth D)) j (throttle_st w) = (False, s)"
    "throttle_st (step D a w) = op_failure T (ad_clock (ap_auth D)) j s"
proof -
  let ?A = "ap_auth D"
  obtain c email pw peer fwd where a: "a = Request c (Login email pw peer fwd)" "valid_login (ap_email D) email pw"
    and k: "normalise (py_lower (sent_email D email)) = normalise i"
    and l: "\<not> fst (op_is_locked T (ad_clock ?A) (py_lower (sent_email D email)) (throttle_st w))"
    and v: "\<forall>u\<in>set (users (tables w)). usr_email u = py_lower (sent_email D email) \<longrightarrow>
      \<not> verify_password (ad_argon ?A) (usr_password_hash u) pw"
    using n T by (auto simp: attempt_of_def Let_def split: activity.splits api_call.splits if_splits)
  obtain s where s: "op_is_locked T (ad_clock ?A) (py_lower (sent_email D email)) (throttle_st w) = (False, s)"
    using l by (metis (full_types) prod.collapse)
  have "distinct (map usr_email (users (tables w)))" using ok by (simp add: accounts_ok_def)
  from failed_login_run [OF s [folded T] this v] have
    "throttle_st (snd (unit_of_work (authenticate ?A (sent_email D email) pw ip) w)) =
      op_failure T (ad_clock ?A) (py_lower (sent_email D email)) s" for ip by (metis T snd_conv)
  then show ?thesis by (intro that [OF k s]) (simp add: a login_step del: step.simps)
qed

lemma wrong_bounded:
  assumes w: "0 \<le> b" "1 \<le> max_attempts" "e \<le> b + of_int lockout"
    and t: "\<forall>(D, a)\<in>set hs. ad_throttle (ap_auth D) = T \<and> b \<le> ad_clock (ap_auth D) \<and> ad_clock (ap_auth D) < e"
    and ok: "system_ok (tables w)" and r: "Right \<notin> set (attempts i hs w)"
  shows "int (count_list (attempts i hs w) Wrong) \<le> left e i (throttle_st w)"
  using t ok r
proof (induction i hs w rule: attempts.induct)
  case (1 i w)
  show ?case using left_nonneg [OF w(2)] by simp
next
  case (2 i D a hs w)
  have T: "ad_throttle (ap_auth D) = T" and c: "b \<le> ad_clock (ap_auth D)" "ad_clock (ap_auth D) < e"
    using 2 by auto
  have ok: "system_ok (tables (step D a w))" using 2 by (intro step_keeps)
  with 2 have IH: "int (count_list (attempts i hs (step D a w)) Wrong) \<le> left e i (throttle_st (step D a w))"
    by (auto split: option.splits)
  show ?case
  proof (cases "attempt_of i D a w")
    case None
    then have "left e i (throttle_st (step D a w)) = left e i (throttle_st w)"
      using no_attempt [OF T None] by (simp add: left_def)
    with IH None show ?thesis by simp
  next
    case (Some x)
    with 2 consider "x = Locked" | "x = Wrong" by (cases x) auto
    then show ?thesis
    proof cases
      case 1
      then have "left e i (throttle_st (step D a w)) = left e i (throttle_st w)"
        using locked_attempt [OF T Some [unfolded 1]] by (simp add: left_def)
      with IH Some 1 show ?thesis by simp
    next
      case 2
      have "accounts_ok (tables w)" using "2.prems"(2) by (simp add: system_ok_def)
      from wrong_attempt [OF T this Some [unfolded 2]] obtain j s where
        k: "normalise j = normalise i" and s: "op_is_locked T (ad_clock (ap_auth D)) j (throttle_st w) = (False, s)"
        "throttle_st (step D a w) = op_failure T (ad_clock (ap_auth D)) j s" by metis
      have "left e j x = left e i x" for x using same_key [OF k] by (simp add: left_def)
      with guess_costs_one [OF w c c(1) s(1)] s(2) IH Some 2 show ?thesis by simp
    qed
  qed
qed

end

section \<open>The deployed throttle\<close>

interpretation local: shared_throttle "local_throttle (mem_throttle k l)"
  "\<lambda>i s. entry_failures i (fst s)" "\<lambda>i s. entry_lock_end i (fst s)" k l
  for k l
  by unfold_locales
    (auto simp: local_throttle_def mem_throttle_def throttle_defs split: option.splits if_splits prod.splits)

interpretation remote: shared_throttle "redis_throttle ops k l"
  "\<lambda>i s. entry_failures i (fst s)" "\<lambda>i s. entry_lock_end i (fst s)" k l
  for ops :: "'r redis" and k l
proof -
  have "login_throttle (op_is_locked (redis_throttle ops k l)) (op_failure (redis_throttle ops k l))
      (\<lambda>i s. entry_failures i (fst s)) (\<lambda>i s. entry_lock_end i (fst s)) k l"
    unfolding redis_throttle_def throttle_ops.simps by (rule red.login_throttle_axioms)
  moreover have "shared_throttle_axioms (redis_throttle ops k l) (\<lambda>i s. entry_failures i (fst s))
      (\<lambda>i s. entry_lock_end i (fst s))"
    by unfold_locales
      (auto simp: redis_throttle_def redis_is_locked_def redis_retry_after_def redis_record_failure_def
        redis_record_success_def throttle_defs split: option.splits if_splits prod.splits sum.splits bool.splits)
  ultimately show "shared_throttle (redis_throttle ops k l) (\<lambda>i s. entry_failures i (fst s))
      (\<lambda>i s. entry_lock_end i (fst s)) k l"
    by (rule shared_throttle.intro)
qed

interpretation deployed: shared_throttle "get_login_throttle st connect"
  "\<lambda>i s. entry_failures i (fst s)" "\<lambda>i s. entry_lock_end i (fst s)" 5 300
  for st and connect :: "string \<Rightarrow> 'r redis option"
  unfolding get_login_throttle_def
  by (auto split: option.splits intro: local.shared_throttle_axioms remote.shared_throttle_axioms)

section \<open>Properties\<close>


text \<open>The demonstration deployment with the throttle its settings choose.\<close>

definition demo_deployed ::
  "real \<Rightarrow> (entries \<times> unit, revocations, string \<times> string \<times> (string \<times> json) list, (string \<times> string \<times> edge_data) list) api_deps" where
  "demo_deployed t =
     \<lparr>ap_auth =
        \<lparr>ad_env = ad_env (demo_deps t), ad_clock = t, ad_open_registration = True, ad_default_role = ''viewer'',
         ad_argon = demo_argon, ad_salt = 0, ad_jwt = plain_jwt, ad_tokens = ad_tokens (demo_deps t),
         ad_throttle = get_login_throttle default_settings (\<lambda>url. None), ad_store = mem_store_ops,
         ad_sha256 = (\<lambda>s. s), ad_random = ''r''\<rparr>,
      ap_enrich = ap_enrich demo_api, ap_alerts = ap_alerts demo_api, ap_parsers = ap_parsers demo_api,
      ap_graph = list_nx, ap_settings = default_settings, ap_outside = ap_outside demo_api,
      ap_share = ap_share demo_api, ap_dumps = ap_dumps demo_api, ap_email = Some, ap_token = (\<lambda>s. demo_token)\<rparr>"

definition demo_deployed_world :: "(entries \<times> unit, revocations) auth_world" where
  "demo_deployed_world =
     \<lparr>tables = tables demo_world, drawn = 0, bus = new_bus 1, throttle_st = (Map.empty, ()), revoked_st = Map.empty\<rparr>"


end
