(* ===== verification/Paths.thy ===== *)
theory Paths
  imports Routes
begin

text \<open>
  The paths of the routes: the prefixes of \<open>app/api/v1/router.py\<close> and the templates of the
  decorators of \<open>app/api/v1\<close>.  Which route answers is the router's to choose; the model has the
  routes whose template fits a path.
\<close>

datatype http_method = GET | POST | PATCH | DELETE

text \<open>
  A segment of a path: a literal, or a parameter behind a literal prefix - a parameter takes one
  character or more, none of them a slash.
\<close>

datatype segment = Lit string | Param string

type_synonym route = "http_method \<times> segment list"

text \<open>What a decorator declares: the route, its guard and the status of its success.\<close>

type_synonym declared_route = "route \<times> guard \<times> nat"

section \<open>The routers\<close>

definition system_router :: "declared_route list" where
  "system_router =
     [((GET, [Lit ''health'']), Public, 200),
      ((GET, [Lit ''ready'']), Public, 200),
      ((GET, [Lit ''collectors'']), Public, 200)]"

definition admin_router :: "declared_route list" where
  "admin_router =
     [((GET, [Lit ''users'']), Needs AdminManage, 200),
      ((GET, [Lit ''users'', Param []]), Needs AdminManage, 200),
      ((PATCH, [Lit ''users'', Param [], Lit ''role'']), Needs AdminManage, 200),
      ((PATCH, [Lit ''users'', Param [], Lit ''active'']), Needs AdminManage, 200)]"

definition auth_router :: "declared_route list" where
  "auth_router =
     [((POST, [Lit ''register'']), Public, 201),
      ((POST, [Lit ''login'']), Public, 200),
      ((POST, [Lit ''refresh'']), Public, 200),
      ((POST, [Lit ''logout'']), Public, 204),
      ((GET, [Lit ''me'']), Authenticated, 200),
      ((POST, [Lit ''api-keys'']), Authenticated, 201),
      ((GET, [Lit ''api-keys'']), Authenticated, 200),
      ((GET, [Lit ''api-keys'', Param []]), Authenticated, 200),
      ((DELETE, [Lit ''api-keys'', Param []]), Authenticated, 204)]"

definition ioc_router :: "declared_route list" where
  "ioc_router =
     [((POST, []), Needs IocWrite, 200),
      ((POST, [Lit ''extract'']), Needs IocRead, 200),
      ((POST, [Lit ''bulk'']), Needs IocWrite, 200),
      ((POST, [Lit ''lookup'']), Needs IocRead, 200),
      ((GET, []), Needs IocRead, 200),
      ((GET, [Param []]), Needs IocRead, 200),
      ((GET, [Param [], Lit ''explain'']), Needs IocRead, 200),
      ((POST, [Param [], Lit ''enrich'']), Needs EnrichRun, 200)]"

definition collectors_router :: "declared_route list" where
  "collectors_router =
     [((POST, [Param [], Lit ''run'']), Needs CollectorRun, 200)]"

definition correlation_router :: "declared_route list" where
  "correlation_router =
     [((POST, [Lit ''relationships'']), Needs IocWrite, 201),
      ((GET, [Lit ''neighbors'']), Needs IocRead, 200),
      ((GET, [Lit ''attack-chain'']), Needs IocRead, 200),
      ((GET, [Lit ''pivot'']), Needs IocRead, 200),
      ((GET, [Lit ''graph'']), Needs IocRead, 200)]"

definition alerts_router :: "declared_route list" where
  "alerts_router =
     [((POST, [Lit ''rules'']), Needs AlertManage, 201),
      ((GET, [Lit ''rules'']), Needs AlertRead, 200),
      ((DELETE, [Lit ''rules'', Param []]), Needs AlertManage, 204),
      ((GET, []), Needs AlertRead, 200)]"

definition stream_router :: "declared_route list" where
  "stream_router =
     [((GET, [Lit ''alerts'']), Needs AlertRead, 200)]"

definition threat_actors_router :: "declared_route list" where
  "threat_actors_router =
     [((POST, []), Needs IocWrite, 201),
      ((GET, []), Needs IocRead, 200),
      ((GET, [Param []]), Needs IocRead, 200),
      ((DELETE, [Param []]), Needs IocWrite, 204)]"

definition dashboard_router :: "declared_route list" where
  "dashboard_router =
     [((GET, [Lit ''stats'']), Authenticated, 200),
      ((GET, [Lit ''top'']), Authenticated, 200)]"

definition reports_router :: "declared_route list" where
  "reports_router =
     [((GET, [Param ''iocs.'']), Needs ReportGenerate, 200)]"

definition include_router :: "string \<Rightarrow> declared_route list \<Rightarrow> declared_route list" where
  "include_router name rs = map (\<lambda>((m, ps), x). ((m, Lit name # ps), x)) rs"

definition api_router :: "declared_route list" where
  "api_router =
     system_router @ include_router ''admin'' admin_router @ include_router ''auth'' auth_router @
     include_router ''iocs'' ioc_router @ include_router ''collectors'' collectors_router @
     include_router ''correlation'' correlation_router @ include_router ''alerts'' alerts_router @
     include_router ''stream'' stream_router @ include_router ''threat-actors'' threat_actors_router @
     include_router ''dashboard'' dashboard_router @ include_router ''reports'' reports_router"

section \<open>Templates and paths\<close>

fun seg_match :: "segment \<Rightarrow> string \<Rightarrow> bool" where
  "seg_match (Lit l) s \<longleftrightarrow> s = l"
| "seg_match (Param pre) s \<longleftrightarrow> startswith s pre \<and> length pre < length s"

fun route_match :: "segment list \<Rightarrow> string list \<Rightarrow> bool" where
  "route_match [] [] \<longleftrightarrow> True"
| "route_match (p # ps) (s # ss) \<longleftrightarrow> seg_match p s \<and> route_match ps ss"
| "route_match _ _ \<longleftrightarrow> False"

text \<open>The routes below the prefix that a path fits, in the order of their declaration.\<close>

definition fitting_routes :: "string \<Rightarrow> http_method \<Rightarrow> string \<Rightarrow> declared_route list" where
  "fitting_routes pre m path =
     (if \<not> startswith path pre then []
      else case split_on CHR ''/'' (drop (length pre) path) of
        [] # ss \<Rightarrow> filter (\<lambda>((m', ps), x). m' = m \<and> route_match ps ss) api_router
      | _ \<Rightarrow> [])"

section \<open>The routes of the calls\<close>

fun route_of :: "'tok api_call \<Rightarrow> route" where
  "route_of Health = (GET, [Lit ''health''])"
| "route_of Ready = (GET, [Lit ''ready''])"
| "route_of ListCollectors = (GET, [Lit ''collectors''])"
| "route_of (Register email pw) = (POST, [Lit ''auth'', Lit ''register''])"
| "route_of (Login email pw peer fwd) = (POST, [Lit ''auth'', Lit ''login''])"
| "route_of (Refresh tok) = (POST, [Lit ''auth'', Lit ''refresh''])"
| "route_of (Logout tok header) = (POST, [Lit ''auth'', Lit ''logout''])"
| "route_of Me = (GET, [Lit ''auth'', Lit ''me''])"
| "route_of (CreateKey name) = (POST, [Lit ''auth'', Lit ''api-keys''])"
| "route_of ListKeys = (GET, [Lit ''auth'', Lit ''api-keys''])"
| "route_of (GetKey k) = (GET, [Lit ''auth'', Lit ''api-keys'', Param []])"
| "route_of (RevokeKey k) = (DELETE, [Lit ''auth'', Lit ''api-keys'', Param []])"
| "route_of (ListUsers limit offset) = (GET, [Lit ''admin'', Lit ''users''])"
| "route_of (GetUser i) = (GET, [Lit ''admin'', Lit ''users'', Param []])"
| "route_of (SetRole i r) = (PATCH, [Lit ''admin'', Lit ''users'', Param [], Lit ''role''])"
| "route_of (SetActive i b) = (PATCH, [Lit ''admin'', Lit ''users'', Param [], Lit ''active''])"
| "route_of (CreateIoc p) = (POST, [Lit ''iocs''])"
| "route_of (ExtractIocs content fmt) = (POST, [Lit ''iocs'', Lit ''extract''])"
| "route_of (BulkImport b) = (POST, [Lit ''iocs'', Lit ''bulk''])"
| "route_of (LookupIoc v) = (POST, [Lit ''iocs'', Lit ''lookup''])"
| "route_of (SearchIocs q page page_size) = (GET, [Lit ''iocs''])"
| "route_of (GetIoc i) = (GET, [Lit ''iocs'', Param []])"
| "route_of (ExplainIoc i) = (GET, [Lit ''iocs'', Param [], Lit ''explain''])"
| "route_of (EnrichIoc i) = (POST, [Lit ''iocs'', Param [], Lit ''enrich''])"
| "route_of (RunCollector name limit enrich) = (POST, [Lit ''collectors'', Param [], Lit ''run''])"
| "route_of (AddRelationship r) = (POST, [Lit ''correlation'', Lit ''relationships''])"
| "route_of (Neighbors r) = (GET, [Lit ''correlation'', Lit ''neighbors''])"
| "route_of (AttackChain r s) = (GET, [Lit ''correlation'', Lit ''attack-chain''])"
| "route_of (Pivot t v depth) = (GET, [Lit ''correlation'', Lit ''pivot''])"
| "route_of Graph = (GET, [Lit ''correlation'', Lit ''graph''])"
| "route_of (CreateRule c) = (POST, [Lit ''alerts'', Lit ''rules''])"
| "route_of ListRules = (GET, [Lit ''alerts'', Lit ''rules''])"
| "route_of (DeleteRule i) = (DELETE, [Lit ''alerts'', Lit ''rules'', Param []])"
| "route_of (ListAlerts limit offset) = (GET, [Lit ''alerts''])"
| "route_of (StreamAlerts heartbeat) = (GET, [Lit ''stream'', Lit ''alerts''])"
| "route_of (CreateActor a) = (POST, [Lit ''threat-actors''])"
| "route_of ListActors = (GET, [Lit ''threat-actors''])"
| "route_of (GetActor i) = (GET, [Lit ''threat-actors'', Param []])"
| "route_of (DeleteActor i) = (DELETE, [Lit ''threat-actors'', Param []])"
| "route_of Stats = (GET, [Lit ''dashboard'', Lit ''stats''])"
| "route_of (Top limit) = (GET, [Lit ''dashboard'', Lit ''top''])"
| "route_of (Export fmt q limit) = (GET, [Lit ''reports'', Param ''iocs.''])"

definition declared_for :: "'tok api_call \<Rightarrow> declared_route" where
  "declared_for call = (route_of call, guard_of call, success_status call)"

text \<open>What a call writes into the parameter of its path, if it has one.\<close>

fun path_arg :: "'tok api_call \<Rightarrow> string" where
  "path_arg (GetKey k) = k"
| "path_arg (RevokeKey k) = k"
| "path_arg (GetUser i) = i"
| "path_arg (SetRole i r) = i"
| "path_arg (SetActive i b) = i"
| "path_arg (GetIoc i) = i"
| "path_arg (ExplainIoc i) = i"
| "path_arg (EnrichIoc i) = i"
| "path_arg (RunCollector name limit enrich) = name"
| "path_arg (DeleteRule i) = i"
| "path_arg (GetActor i) = i"
| "path_arg (DeleteActor i) = i"
| "path_arg (Export fmt q limit) = fmt"
| "path_arg _ = ''-''"

fun fill :: "string \<Rightarrow> segment \<Rightarrow> string" where
  "fill a (Lit l) = l"
| "fill a (Param pre) = pre @ a"

definition url_path :: "string \<Rightarrow> 'tok api_call \<Rightarrow> string" where
  "url_path pre call = pre @ concat (map (\<lambda>s. CHR ''/'' # fill (path_arg call) s) (snd (route_of call)))"

section \<open>Lemmas\<close>

lemmas routers = api_router_def include_router_def system_router_def admin_router_def auth_router_def ioc_router_def
  collectors_router_def correlation_router_def alerts_router_def stream_router_def threat_actors_router_def
  dashboard_router_def reports_router_def

lemma split_segments:
  "\<forall>s\<in>set ss. CHR ''/'' \<notin> set s \<Longrightarrow>
   split_on CHR ''/'' (concat (map (\<lambda>s. CHR ''/'' # s) ss)) = [] # ss"
proof (induction ss)
  case (Cons s ss)
  show ?case
  proof (cases ss)
    case Nil
    with Cons.prems show ?thesis by (simp add: split_on_single)
  next
    case (Cons t ts)
    with Cons.IH Cons.prems have "split_on CHR ''/'' (t @ concat (map (\<lambda>s. CHR ''/'' # s) ts)) = ss" by simp
    with Cons Cons.prems show ?thesis
      using split_on_app [of "CHR ''/''" s "t @ concat (map (\<lambda>s. CHR ''/'' # s) ts)"] by (simp add: split_on_single)
  qed
qed simp

lemma plain_route:
  "CHR ''/'' \<notin> set a \<Longrightarrow> p \<in> set (snd (route_of call)) \<Longrightarrow> CHR ''/'' \<notin> set (fill a p)"
  by (cases call) auto

lemma fitting_path:
  assumes "CHR ''/'' \<notin> set (path_arg call)"
  shows "fitting_routes pre m (url_path pre call) =
    filter (\<lambda>((m', ps), x). m' = m \<and> route_match ps (map (fill (path_arg call)) (snd (route_of call)))) api_router"
proof -
  have "\<forall>s\<in>set (map (fill (path_arg call)) (snd (route_of call))). CHR ''/'' \<notin> set s"
    using plain_route [OF assms] by auto
  from split_segments [OF this] show ?thesis
    by (simp add: fitting_routes_def url_path_def startswith_def comp_def)
qed

section \<open>Properties\<close>

text \<open>C40: Every request has its own endpoint: whatever identifier or format a caller writes into a path (not
  empty, and without a slash), exactly one route fits it, that of the call - with the guard and
  the success status its decorator declares - so no route shadows another in whatever order they
  are tried; no route is declared twice, and the calls of the model are all the routes there are.\<close>

theorem routes_unambiguous:
  "distinct (map fst api_router) \<and> range (declared_for :: 'tok api_call \<Rightarrow> declared_route) = set api_router \<and>
   (\<forall>call :: 'tok api_call. path_arg call \<noteq> [] \<longrightarrow> CHR ''/'' \<notin> set (path_arg call) \<longrightarrow>
      fitting_routes pre (fst (route_of call)) (url_path pre call) = [declared_for call])"
proof (intro conjI allI impI)
  show d: "distinct (map fst api_router)" by (simp add: routers)
  have mem: "declared_for call \<in> set api_router" for call :: "'tok api_call"
    by (cases call) (simp_all add: routers declared_for_def)
  have "fst ` set api_router \<subseteq> range (route_of :: 'tok api_call \<Rightarrow> route)"
    unfolding routers list.map prod.case append.simps list.set insert_subset image_insert image_empty fst_conv
    by (intro conjI empty_subsetI; rule range_eqI; rule route_of.simps [symmetric])
  then have "\<exists>call :: 'tok api_call. x = declared_for call" if "x \<in> set api_router" for x
  proof -
    assume r: "fst ` set api_router \<subseteq> range (route_of :: 'tok api_call \<Rightarrow> route)"
    with that obtain call :: "'tok api_call" where "fst x = fst (declared_for call)"
      by (force simp: declared_for_def)
    with d that mem [of call] show ?thesis by (auto simp: distinct_map dest: inj_onD)
  qed
  then have "set api_router \<subseteq> range (declared_for :: 'tok api_call \<Rightarrow> declared_route)" by blast
  with mem show "range (declared_for :: 'tok api_call \<Rightarrow> declared_route) = set api_router" by auto
  fix call :: "'tok api_call"
  assume a: "path_arg call \<noteq> []" "CHR ''/'' \<notin> set (path_arg call)"
  show "fitting_routes pre (fst (route_of call)) (url_path pre call) = [declared_for call]"
    unfolding fitting_path [OF a(2)] using a
    by (cases call) (simp_all add: routers startswith_def declared_for_def)
qed

theorem routes_unambiguous_witness:
  "fitting_routes ''/api/v1'' GET (url_path ''/api/v1'' (GetIoc ''lookup'' :: unit api_call)) =
     [((GET, [Lit ''iocs'', Param []]), Needs IocRead, 200)]"
  using routes_unambiguous [where 'tok = unit, THEN conjunct2, THEN conjunct2, THEN spec, of "GetIoc ''lookup''" "''/api/v1''"]
  by (simp add: declared_for_def)

end
