(* ===== verification/Http.thy ===== *)
theory Http
  imports Paths ApiProps
begin

text \<open>
  An HTTP request from arrival to answer: the middleware that \<open>create_app\<close> of \<open>app/main.py\<close> stacks
  around the routes - request context, CORS, rate limiter - and the handlers of
  \<open>app/api/errors.py\<close>.  Starlette runs the handlers of \<open>Exception\<close> outside every other middleware.
  \<open>CORSMiddleware\<close> is Starlette's; \<open>cors\<close> is what it does to the headers of an answer (a preflight
  request, which it answers itself, does not come here).
\<close>

record arrival =
  ar_peer :: "string option"
  ar_forwarded :: string
  ar_request_id :: "string option"
  ar_proto :: "string option"
  ar_scheme :: string
  ar_uuid :: string
  ar_elapsed :: string

record 'tok http_answer =
  an_status :: nat
  an_headers :: headers
  an_body :: "'tok body"

text \<open>The headers an endpoint or a handler sets itself.\<close>

definition sse_headers :: headers where
  "sse_headers =
     [(''cache-control'', ''no-cache, no-transform''), (''connection'', ''keep-alive''), (''x-accel-buffering'', ''no'')]"

fun own_headers :: "'tok body \<Rightarrow> headers" where
  "own_headers (Text text media (Some file)) = [(''content-disposition'', ''attachment; filename='' @ file)]"
| "own_headers EventStream = sse_headers"
| "own_headers _ = []"

definition lower_names :: "headers \<Rightarrow> headers" where
  "lower_names h = map (\<lambda>(k, v). (py_lower k, v)) h"

definition answer_of :: "http_response \<Rightarrow> 'tok http_answer" where
  "answer_of r = \<lparr>an_status = resp_status r, an_headers = lower_names (resp_headers r), an_body = Json (resp_body r)\<rparr>"

definition rate_limited :: "int \<Rightarrow> 'tok http_answer" where
  "rate_limited n =
     \<lparr>an_status = status_of RateLimitError, an_headers = [(''retry-after'', show_int n)],
      an_body = Json (to_dict (raise_app RateLimitError None []))\<rparr>"

text \<open>The routed part: an answer, or an exception no handler inside the middleware takes.\<close>

definition routed ::
  "('t, 's, 'tok, 'g) api_deps \<Rightarrow> 'tok caller \<Rightarrow> 'tok api_call \<Rightarrow> ('t, 's) auth_world \<Rightarrow>
   (exn + 'tok http_answer) \<times> ('t, 's) auth_world" where
  "routed D who call w =
     (case run_call D who call w of
        (Inr b, w') \<Rightarrow> (Inr \<lparr>an_status = success_status call, an_headers = own_headers b, an_body = b\<rparr>, w')
      | (Inl e, w') \<Rightarrow>
          (if e = request_error then Inr (answer_of (handle_validation JNull))
           else case e of AppExc c m ds \<Rightarrow> Inr (answer_of (handle_error e)) | PyExc k m \<Rightarrow> Inl e, w'))"

definition rate_decision ::
  "('t, 's, 'tok, 'g) api_deps \<Rightarrow> arrival \<Rightarrow> 'tok api_call \<Rightarrow> limiter \<Rightarrow> rl_decision \<times> limiter" where
  "rate_decision D q call l =
     (let S = ap_settings D in
      rl_dispatch (url_path (st_prefix S) call)
        (client_ip (proxy_trust (st_trusted_proxies S)) (ar_peer q) (ar_forwarded q)) (ad_clock (ap_auth D)) l)"

definition limited ::
  "('t, 's, 'tok, 'g) api_deps \<Rightarrow> arrival \<Rightarrow> 'tok caller \<Rightarrow> 'tok api_call \<Rightarrow> limiter \<times> ('t, 's) auth_world \<Rightarrow>
   (exn + 'tok http_answer) \<times> limiter \<times> ('t, 's) auth_world" where
  "limited D q who call s =
     (case rate_decision D q call (fst s) of
        (Refuse n, l) \<Rightarrow> (Inr (rate_limited n), l, snd s)
      | (Pass, l) \<Rightarrow> (case routed D who call (snd s) of (r, w) \<Rightarrow> (r, l, w)))"

definition dressed :: "(headers \<Rightarrow> headers) \<Rightarrow> arrival \<Rightarrow> 'tok http_answer \<Rightarrow> 'tok http_answer" where
  "dressed cors q a =
     a\<lparr>an_headers := context_dispatch (ar_request_id q) (ar_uuid q) (ar_elapsed q) (ar_proto q) (ar_scheme q)
         (cors (an_headers a))\<rparr>"

definition serve_http ::
  "('t, 's, 'tok, 'g) api_deps \<Rightarrow> (headers \<Rightarrow> headers) \<Rightarrow> arrival \<Rightarrow> 'tok caller \<Rightarrow> 'tok api_call \<Rightarrow>
   limiter \<times> ('t, 's) auth_world \<Rightarrow> 'tok http_answer \<times> limiter \<times> ('t, 's) auth_world" where
  "serve_http D cors q who call s =
     (case limited D q who call s of
        (Inr a, s') \<Rightarrow> (dressed cors q a, s')
      | (Inl e, s') \<Rightarrow> (answer_of (handle_error e), s'))"

section \<open>Headers\<close>

lemma default_keeps: "map_of h k = Some v \<Longrightarrow> map_of (set_default n x h) k = Some v"
  by (simp add: set_default_def map_add_def)

lemma default_present:
  "map_of (set_default n x h) (py_lower n) \<noteq> None"
  "map_of h k \<noteq> None \<Longrightarrow> map_of (set_default n x h) k \<noteq> None"
  by (auto simp: set_default_def map_add_def)

lemma map_of_set_header: "map_of (set_header k v h) = (map_of h)(py_lower k \<mapsto> v)"
proof (induction h)
  case (Cons x h)
  have "map_of (filter (\<lambda>y. fst y \<noteq> c) h) = (map_of h)(c := None)" for c
    by (induction h) (auto simp: fun_eq_iff)
  with Cons show ?case by (cases x) (auto simp: fun_eq_iff)
qed simp

text \<open>The security headers are there, and those that were there stay.\<close>

lemma lower_header_names:
  "py_lower ''X-Content-Type-Options'' = ''x-content-type-options''" "py_lower ''X-Frame-Options'' = ''x-frame-options''"
  "py_lower ''Referrer-Policy'' = ''referrer-policy''" "py_lower ''Content-Security-Policy'' = ''content-security-policy''"
  "py_lower ''Strict-Transport-Security'' = ''strict-transport-security''" "py_lower ''x-request-id'' = ''x-request-id''"
  "py_lower ''x-response-time-ms'' = ''x-response-time-ms''"
  by code_simp+

definition security_headers :: "string list" where
  "security_headers = [''x-content-type-options'', ''x-frame-options'', ''referrer-policy'', ''content-security-policy'']"

lemma security_applied: "k \<in> set security_headers \<Longrightarrow> map_of (apply_security_headers b h) k \<noteq> None"
proof -
  assume "k \<in> set security_headers"
  then have k: "k \<in> set (map py_lower [''X-Content-Type-Options'', ''X-Frame-Options'', ''Referrer-Policy'',
      ''Content-Security-Policy''])"
    unfolding list.map lower_header_names security_headers_def .
  have "map_of (apply_security_headers b h) (py_lower n) \<noteq> None"
    if "n \<in> set [''X-Content-Type-Options'', ''X-Frame-Options'', ''Referrer-Policy'', ''Content-Security-Policy'']" for n
    unfolding apply_security_headers_def Let_def
    by (insert that [unfolded list.set], elim insertE emptyE; hypsubst; cases b; simp only: if_True if_False;
        (rule default_present(1) | rule default_present(2))+)
  with k show ?thesis unfolding set_map by (elim imageE) blast
qed

lemma security_keeps: "map_of h k = Some v \<Longrightarrow> map_of (apply_security_headers b h) k = Some v"
  unfolding apply_security_headers_def Let_def by (cases b) (simp_all only: if_True if_False default_keeps)

lemma context_headers:
  "map_of (context_dispatch i uuid el proto sc h) ''x-request-id'' =
     Some (case i of Some x \<Rightarrow> if x = [] then uuid else x | None \<Rightarrow> uuid)"
  "k \<in> set security_headers \<Longrightarrow> map_of (context_dispatch i uuid el proto sc h) k \<noteq> None"
  unfolding context_dispatch_def Let_def
  by (intro security_keeps, simp add: map_of_set_header lower_header_names) (rule security_applied)

lemma dressed_headers:
  "an_status (dressed cors q x) = an_status x"
  "map_of (an_headers (dressed cors q x)) ''x-request-id'' =
     Some (case ar_request_id q of Some i \<Rightarrow> if i = [] then ar_uuid q else i | None \<Rightarrow> ar_uuid q)"
  "\<forall>k\<in>set security_headers. map_of (an_headers (dressed cors q x)) k \<noteq> None"
  using context_headers by (simp_all add: dressed_def)

section \<open>Sequences of requests\<close>

type_synonym ('t, 's, 'tok, 'g) incoming =
  "('t, 's, 'tok, 'g) api_deps \<times> (headers \<Rightarrow> headers) \<times> arrival \<times> 'tok caller \<times> 'tok api_call"

fun incoming_clock :: "('t, 's, 'tok, 'g) incoming \<Rightarrow> real" where
  "incoming_clock (D, cors, q, who, call) = ad_clock (ap_auth D)"

text \<open>Who a request counts against, unless its path is exempt.\<close>

definition metered :: "('t, 's, 'tok, 'g) api_deps \<Rightarrow> arrival \<Rightarrow> 'tok api_call \<Rightarrow> string option" where
  "metered D q call =
     (if url_path (st_prefix (ap_settings D)) call \<in> set exempt_paths then None
      else Some (client_key (client_ip (proxy_trust (st_trusted_proxies (ap_settings D))) (ar_peer q) (ar_forwarded q))))"

text \<open>Requests served one after the other: the answers, and the log of those let through.\<close>

fun serve_all ::
  "('t, 's, 'tok, 'g) incoming list \<Rightarrow> limiter \<times> ('t, 's) auth_world \<Rightarrow>
   ('tok http_answer list \<times> (string \<times> real) list) \<times> limiter \<times> ('t, 's) auth_world" where
  "serve_all [] s = (([], []), s)"
| "serve_all ((D, cors, q, who, call) # rs) s =
     (case serve_http D cors q who call s of (a, s1) \<Rightarrow>
      case serve_all rs s1 of ((as, lg), s2) \<Rightarrow>
        ((a # as,
          (case (metered D q call, rate_decision D q call (fst s)) of
             (Some c, Pass, _) \<Rightarrow> [(c, ad_clock (ap_auth D))] | _ \<Rightarrow> []) @ lg), s2))"

lemma rl_inv_new: "0 \<le> limit \<Longrightarrow> rl_inv limit 0 (\<lambda>c. []) (new_limiter limit)"
  by (simp add: rl_inv_def client_ok_def new_limiter_def bucket_of_def recent_def)

lemma served_limiter: "fst (snd (serve_http D cors q who call s)) = snd (rate_decision D q call (fst s))"
  by (auto simp: serve_http_def limited_def split: prod.splits sum.splits rl_decision.splits)

lemma metered_inv:
  assumes "rl_inv k t lg l" "ad_clock (ap_auth D) = t" "0 \<le> k" "rate_decision D q call l = (d, l1)"
  shows "rl_inv k t (case metered D q call of Some c \<Rightarrow> if d = Pass then lg(c := lg c @ [t]) else lg | None \<Rightarrow> lg) l1"
proof (cases "metered D q call")
  case None
  with assms show ?thesis by (auto simp: metered_def rate_decision_def rl_dispatch_def Let_def split: if_splits)
next
  case (Some c)
  with assms show ?thesis
    using rl_dispatch_inv [OF assms(1) _ assms(3), of "url_path (st_prefix (ap_settings D)) call"
        "client_ip (proxy_trust (st_trusted_proxies (ap_settings D))) (ar_peer q) (ar_forwarded q)" d l1]
    by (auto simp: metered_def rate_decision_def Let_def split: if_splits)
qed

lemma served_inv:
  assumes "rl_inv k t lg (fst s)" "0 \<le> k" "sorted (t # map incoming_clock rs)" "serve_all rs s = ((as, new), s')"
  shows "rl_inv k (last (t # map incoming_clock rs)) (\<lambda>c. lg c @ times_of c new) (fst s')"
  using assms(1,3,4)
proof (induction rs arbitrary: t lg s as new)
  case Nil
  then show ?case by (simp add: times_of_def)
next
  case (Cons r rs)
  obtain D cors q who call where r: "r = (D, cors, q, who, call)" by (cases r) auto
  obtain a s1 where s1: "serve_http D cors q who call s = (a, s1)" by (metis surj_pair)
  obtain as1 new1 where rest: "serve_all rs s1 = ((as1, new1), s')"
    using Cons.prems(3) s1 by (auto simp: r split: prod.splits)
  obtain d l1 where d: "rate_decision D q call (fst s) = (d, l1)" by (metis surj_pair)
  have l1: "fst s1 = l1" using served_limiter [of D cors q who call s] s1 d by simp
  let ?t = "ad_clock (ap_auth D)"
  let ?lg = "case metered D q call of Some c \<Rightarrow> if d = Pass then lg(c := lg c @ [?t]) else lg | None \<Rightarrow> lg"
  have "rl_inv k ?t lg (fst s)" using Cons.prems(2) by (intro rl_inv_later [OF Cons.prems(1)]) (simp add: r)
  from metered_inv [OF this refl assms(2) d] have "rl_inv k ?t ?lg (fst s1)" by (simp add: l1)
  from Cons.IH [OF this _ rest] Cons.prems(2)
  have "rl_inv k (last (?t # map incoming_clock rs)) (\<lambda>c. ?lg c @ times_of c new1) (fst s')" by (simp add: r)
  moreover have "(\<lambda>c. ?lg c @ times_of c new1) = (\<lambda>c. lg c @ times_of c new)"
    using Cons.prems(3) s1 rest d
    by (intro ext) (auto simp: r times_of_def split: option.splits rl_decision.splits)
  ultimately show ?case by (simp add: r)
qed

section \<open>Properties\<close>

text \<open>C17: Every request is answered, and no answer gives anything away: a request the limiter refuses is
  answered 429 and touches nothing; any other runs its route and has the status of its outcome;
  probes of liveness and readiness are never refused under the default prefix; an unexpected
  exception is answered by one fixed text whatever it was - outside the middleware, so without
  request id and security headers - and every other answer carries both.\<close>

theorem every_answer:
  "serve_http D cors q who call (l, w) = (a, l', w') \<Longrightarrow>
   rate_decision D q call l = (d, l1) \<Longrightarrow> run_call D who call w = (r, w1) \<Longrightarrow>
   l' = l1 \<and>
   (if d = Pass then an_status a = call_status call r \<and> w' = w1 else an_status a = 429 \<and> w' = w) \<and>
   (call \<in> {Health, Ready} \<and> st_prefix (ap_settings D) = ''/api/v1'' \<longrightarrow> d = Pass) \<and>
   (if d = Pass \<and> (\<exists>k m. r = Inl (PyExc k m) \<and> r \<noteq> Inl request_error)
    then an_headers a = [] \<and> an_body a = Json (JObj [(''error'', JObj [(''code'', JStr ''internal_error''),
      (''message'', JStr ''An unexpected error occurred.'')])])
    else map_of (an_headers a) ''x-request-id'' =
        Some (case ar_request_id q of Some i \<Rightarrow> if i = [] then ar_uuid q else i | None \<Rightarrow> ar_uuid q) \<and>
      (\<forall>k\<in>set security_headers. map_of (an_headers a) k \<noteq> None))"
proof -
  assume served: "serve_http D cors q who call (l, w) = (a, l', w')"
    and d: "rate_decision D q call l = (d, l1)" and r: "run_call D who call w = (r, w1)"
  have probe: "d = Pass" if "call \<in> {Health, Ready}" "st_prefix (ap_settings D) = ''/api/v1''"
    using d that by (auto simp: rate_decision_def rl_dispatch_def url_path_def exempt_paths_def)
  show ?thesis
  proof (cases d)
    case (Refuse n)
    with served d have "a = dressed cors q (rate_limited n)" "l' = l1" "w' = w"
      by (auto simp: serve_http_def limited_def)
    with Refuse probe show ?thesis by (auto simp: dressed_headers rate_limited_def status_of_def mro.simps)
  next
    case Pass
    show ?thesis
    proof (cases "\<exists>k m. r = Inl (PyExc k m) \<and> r \<noteq> Inl request_error")
      case True
      then obtain k m where e: "r = Inl (PyExc k m)" "PyExc k m \<noteq> request_error" by auto
      with served d r Pass have "a = answer_of (handle_error (PyExc k m))" "l' = l1" "w' = w1"
        by (auto simp: serve_http_def limited_def routed_def)
      with e Pass True show ?thesis
        by (simp add: answer_of_def handle_error_def lower_names_def call_status_def)
    next
      case False
      have "\<exists>x. routed D who call w = (Inr x, w1) \<and> an_status x = call_status call r"
      proof (cases r)
        case (Inr b)
        with r show ?thesis by (simp add: routed_def call_status_def)
      next
        case (Inl e)
        with False r show ?thesis
          by (cases e) (auto simp: routed_def call_status_def answer_of_def request_error_def)
      qed
      then obtain x where "routed D who call w = (Inr x, w1)" "an_status x = call_status call r" by blast
      moreover from this served d Pass have "a = dressed cors q x" "l' = l1" "w' = w1"
        by (auto simp: serve_http_def limited_def)
      ultimately show ?thesis using False Pass by (auto simp: dressed_headers)
    qed
  qed
qed

definition demo_arrival :: arrival where
  "demo_arrival = \<lparr>ar_peer = Some ''10.0.0.9'', ar_forwarded = [], ar_request_id = Some ''r7'', ar_proto = None,
     ar_scheme = ''http'', ar_uuid = ''u'', ar_elapsed = ''1''\<rparr>"

lemma none_pass: "rl_dispatch path a t (new_limiter 0) = (d, l) \<Longrightarrow> path \<notin> set exempt_paths \<Longrightarrow> d \<noteq> Pass"
  unfolding rl_dispatch_def Let_def by (auto simp: new_limiter_def)

theorem every_answer_witness:
  "\<exists>a l. serve_http demo_api (\<lambda>h. h) demo_arrival demo_analyst Stats (new_limiter 0, demo_world) = (a, l, demo_world) \<and>
     an_status a = 429 \<and> map_of (an_headers a) ''x-request-id'' = Some ''r7''"
proof -
  obtain a l w where s: "serve_http demo_api (\<lambda>h. h) demo_arrival demo_analyst Stats (new_limiter 0, demo_world) = (a, l, w)"
    using prod_cases3 by blast
  obtain r w1 where r: "run_call demo_api demo_analyst Stats demo_world = (r, w1)" by fastforce
  obtain d l1 where d: "rate_decision demo_api demo_arrival Stats (new_limiter 0) = (d, l1)" by fastforce
  moreover have "url_path (st_prefix (ap_settings demo_api)) Stats \<notin> set exempt_paths"
    by (simp add: demo_api_def default_settings_def url_path_def exempt_paths_def)
  ultimately have "d \<noteq> Pass" using none_pass unfolding rate_decision_def Let_def by blast
  with every_answer [OF s d r] s show ?thesis by (auto simp: demo_arrival_def)
qed

text \<open>C10: The rate limit holds for the whole interface: over any requests served in the order of the
  clock - whatever they ask for, whatever headers they forge, whatever their outcome - at the
  time of the last no client has had more than the limit of its metered requests let through
  within sixty seconds.\<close>

theorem http_rate_limit:
  "0 \<le> limit \<Longrightarrow> sorted (0 # map incoming_clock rs) \<Longrightarrow> serve_all rs (new_limiter limit, w) = ((as, lg), s') \<Longrightarrow>
   int (length (recent (last (0 # map incoming_clock rs)) (times_of c lg))) \<le> limit"
proof -
  assume a: "0 \<le> limit" "sorted (0 # map incoming_clock rs)" "serve_all rs (new_limiter limit, w) = ((as, lg), s')"
  have "rl_inv limit 0 (\<lambda>c. []) (fst (new_limiter limit, w))" using a(1) by (simp add: rl_inv_new)
  from served_inv [OF this a] show ?thesis unfolding rl_inv_def client_ok_def append_Nil by metis
qed

theorem http_rate_limit_witness:
  "\<exists>as lg s'. serve_all (replicate 3 (demo_api, (\<lambda>h. h), demo_arrival, demo_analyst, Stats)) (new_limiter 2, demo_world) = ((as, lg), s') \<and>
     length (recent 5 (times_of ''10.0.0.9'' lg)) \<le> 2"
proof -
  let ?rs = "replicate 3 (demo_api, (\<lambda>h::headers. h), demo_arrival, demo_analyst, Stats)"
  have clock: "ad_clock (ap_auth demo_api) = 5" by (simp add: demo_api_def demo_deps_def)
  obtain as lg s' where s: "serve_all ?rs (new_limiter 2, demo_world) = ((as, lg), s')" by (metis surj_pair)
  moreover have "int (length (recent 5 (times_of ''10.0.0.9'' lg))) \<le> 2"
    using http_rate_limit [OF _ _ s, of "''10.0.0.9''"] by (simp add: numeral_3_eq_3 clock)
  ultimately show ?thesis by (intro exI conjI) simp_all
qed

end
