(* ===== verification/Migration.thy ===== *)
theory Migration
  imports Prelude
begin

text \<open>
  The database schema: the DDL statements of the initial migration
  (\<open>alembic/versions/0001_initial.py\<close>), the tables the ORM classes of \<open>app/models\<close> declare, and
  the catalogue of a database the statements act on.  A statement fails (\<open>None\<close>) where a
  database refuses it.
\<close>

section \<open>Statements and catalogues\<close>

datatype column_type = VarChar nat | TextCol | IntCol | FloatCol | BoolCol | JsonCol | TimeCol

record column =
  dc_name :: string
  dc_type :: column_type
  dc_null :: bool
  dc_default_now :: bool

definition column :: "string \<Rightarrow> column_type \<Rightarrow> bool \<Rightarrow> column" where
  "column n t null = \<lparr>dc_name = n, dc_type = t, dc_null = null, dc_default_now = False\<rparr>"

definition stamp :: "string \<Rightarrow> column" where
  "stamp n = \<lparr>dc_name = n, dc_type = TimeCol, dc_null = False, dc_default_now = True\<rparr>"

datatype constr =
    PrimaryKey "string list"
  | Unique string "string list"
  | ForeignKey string string string string

datatype ddl =
    CreateTable string "column list" "constr list"
  | CreateIndex string string "string list" bool
  | DropIndex string string
  | DropTable string

type_synonym table_def = "column list \<times> constr list"

record catalogue =
  cat_tables :: "(string \<times> table_def) list"
  cat_indexes :: "(string \<times> string \<times> string list \<times> bool) list"

definition no_tables :: catalogue where
  "no_tables = \<lparr>cat_tables = [], cat_indexes = []\<rparr>"

text \<open>A foreign key needs a table whose primary key it names.\<close>

fun resolves :: "catalogue \<Rightarrow> constr \<Rightarrow> bool" where
  "resolves c (ForeignKey k t r rule) =
     (case map_of (cat_tables c) t of None \<Rightarrow> False | Some (cols, cons) \<Rightarrow> PrimaryKey [r] \<in> set cons)"
| "resolves c _ = True"

fun refers_to :: "string \<Rightarrow> constr \<Rightarrow> bool" where
  "refers_to t (ForeignKey k t' r rule) = (t = t')"
| "refers_to t _ = False"

definition referenced :: "string \<Rightarrow> (string \<times> table_def) list \<Rightarrow> bool" where
  "referenced t ts \<longleftrightarrow> (\<exists>(n, cols, cons)\<in>set ts. n \<noteq> t \<and> (\<exists>k\<in>set cons. refers_to t k))"

fun run_ddl :: "ddl \<Rightarrow> catalogue \<Rightarrow> catalogue option" where
  "run_ddl (CreateTable t cols cons) c =
     (if t \<in> set (map fst (cat_tables c)) \<or> \<not> list_all (resolves c) cons then None
      else Some (c\<lparr>cat_tables := cat_tables c @ [(t, cols, cons)]\<rparr>))"
| "run_ddl (CreateIndex i t cs u) c =
     (if i \<in> set (map fst (cat_indexes c)) then None
      else case map_of (cat_tables c) t of
        None \<Rightarrow> None
      | Some (cols, cons) \<Rightarrow>
          if set cs \<subseteq> set (map dc_name cols)
          then Some (c\<lparr>cat_indexes := cat_indexes c @ [(i, t, cs, u)]\<rparr>) else None)"
| "run_ddl (DropIndex i t) c =
     (if \<exists>(j, s, cs, u)\<in>set (cat_indexes c). j = i \<and> s = t
      then Some (c\<lparr>cat_indexes := filter (\<lambda>(j, x). j \<noteq> i) (cat_indexes c)\<rparr>) else None)"
| "run_ddl (DropTable t) c =
     (if t \<notin> set (map fst (cat_tables c)) \<or> referenced t (cat_tables c) then None
      else Some \<lparr>cat_tables = filter (\<lambda>(n, x). n \<noteq> t) (cat_tables c),
                 cat_indexes = filter (\<lambda>(j, s, x). s \<noteq> t) (cat_indexes c)\<rparr>)"

fun run_all :: "ddl list \<Rightarrow> catalogue \<Rightarrow> catalogue option" where
  "run_all [] c = Some c"
| "run_all (s # ss) c = (case run_ddl s c of None \<Rightarrow> None | Some c' \<Rightarrow> run_all ss c')"

section \<open>The migration\<close>

definition create_users :: "ddl list" where
  "create_users =
     [CreateTable ''users''
       [column ''id'' (VarChar 32) False,
        column ''email'' (VarChar 320) False,
        column ''password_hash'' (VarChar 255) False,
        column ''role'' (VarChar 20) False,
        column ''is_active'' (BoolCol) False,
        stamp ''created_at'',
        stamp ''updated_at'']
       [PrimaryKey [''id'']],
      CreateIndex ''ix_users_email'' ''users'' [''email''] True]"

definition create_iocs :: "ddl list" where
  "create_iocs =
     [CreateTable ''iocs''
       [column ''id'' (VarChar 32) False,
        column ''type'' (VarChar 32) False,
        column ''value'' (VarChar 2048) False,
        column ''defanged_value'' (VarChar 2100) False,
        column ''source'' (VarChar 64) False,
        column ''confidence'' (VarChar 16) False,
        column ''severity'' (VarChar 16) False,
        column ''status'' (VarChar 20) False,
        column ''threat_score'' (IntCol) False,
        column ''threat_level'' (VarChar 16) False,
        column ''sightings'' (IntCol) False,
        column ''tags'' (JsonCol) False,
        column ''references'' (JsonCol) False,
        column ''description'' (TextCol) True,
        column ''first_seen'' (TimeCol) True,
        column ''last_seen'' (TimeCol) True,
        stamp ''created_at'',
        stamp ''updated_at'']
       [PrimaryKey [''id''], Unique ''uq_ioc_type_value'' [''type'', ''value'']],
      CreateIndex ''ix_iocs_source'' ''iocs'' [''source''] False,
      CreateIndex ''ix_iocs_status'' ''iocs'' [''status''] False,
      CreateIndex ''ix_iocs_threat_level'' ''iocs'' [''threat_level''] False,
      CreateIndex ''ix_iocs_threat_score'' ''iocs'' [''threat_score''] False,
      CreateIndex ''ix_iocs_type'' ''iocs'' [''type''] False,
      CreateIndex ''ix_iocs_value'' ''iocs'' [''value''] False]"

definition create_alert_rules :: "ddl list" where
  "create_alert_rules =
     [CreateTable ''alert_rules''
       [column ''id'' (VarChar 32) False,
        column ''name'' (VarChar 128) False,
        column ''metric'' (VarChar 32) False,
        column ''operator'' (VarChar 4) False,
        column ''threshold'' (IntCol) False,
        column ''channel'' (VarChar 16) False,
        column ''channel_config'' (JsonCol) False,
        column ''is_active'' (BoolCol) False,
        stamp ''created_at'',
        stamp ''updated_at'']
       [PrimaryKey [''id'']]]"

definition create_threat_actors :: "ddl list" where
  "create_threat_actors =
     [CreateTable ''threat_actors''
       [column ''id'' (VarChar 32) False,
        column ''name'' (VarChar 128) False,
        column ''actor_type'' (VarChar 32) False,
        column ''country'' (VarChar 4) True,
        column ''aliases'' (JsonCol) False,
        column ''motivations'' (JsonCol) False,
        column ''techniques'' (JsonCol) False,
        column ''known_malware'' (JsonCol) False,
        column ''targets'' (JsonCol) False,
        column ''description'' (TextCol) True,
        stamp ''created_at'',
        stamp ''updated_at'']
       [PrimaryKey [''id'']],
      CreateIndex ''ix_threat_actors_name'' ''threat_actors'' [''name''] True]"

definition create_correlation_edges :: "ddl list" where
  "create_correlation_edges =
     [CreateTable ''correlation_edges''
       [column ''id'' (VarChar 32) False,
        column ''source_ref'' (VarChar 2100) False,
        column ''target_ref'' (VarChar 2100) False,
        column ''relationship'' (VarChar 32) False,
        column ''confidence'' (FloatCol) False,
        column ''source'' (VarChar 64) False,
        stamp ''created_at'',
        stamp ''updated_at'']
       [PrimaryKey [''id''], Unique ''uq_edge_triple'' [''source_ref'', ''target_ref'', ''relationship'']],
      CreateIndex ''ix_correlation_edges_source_ref'' ''correlation_edges'' [''source_ref''] False,
      CreateIndex ''ix_correlation_edges_target_ref'' ''correlation_edges'' [''target_ref''] False]"

definition create_api_keys :: "ddl list" where
  "create_api_keys =
     [CreateTable ''api_keys''
       [column ''id'' (VarChar 32) False,
        column ''user_id'' (VarChar 32) False,
        column ''name'' (VarChar 64) False,
        column ''key_hash'' (VarChar 64) False,
        column ''prefix'' (VarChar 16) False,
        column ''role'' (VarChar 20) False,
        column ''is_active'' (BoolCol) False,
        column ''last_used_at'' (TimeCol) True,
        stamp ''created_at'',
        stamp ''updated_at'']
       [ForeignKey ''user_id'' ''users'' ''id'' ''CASCADE'', PrimaryKey [''id'']],
      CreateIndex ''ix_api_keys_key_hash'' ''api_keys'' [''key_hash''] True,
      CreateIndex ''ix_api_keys_prefix'' ''api_keys'' [''prefix''] False,
      CreateIndex ''ix_api_keys_user_id'' ''api_keys'' [''user_id''] False]"

definition create_audit_logs :: "ddl list" where
  "create_audit_logs =
     [CreateTable ''audit_logs''
       [column ''id'' (VarChar 32) False,
        column ''user_id'' (VarChar 32) True,
        column ''action'' (VarChar 64) False,
        column ''ip_address'' (VarChar 64) True,
        column ''detail'' (JsonCol) False,
        stamp ''created_at'',
        stamp ''updated_at'']
       [ForeignKey ''user_id'' ''users'' ''id'' ''SET NULL'', PrimaryKey [''id'']],
      CreateIndex ''ix_audit_logs_action'' ''audit_logs'' [''action''] False,
      CreateIndex ''ix_audit_logs_user_id'' ''audit_logs'' [''user_id''] False]"

definition create_enrichments :: "ddl list" where
  "create_enrichments =
     [CreateTable ''enrichments''
       [column ''id'' (VarChar 32) False,
        column ''ioc_id'' (VarChar 32) False,
        column ''provider'' (VarChar 48) False,
        column ''data'' (JsonCol) False,
        stamp ''created_at'',
        stamp ''updated_at'']
       [ForeignKey ''ioc_id'' ''iocs'' ''id'' ''CASCADE'', PrimaryKey [''id''], Unique ''uq_enrichment_ioc_provider'' [''ioc_id'', ''provider'']],
      CreateIndex ''ix_enrichments_ioc_id'' ''enrichments'' [''ioc_id''] False]"

definition create_alerts :: "ddl list" where
  "create_alerts =
     [CreateTable ''alerts''
       [column ''id'' (VarChar 32) False,
        column ''rule_id'' (VarChar 32) True,
        column ''ioc_id'' (VarChar 32) True,
        column ''severity'' (VarChar 16) False,
        column ''title'' (VarChar 256) False,
        column ''message'' (TextCol) True,
        column ''delivered'' (BoolCol) False,
        column ''acknowledged'' (BoolCol) False,
        stamp ''created_at'',
        stamp ''updated_at'']
       [ForeignKey ''ioc_id'' ''iocs'' ''id'' ''CASCADE'', ForeignKey ''rule_id'' ''alert_rules'' ''id'' ''SET NULL'', PrimaryKey [''id'']],
      CreateIndex ''ix_alerts_ioc_id'' ''alerts'' [''ioc_id''] False,
      CreateIndex ''ix_alerts_severity'' ''alerts'' [''severity''] False]"

definition upgrade :: "ddl list" where
  "upgrade =
     create_users @ create_iocs @ create_alert_rules @
     create_threat_actors @ create_correlation_edges @ create_api_keys @
     create_audit_logs @ create_enrichments @ create_alerts"

definition downgrade :: "ddl list" where
  "downgrade =
     [DropIndex ''ix_alerts_severity'' ''alerts'',
      DropIndex ''ix_alerts_ioc_id'' ''alerts'',
      DropTable ''alerts'',
      DropIndex ''ix_enrichments_ioc_id'' ''enrichments'',
      DropTable ''enrichments'',
      DropIndex ''ix_audit_logs_user_id'' ''audit_logs'',
      DropIndex ''ix_audit_logs_action'' ''audit_logs'',
      DropTable ''audit_logs'',
      DropIndex ''ix_api_keys_user_id'' ''api_keys'',
      DropIndex ''ix_api_keys_prefix'' ''api_keys'',
      DropIndex ''ix_api_keys_key_hash'' ''api_keys'',
      DropTable ''api_keys'',
      DropIndex ''ix_correlation_edges_target_ref'' ''correlation_edges'',
      DropIndex ''ix_correlation_edges_source_ref'' ''correlation_edges'',
      DropTable ''correlation_edges'',
      DropIndex ''ix_threat_actors_name'' ''threat_actors'',
      DropTable ''threat_actors'',
      DropTable ''alert_rules'',
      DropIndex ''ix_iocs_value'' ''iocs'',
      DropIndex ''ix_iocs_type'' ''iocs'',
      DropIndex ''ix_iocs_threat_score'' ''iocs'',
      DropIndex ''ix_iocs_threat_level'' ''iocs'',
      DropIndex ''ix_iocs_status'' ''iocs'',
      DropIndex ''ix_iocs_source'' ''iocs'',
      DropTable ''iocs'',
      DropIndex ''ix_users_email'' ''users'',
      DropTable ''users'']"

section \<open>The ORM classes\<close>

text \<open>
  A mapped column: its type, whether it may be null, its own index if it has one (unique or not),
  and the row it refers to.  Every class has the primary key and the two time stamps of
  \<open>app/database/base.py\<close>; an index is named after table and column.
\<close>

datatype own_index = Plain | Indexed | UniqueKey

type_synonym mapped = "string \<times> column_type \<times> bool \<times> own_index \<times> (string \<times> string \<times> string) option"

record orm_class =
  orm_table :: string
  orm_mapped :: "mapped list"
  orm_args :: "constr list"

definition user_class :: orm_class where
  "user_class =
     \<lparr>orm_table = ''users'',
      orm_mapped =
       [(''email'', VarChar 320, False, UniqueKey, None),
        (''password_hash'', VarChar 255, False, Plain, None),
        (''role'', VarChar 20, False, Plain, None),
        (''is_active'', BoolCol, False, Plain, None)],
      orm_args = []\<rparr>"

definition ioc_class :: orm_class where
  "ioc_class =
     \<lparr>orm_table = ''iocs'',
      orm_mapped =
       [(''type'', VarChar 32, False, Indexed, None),
        (''value'', VarChar 2048, False, Indexed, None),
        (''defanged_value'', VarChar 2100, False, Plain, None),
        (''source'', VarChar 64, False, Indexed, None),
        (''confidence'', VarChar 16, False, Plain, None),
        (''severity'', VarChar 16, False, Plain, None),
        (''status'', VarChar 20, False, Indexed, None),
        (''threat_score'', IntCol, False, Indexed, None),
        (''threat_level'', VarChar 16, False, Indexed, None),
        (''sightings'', IntCol, False, Plain, None),
        (''tags'', JsonCol, False, Plain, None),
        (''references'', JsonCol, False, Plain, None),
        (''description'', TextCol, True, Plain, None),
        (''first_seen'', TimeCol, True, Plain, None),
        (''last_seen'', TimeCol, True, Plain, None)],
      orm_args = [Unique ''uq_ioc_type_value'' [''type'', ''value'']]\<rparr>"

definition alert_rule_class :: orm_class where
  "alert_rule_class =
     \<lparr>orm_table = ''alert_rules'',
      orm_mapped =
       [(''name'', VarChar 128, False, Plain, None),
        (''metric'', VarChar 32, False, Plain, None),
        (''operator'', VarChar 4, False, Plain, None),
        (''threshold'', IntCol, False, Plain, None),
        (''channel'', VarChar 16, False, Plain, None),
        (''channel_config'', JsonCol, False, Plain, None),
        (''is_active'', BoolCol, False, Plain, None)],
      orm_args = []\<rparr>"

definition alert_class :: orm_class where
  "alert_class =
     \<lparr>orm_table = ''alerts'',
      orm_mapped =
       [(''rule_id'', VarChar 32, True, Plain, Some (''alert_rules'', ''id'', ''SET NULL'')),
        (''ioc_id'', VarChar 32, True, Indexed, Some (''iocs'', ''id'', ''CASCADE'')),
        (''severity'', VarChar 16, False, Indexed, None),
        (''title'', VarChar 256, False, Plain, None),
        (''message'', TextCol, True, Plain, None),
        (''delivered'', BoolCol, False, Plain, None),
        (''acknowledged'', BoolCol, False, Plain, None)],
      orm_args = []\<rparr>"

definition threat_actor_class :: orm_class where
  "threat_actor_class =
     \<lparr>orm_table = ''threat_actors'',
      orm_mapped =
       [(''name'', VarChar 128, False, UniqueKey, None),
        (''actor_type'', VarChar 32, False, Plain, None),
        (''country'', VarChar 4, True, Plain, None),
        (''aliases'', JsonCol, False, Plain, None),
        (''motivations'', JsonCol, False, Plain, None),
        (''techniques'', JsonCol, False, Plain, None),
        (''known_malware'', JsonCol, False, Plain, None),
        (''targets'', JsonCol, False, Plain, None),
        (''description'', TextCol, True, Plain, None)],
      orm_args = []\<rparr>"

definition correlation_edge_class :: orm_class where
  "correlation_edge_class =
     \<lparr>orm_table = ''correlation_edges'',
      orm_mapped =
       [(''source_ref'', VarChar 2100, False, Indexed, None),
        (''target_ref'', VarChar 2100, False, Indexed, None),
        (''relationship'', VarChar 32, False, Plain, None),
        (''confidence'', FloatCol, False, Plain, None),
        (''source'', VarChar 64, False, Plain, None)],
      orm_args = [Unique ''uq_edge_triple'' [''source_ref'', ''target_ref'', ''relationship'']]\<rparr>"

definition api_key_class :: orm_class where
  "api_key_class =
     \<lparr>orm_table = ''api_keys'',
      orm_mapped =
       [(''user_id'', VarChar 32, False, Indexed, Some (''users'', ''id'', ''CASCADE'')),
        (''name'', VarChar 64, False, Plain, None),
        (''key_hash'', VarChar 64, False, UniqueKey, None),
        (''prefix'', VarChar 16, False, Indexed, None),
        (''role'', VarChar 20, False, Plain, None),
        (''is_active'', BoolCol, False, Plain, None),
        (''last_used_at'', TimeCol, True, Plain, None)],
      orm_args = []\<rparr>"

definition audit_log_class :: orm_class where
  "audit_log_class =
     \<lparr>orm_table = ''audit_logs'',
      orm_mapped =
       [(''user_id'', VarChar 32, True, Indexed, Some (''users'', ''id'', ''SET NULL'')),
        (''action'', VarChar 64, False, Indexed, None),
        (''ip_address'', VarChar 64, True, Plain, None),
        (''detail'', JsonCol, False, Plain, None)],
      orm_args = []\<rparr>"

definition enrichment_record_class :: orm_class where
  "enrichment_record_class =
     \<lparr>orm_table = ''enrichments'',
      orm_mapped =
       [(''ioc_id'', VarChar 32, False, Indexed, Some (''iocs'', ''id'', ''CASCADE'')),
        (''provider'', VarChar 48, False, Plain, None),
        (''data'', JsonCol, False, Plain, None)],
      orm_args = [Unique ''uq_enrichment_ioc_provider'' [''ioc_id'', ''provider'']]\<rparr>"

definition orm_classes :: "orm_class list" where
  "orm_classes =
     [user_class, ioc_class, alert_rule_class, alert_class, threat_actor_class,
      correlation_edge_class, api_key_class, audit_log_class, enrichment_record_class]"

text \<open>What \<open>Base.metadata.create_all\<close> makes of a class.\<close>

definition orm_columns :: "orm_class \<Rightarrow> column list" where
  "orm_columns m =
     column ''id'' (VarChar 32) False # map (\<lambda>(n, t, null, x). column n t null) (orm_mapped m) @
     [stamp ''created_at'', stamp ''updated_at'']"

definition orm_constraints :: "orm_class \<Rightarrow> constr list" where
  "orm_constraints m =
     PrimaryKey [''id''] # orm_args m @
     List.map_filter (\<lambda>(n, t, null, ix, fk). map_option (\<lambda>(tab, col, rule). ForeignKey n tab col rule) fk) (orm_mapped m)"

definition orm_indexes :: "orm_class \<Rightarrow> (string \<times> string \<times> string list \<times> bool) list" where
  "orm_indexes m =
     List.map_filter (\<lambda>(n, t, null, ix, fk).
       if ix = Plain then None
       else Some (''ix_'' @ orm_table m @ ''_'' @ n, orm_table m, [n], ix = UniqueKey)) (orm_mapped m)"

text \<open>The same tables, columns, constraints and indexes, in whatever order.\<close>

definition declares :: "orm_class list \<Rightarrow> catalogue \<Rightarrow> bool" where
  "declares ms c \<longleftrightarrow>
     set (map fst (cat_tables c)) = set (map orm_table ms) \<and>
     list_all (\<lambda>m. case map_of (cat_tables c) (orm_table m) of
        None \<Rightarrow> False
      | Some (cols, cons) \<Rightarrow>
          length cols = length (orm_columns m) \<and> set cols = set (orm_columns m) \<and>
          set cons = set (orm_constraints m)) ms \<and>
     set (cat_indexes c) = set (concat (map orm_indexes ms))"

section \<open>Beside other tables\<close>

definition beside :: "catalogue \<Rightarrow> catalogue \<Rightarrow> catalogue" where
  "beside c d = \<lparr>cat_tables = cat_tables c @ cat_tables d, cat_indexes = cat_indexes c @ cat_indexes d\<rparr>"

text \<open>The tables and indexes a statement names.\<close>

fun tables_named :: "ddl \<Rightarrow> string list" where
  "tables_named (CreateTable t cols cons) =
     t # List.map_filter (\<lambda>k. case k of ForeignKey x t r rule \<Rightarrow> Some t | _ \<Rightarrow> None) cons"
| "tables_named (CreateIndex i t cs u) = [t]"
| "tables_named (DropIndex i t) = [t]"
| "tables_named (DropTable t) = [t]"

fun indexes_named :: "ddl \<Rightarrow> string list" where
  "indexes_named (CreateIndex i t cs u) = [i]"
| "indexes_named (DropIndex i t) = [i]"
| "indexes_named _ = []"

text \<open>A catalogue has nothing to do with a list of statements.\<close>

definition unrelated :: "catalogue \<Rightarrow> ddl list \<Rightarrow> bool" where
  "unrelated c ss \<longleftrightarrow>
     (\<forall>s\<in>set ss.
        set (tables_named s) \<inter> set (map fst (cat_tables c)) = {} \<and>
        set (indexes_named s) \<inter> set (map fst (cat_indexes c)) = {} \<and>
        (\<forall>t\<in>set (tables_named s). \<not> referenced t (cat_tables c) \<and> t \<notin> (\<lambda>(j, u, x). u) ` set (cat_indexes c)))"

lemma map_of_beside:
  "t \<notin> set (map fst (cat_tables c)) \<Longrightarrow> map_of (cat_tables (beside c d)) t = map_of (cat_tables d) t"
proof -
  assume "t \<notin> set (map fst (cat_tables c))"
  then have "map_of (cat_tables c) t = None" by (simp add: map_of_eq_None_iff)
  then show ?thesis by (simp add: beside_def map_add_def split: option.splits)
qed

lemma unrelated_append: "unrelated c (ss @ ts) \<longleftrightarrow> unrelated c ss \<and> unrelated c ts"
  by (simp only: unrelated_def set_append ball_Un)

lemma resolves_beside:
  "(case k of ForeignKey x t r rule \<Rightarrow> t \<notin> set (map fst (cat_tables c)) | _ \<Rightarrow> True) \<Longrightarrow>
   resolves (beside c d) k = resolves d k"
  by (cases k) (simp_all add: map_of_beside del: map_of_append)

lemma filter_all: "(\<And>x. x \<in> set xs \<Longrightarrow> p x) \<Longrightarrow> filter p xs = xs"
  by simp

lemma run_ddl_beside:
  assumes "unrelated c [s]"
  shows "run_ddl s (beside c d) = map_option (beside c) (run_ddl s d)"
proof (cases s)
  case (CreateTable t cols cons)
  have "resolves (beside c d) k = resolves d k" if "k \<in> set cons" for k
  proof (cases k)
    case (ForeignKey x t' r rule)
    with that have "t' \<in> set (tables_named s)" by (force simp: CreateTable map_filter_set)
    with assms have "t' \<notin> set (map fst (cat_tables c))" unfolding unrelated_def by auto
    with ForeignKey show ?thesis by (intro resolves_beside) simp
  qed simp_all
  then have "list_all (resolves (beside c d)) cons = list_all (resolves d) cons" by (simp add: list_all_iff)
  then show ?thesis using assms by (auto simp: unrelated_def CreateTable beside_def)
next
  case (CreateIndex i t cs u)
  then show ?thesis using assms map_of_beside [of t c d]
    by (auto simp: unrelated_def beside_def split: option.splits)
next
  case (DropIndex i t)
  have i: "i \<notin> fst ` set (cat_indexes c)" using assms by (simp add: unrelated_def DropIndex)
  then have none: "\<not> (\<exists>(j, s, cs, u)\<in>set (cat_indexes c). j = i \<and> s = t)" by force
  from i have keep: "filter (\<lambda>(j, x). j \<noteq> i) (cat_indexes c) = cat_indexes c"
    by (intro filter_all) force
  from none show ?thesis by (simp add: DropIndex beside_def bex_Un keep)
next
  case (DropTable t)
  have t: "t \<notin> fst ` set (cat_tables c)" "\<not> referenced t (cat_tables c)"
    "t \<notin> (\<lambda>(j, u, x). u) ` set (cat_indexes c)"
    using assms by (simp_all add: unrelated_def DropTable)
  have f: "filter (\<lambda>(n, x). n \<noteq> t) (cat_tables c) = cat_tables c" using t(1) by (intro filter_all) force
  have g: "filter (\<lambda>(j, s, x). s \<noteq> t) (cat_indexes c) = cat_indexes c" using t(3) by (intro filter_all) force
  have "referenced t (cat_tables c @ cat_tables d) = referenced t (cat_tables d)"
    using t(2) by (simp add: referenced_def bex_Un)
  then show ?thesis using t(1) by (simp add: DropTable beside_def f g)
qed

lemma run_all_beside:
  "unrelated c ss \<Longrightarrow> run_all ss (beside c d) = map_option (beside c) (run_all ss d)"
proof (induction ss arbitrary: d)
  case (Cons s ss)
  then have "unrelated c [s]" "unrelated c ss" by (simp_all add: unrelated_def)
  with Cons.IH run_ddl_beside show ?case by (auto split: option.splits)
qed simp

section \<open>Up and down\<close>

text \<open>The migration on an empty database.\<close>

lemma upgrade_empty:
  "case run_all upgrade no_tables of None \<Rightarrow> False | Some c \<Rightarrow> declares orm_classes c \<and> run_all downgrade c = Some no_tables"
  by code_simp

text \<open>
  The migration and the ORM agree, and the migration can be undone: on any database none of whose
  tables and indexes have to do with it, every statement of the upgrade is accepted (each table
  is created after those its foreign keys need), what it adds is exactly what the ORM classes
  declare, and the downgrade removes just that.
\<close>

lemma migrated:
  assumes "unrelated c (upgrade @ downgrade)"
  shows "\<exists>d. run_all upgrade c = Some (beside c d) \<and> declares orm_classes d \<and> run_all downgrade (beside c d) = Some c"
proof -
  from assms have up: "unrelated c upgrade" and down: "unrelated c downgrade" by (simp_all add: unrelated_append)
  from upgrade_empty obtain d where d: "run_all upgrade no_tables = Some d" "declares orm_classes d"
    "run_all downgrade d = Some no_tables" by (auto split: option.splits)
  have c: "beside c no_tables = c" by (simp add: beside_def no_tables_def)
  have "run_all upgrade c = Some (beside c d)" using run_all_beside [OF up, of no_tables] by (simp add: c d)
  moreover have "run_all downgrade (beside c d) = Some c" using run_all_beside [OF down, of d] by (simp add: c d)
  ultimately show ?thesis using d(2) by blast
qed

end
