(* ===== verification/Columns.thy ===== *)
theory Columns
  imports ApiProps Migration
begin

text \<open>
  The widths of the text columns: what an insertion may put into a row, read from the statements
  of the initial migration, and how they relate to the bounds the request models declare.
\<close>

section \<open>The widths of the schema\<close>

definition table_columns :: "string \<Rightarrow> column list" where
  "table_columns t = concat (map (\<lambda>s. case s of CreateTable n cols cons \<Rightarrow> if n = t then cols else [] | _ \<Rightarrow> []) upgrade)"

definition width :: "string \<Rightarrow> string \<Rightarrow> nat option" where
  "width t c =
     (case find (\<lambda>d. dc_name d = c) (table_columns t) of
        Some d \<Rightarrow> (case dc_type d of VarChar n \<Rightarrow> Some n | _ \<Rightarrow> None) | None \<Rightarrow> None)"

definition narrow :: "string \<Rightarrow> (string \<times> string) list \<Rightarrow> bool" where
  "narrow t row \<longleftrightarrow> list_all (\<lambda>(c, s). case width t c of Some n \<Rightarrow> length s \<le> n | None \<Rightarrow> False) row"

definition if_set :: "string \<Rightarrow> string option \<Rightarrow> (string \<times> string) list" where
  "if_set c x = (case x of None \<Rightarrow> [] | Some s \<Rightarrow> [(c, s)])"

lemmas create_tables = create_users_def create_iocs_def create_alert_rules_def create_threat_actors_def
  create_correlation_edges_def create_api_keys_def create_audit_logs_def create_enrichments_def create_alerts_def

lemma columns_of:
  "table_columns ''users'' = (case hd create_users of CreateTable n cols cons \<Rightarrow> cols)"
  "table_columns ''iocs'' = (case hd create_iocs of CreateTable n cols cons \<Rightarrow> cols)"
  "table_columns ''alert_rules'' = (case hd create_alert_rules of CreateTable n cols cons \<Rightarrow> cols)"
  "table_columns ''threat_actors'' = (case hd create_threat_actors of CreateTable n cols cons \<Rightarrow> cols)"
  "table_columns ''correlation_edges'' = (case hd create_correlation_edges of CreateTable n cols cons \<Rightarrow> cols)"
  "table_columns ''api_keys'' = (case hd create_api_keys of CreateTable n cols cons \<Rightarrow> cols)"
  "table_columns ''audit_logs'' = (case hd create_audit_logs of CreateTable n cols cons \<Rightarrow> cols)"
  "table_columns ''enrichments'' = (case hd create_enrichments of CreateTable n cols cons \<Rightarrow> cols)"
  "table_columns ''alerts'' = (case hd create_alerts of CreateTable n cols cons \<Rightarrow> cols)"
  by (simp_all add: table_columns_def upgrade_def create_tables)

lemma widths [simp]:
  "width ''users'' ''email'' = Some 320" "width ''users'' ''password_hash'' = Some 255"
  "width ''iocs'' ''type'' = Some 32" "width ''iocs'' ''value'' = Some 2048"
  "width ''iocs'' ''defanged_value'' = Some 2100" "width ''iocs'' ''source'' = Some 64"
  "width ''iocs'' ''confidence'' = Some 16" "width ''iocs'' ''severity'' = Some 16"
  "width ''iocs'' ''status'' = Some 20" "width ''iocs'' ''threat_level'' = Some 16"
  "width ''alert_rules'' ''name'' = Some 128" "width ''alert_rules'' ''metric'' = Some 32"
  "width ''alert_rules'' ''operator'' = Some 4" "width ''alert_rules'' ''channel'' = Some 16"
  "width ''threat_actors'' ''name'' = Some 128" "width ''threat_actors'' ''actor_type'' = Some 32"
  "width ''threat_actors'' ''country'' = Some 4"
  "width ''correlation_edges'' ''source_ref'' = Some 2100" "width ''correlation_edges'' ''target_ref'' = Some 2100"
  "width ''correlation_edges'' ''relationship'' = Some 32" "width ''correlation_edges'' ''source'' = Some 64"
  "width ''api_keys'' ''name'' = Some 64" "width ''api_keys'' ''key_hash'' = Some 64"
  "width ''api_keys'' ''prefix'' = Some 16"
  "width ''audit_logs'' ''action'' = Some 64" "width ''audit_logs'' ''ip_address'' = Some 64"
  "width ''enrichments'' ''provider'' = Some 48"
  "width ''alerts'' ''severity'' = Some 16" "width ''alerts'' ''title'' = Some 256"
  by (simp_all add: width_def columns_of create_tables column_def)


text \<open>The lengths each insertion compares are those of the schema.\<close>

lemma fits_narrow: "fits E cols \<longleftrightarrow> strict_columns E \<longrightarrow> narrow t row"
  if "list_all2 (\<lambda>(s, n) (c, s'). s' = s \<and> width t c = Some n) cols row"
proof -
  from that have "list_all (\<lambda>(s, n). length s \<le> n) cols \<longleftrightarrow> narrow t row"
    unfolding narrow_def by (induction rule: list_all2_induct) auto
  then show ?thesis by (simp add: fits_def)
qed

definition user_texts :: "user_row \<Rightarrow> (string \<times> string) list" where
  "user_texts u = [(''email'', usr_email u), (''password_hash'', usr_password_hash u)]"

definition key_texts :: "key_row \<Rightarrow> (string \<times> string) list" where
  "key_texts k = [(''name'', key_name k), (''key_hash'', key_hash k), (''prefix'', key_prefix_text k)]"

definition ioc_texts :: "ioc_row \<Rightarrow> (string \<times> string) list" where
  "ioc_texts r =
     [(''type'', ioc_kind r), (''value'', ioc_value r), (''defanged_value'', ioc_defanged r),
      (''source'', ioc_source r), (''confidence'', ioc_confidence r), (''severity'', ioc_severity r),
      (''status'', ioc_state r), (''threat_level'', ioc_level r)]"

lemma insert_refused:
  "list_all2 (\<lambda>(s, n) (c, s'). s' = s \<and> width t c = Some n) cols row \<Longrightarrow>
   fst (insertM E cols clash ins w) = Inl data_error \<longleftrightarrow> strict_columns E \<and> \<not> narrow t row"
  using fits_narrow [of t cols row E] by (auto simp: insertM_def integrity_error_def data_error_def)

lemma widths_enforced:
  "fst (add_user E u w) = Inl data_error \<longleftrightarrow> strict_columns E \<and> \<not> narrow ''users'' (user_texts u)"
  "fst (add_key E k w) = Inl data_error \<longleftrightarrow> strict_columns E \<and> \<not> narrow ''api_keys'' (key_texts k)"
  "fst (add_ioc E r w) = Inl data_error \<longleftrightarrow> strict_columns E \<and> \<not> narrow ''iocs'' (ioc_texts r)"
  "fst (record_audit E action user ip dt w) = Inl data_error \<longleftrightarrow>
     strict_columns E \<and> \<not> narrow ''audit_logs'' ((''action'', action) # if_set ''ip_address'' ip)"
proof -
  show "fst (add_user E u w) = Inl data_error \<longleftrightarrow> strict_columns E \<and> \<not> narrow ''users'' (user_texts u)"
    unfolding add_user_def by (rule insert_refused) (simp add: user_texts_def)
  show "fst (add_key E k w) = Inl data_error \<longleftrightarrow> strict_columns E \<and> \<not> narrow ''api_keys'' (key_texts k)"
    unfolding add_key_def by (rule insert_refused) (simp add: key_texts_def)
  show "fst (add_ioc E r w) = Inl data_error \<longleftrightarrow> strict_columns E \<and> \<not> narrow ''iocs'' (ioc_texts r)"
    unfolding add_ioc_def by (rule insert_refused) (simp add: ioc_texts_def)
  show "fst (record_audit E action user ip dt w) = Inl data_error \<longleftrightarrow>
     strict_columns E \<and> \<not> narrow ''audit_logs'' ((''action'', action) # if_set ''ip_address'' ip)"
    unfolding record_audit_def bindM_def fresh_id_def prod.case sum.case
    by (rule insert_refused) (auto simp: if_set_def split: option.splits)
qed

section \<open>Operations that meet no width\<close>

named_theorems spare_intros

definition spares :: "exn \<Rightarrow> ('a, 'x) eff \<Rightarrow> bool" where
  "spares e m \<longleftrightarrow> (\<forall>w. fst (m w) \<noteq> Inl e)"

lemma spares_basic [spare_intros]:
  "spares e (returnM a)" "spares e (queryM q)" "spares e (fresh_id E)" "spares e (changeM f)"
  "e \<noteq> e' \<Longrightarrow> spares e (raiseM e')" "r \<noteq> Inl e \<Longrightarrow> spares e (liftM r)"
  by (auto simp: spares_def run_simps)

lemma spares_bind [spare_intros]:
  "spares e m \<Longrightarrow> (\<And>a. spares e (f a)) \<Longrightarrow> spares e (bindM m f)"
  unfolding spares_def bindM_def by (auto split: prod.splits sum.splits) (metis fst_conv)+

lemma spares_cases [spare_intros]:
  "(c \<Longrightarrow> spares e m) \<Longrightarrow> (\<not> c \<Longrightarrow> spares e n) \<Longrightarrow> spares e (if c then m else n)"
  "spares e m \<Longrightarrow> (\<And>a. spares e (f a)) \<Longrightarrow> spares e (case x of None \<Rightarrow> m | Some a \<Rightarrow> f a)"
  "(\<And>a b. spares e (g a b)) \<Longrightarrow> spares e (case p of (a, b) \<Rightarrow> g a b)"
  "(\<And>x. spares e (h x)) \<Longrightarrow> spares e (Let y h)"
  by (simp_all split: option.splits prod.splits)

lemma spares_select [spare_intros]: "spares data_error (select_one q)"
  by (auto simp: spares_def select_one_def one_or_none_def data_error_def split: list.splits)

lemma spares_insert [spare_intros]:
  "list_all (\<lambda>(s, n). length s \<le> n) cols \<Longrightarrow> spares data_error (insertM E cols clash ins)"
  by (auto simp: spares_def insertM_def fits_def data_error_def integrity_error_def)

lemma app_error_spared [simp]: "raise_app c m d \<noteq> data_error" "data_error \<noteq> raise_app c m d"
  by (simp_all add: raise_app_def data_error_def)

lemma spares_audit [spare_intros]:
  "length action \<le> 64 \<Longrightarrow> (\<And>a. ip = Some a \<Longrightarrow> length a \<le> 64) \<Longrightarrow> spares data_error (record_audit E action u ip dt)"
  unfolding record_audit_def by (intro spare_intros) (auto split: option.splits)

section \<open>Requests that write text\<close>

text \<open>Every request that stores texts, other than those that submit indicators.\<close>

fun records_text :: "'tok api_call \<Rightarrow> bool" where
  "records_text (Register email pw) = True"
| "records_text (Login email pw peer fwd) = True"
| "records_text (CreateKey name) = True"
| "records_text (RevokeKey k) = True"
| "records_text (SetRole i r) = True"
| "records_text (SetActive i b) = True"
| "records_text (AddRelationship p) = True"
| "records_text (CreateRule p) = True"
| "records_text (DeleteRule i) = True"
| "records_text (CreateActor p) = True"
| "records_text (DeleteActor i) = True"
| "records_text _ = False"

text \<open>
  What the libraries yield: an address \<open>EmailStr\<close> accepts has at most 254 characters, an encoded
  Argon2 hash fits its column, a SHA-256 digest has 64 hexadecimal digits.
\<close>

definition library_widths :: "('t, 's, 'tok, 'g) api_deps \<Rightarrow> bool" where
  "library_widths D \<longleftrightarrow>
     (\<forall>s n. ap_email D s = Some n \<longrightarrow> length n \<le> 254) \<and>
     (\<forall>n p. length (argon_hash (ad_argon (ap_auth D)) n p) \<le> 255) \<and>
     (\<forall>s. length (ad_sha256 (ap_auth D) s) = 64)"

text \<open>The address a login is recorded under.\<close>

fun peer_fits :: "('t, 's, 'tok, 'g) api_deps \<Rightarrow> 'tok api_call \<Rightarrow> bool" where
  "peer_fits D (Login email pw peer fwd) =
     (case client_ip (proxy_trust (st_trusted_proxies (ap_settings D))) peer fwd of
        None \<Rightarrow> True | Some a \<Rightarrow> length a \<le> 64)"
| "peer_fits D _ = True"

lemma length_py_lower [simp]: "length (py_lower s) = length s"
  by (simp add: py_lower_def)

lemma spares_register:
  "length email \<le> 320 \<Longrightarrow> (\<And>n p. length (argon_hash (ad_argon A) n p) \<le> 255) \<Longrightarrow>
   spares data_error (register A email pw r)"
  unfolding register_def Let_def email_exists_def add_user_def by (intro spare_intros) simp_all

lemma spares_throttle [spare_intros]:
  "spares e (is_locked A i)" "spares e (retry_after A i)" "spares e (count_failure A i)"
  "spares e (clear_failures A i)"
  by (simp_all add: spares_def is_locked_def retry_after_def count_failure_def clear_failures_def split: prod.split)

lemma spares_issue [spare_intros]: "spares e (issue_pair J T E s r)"
  unfolding issue_pair_def encode_token_def by (intro spare_intros)

lemma spares_authenticate:
  "(\<And>a. ip = Some a \<Longrightarrow> length a \<le> 64) \<Longrightarrow> spares data_error (authenticate A email pw ip)"
  unfolding authenticate_def Let_def get_by_email_def update_user_def bad_login_def
  by (intro spare_intros) simp_all

lemma spares_users:
  "spares data_error (set_user_role E i k ro)" "spares data_error (set_user_active E i k b)"
  unfolding set_user_role_def set_user_active_def get_user_def find_user_def count_active_with_role_def update_user_def
  by (intro spare_intros; simp)+

lemma spares_keys:
  "length name \<le> 64 \<Longrightarrow> (\<And>s. length (ad_sha256 A s) = 64) \<Longrightarrow> spares data_error (create_api_key A i name)"
  "spares data_error (revoke_api_key E i k)"
  unfolding create_api_key_def revoke_api_key_def get_user_def find_user_def add_key_def get_for_user_def
    update_key_def Let_def
  by (intro spare_intros; simp add: generate_api_key_def Let_def hash_api_key_def prefix_len_def)+

lemma spares_edges:
  "length src \<le> 2100 \<Longrightarrow> length dst \<le> 2100 \<Longrightarrow> length rel \<le> 32 \<Longrightarrow>
   spares data_error (add_relationship E src dst rel c u)"
  unfolding add_relationship_def upsert_edge_def by (intro spare_intros) simp_all

lemma spares_rules:
  "length n \<le> 128 \<Longrightarrow> length m \<le> 32 \<Longrightarrow> length op \<le> 4 \<Longrightarrow> length ch \<le> 16 \<Longrightarrow>
   spares data_error (create_rule E n m op t ch cfg)"
  "spares data_error (delete_rule E i)"
  unfolding create_rule_def delete_rule_def Let_def by (intro spare_intros; simp)+

lemma spares_actors:
  "length (acd_name a) \<le> 128 \<Longrightarrow> length (acd_kind a) \<le> 32 \<Longrightarrow>
   (\<And>c. acd_country a = Some c \<Longrightarrow> length c \<le> 4) \<Longrightarrow> spares data_error (create_actor E a u)"
  "spares data_error (delete_actor E i u)"
  unfolding create_actor_def delete_actor_def get_actor_def Let_def
  by (intro spare_intros; simp add: actor_of_def split: option.split)+

lemma spares_json: "r \<noteq> Inl data_error \<Longrightarrow> spares data_error (jsonM r)"
  unfolding jsonM_def by (intro spare_intros) simp

lemma response_spared:
  "user_json D u \<noteq> Inl data_error" "key_out S k \<noteq> Inl data_error"
  by (auto simp: user_json_def user_out_def key_out_def checked_def data_error_def bindE_Inl_iff split: option.splits)

lemma spares_changes:
  "spares data_error (endpoint D u (RevokeKey k))" "spares data_error (endpoint D u (SetRole i r))"
  "spares data_error (endpoint D u (SetActive i b))" "spares data_error (endpoint D u (DeleteRule i))"
  "spares data_error (endpoint D u (DeleteActor i))"
  unfolding endpoint.simps api_revoke_key_def api_set_role_def api_set_active_def api_delete_rule_def
    api_delete_actor_def
  by (intro spare_intros spares_keys spares_users spares_rules spares_actors spares_json response_spared)+

lemma spares_accounts:
  "valid_call (ap_email D) (Register email pw) \<Longrightarrow> library_widths D \<Longrightarrow>
   spares data_error (endpoint D u (Register email pw))"
  "library_widths D \<Longrightarrow> peer_fits D (Login email pw peer fwd) \<Longrightarrow>
   valid_call (ap_email D) (Login email pw peer fwd) \<Longrightarrow>
   spares data_error (endpoint D u (Login email pw peer fwd))"
  "valid_call (ap_email D) (CreateKey name) \<Longrightarrow> library_widths D \<Longrightarrow>
   spares data_error (endpoint D u (CreateKey name))"
proof -
  have sent: "length (sent_email D email) \<le> 320" if "ap_email D email \<noteq> None" "library_widths D" for email
    using that by (fastforce simp: sent_email_def library_widths_def)
  show "valid_call (ap_email D) (Register email pw) \<Longrightarrow> library_widths D \<Longrightarrow>
    spares data_error (endpoint D u (Register email pw))"
    using sent unfolding endpoint.simps api_register_def
    by (intro spare_intros spares_register spares_json response_spared)
       (auto simp: valid_register_def library_widths_def)
  show "library_widths D \<Longrightarrow> peer_fits D (Login email pw peer fwd) \<Longrightarrow>
    valid_call (ap_email D) (Login email pw peer fwd) \<Longrightarrow>
    spares data_error (endpoint D u (Login email pw peer fwd))"
    unfolding endpoint.simps api_login_def by (intro spare_intros spares_authenticate) simp
  show "valid_call (ap_email D) (CreateKey name) \<Longrightarrow> library_widths D \<Longrightarrow>
    spares data_error (endpoint D u (CreateKey name))"
    unfolding endpoint.simps api_create_key_def
    by (intro spare_intros spares_keys response_spared)
       (simp_all add: valid_key_name_def sized_def library_widths_def)
qed

lemma spares_records:
  "valid_call E (AddRelationship p) \<Longrightarrow> spares data_error (endpoint D u (AddRelationship p))"
  "valid_call E (CreateRule q) \<Longrightarrow> spares data_error (endpoint D u (CreateRule q))"
  "valid_call E (CreateActor a) \<Longrightarrow> spares data_error (endpoint D u (CreateActor a))"
  unfolding endpoint.simps api_add_relationship_def api_create_rule_def api_create_actor_def
  by (intro spare_intros spares_edges spares_rules spares_actors;
      auto simp: valid_relation_def ref_ok_def relationships_def valid_rule_def valid_actor_def sized_def
        optional_def actor_types_def)+

section \<open>Property\<close>


text \<open>A deployment whose libraries keep to those widths.\<close>

definition wide_api ::
  "(entries, revocations, string \<times> string \<times> (string \<times> json) list, (string \<times> string \<times> edge_data) list) api_deps" where
  "wide_api = demo_api\<lparr>
     ap_auth := (demo_deps 5)\<lparr>ad_argon := demo_argon\<lparr>argon_hash := (\<lambda>n p. take 97 (CHR ''h'' # p))\<rparr>,
       ad_sha256 := (\<lambda>s. take 64 (s @ replicate 64 CHR ''0''))\<rparr>,
     ap_email := (\<lambda>s. if length s \<le> 254 then Some s else None)\<rparr>"


section \<open>A valid URL no row can hold\<close>

text \<open>
  The address of a URL may have 2048 characters, its defanged form 2100; but every dot of it is
  defanged into three characters, those of the path included.
\<close>

definition dotted_url :: "nat \<Rightarrow> string" where
  "dotted_url n = ''http://a.org/'' @ replicate n CHR ''.''"

lemma occurs_dots: "t \<noteq> [] \<Longrightarrow> \<not> ci_eq (hd t) CHR ''.'' \<Longrightarrow> \<not> occurs ci_eq t (replicate n CHR ''.'')"
  by (induction n) (cases t; simp)+

lemma dotted_reads: "classify_indicator (dotted_url n) = Inr \<lparr>ptype = Url, pvalue = dotted_url n\<rparr>"
proof -
  let ?u = "dotted_url n"
  have ns: "\<forall>c\<in>set ?u. \<not> is_space c" by (auto simp: dotted_url_def is_space_def)
  have pl: "list_all plain_char ?u" by (auto simp: dotted_url_def plain_char_def is_space_def list_all_iff)
  have "fanged ?u"
    by (simp add: fanged_def dotted_url_def ci_eq_def lower_char_def is_upper_def occurs_dots)
  with pl have "refang ?u = ?u" by (rule refang_plain)
  then have v: "py_strip (refang ?u) = ?u" by (simp add: strip_no_space [OF ns])
  then have t: "trimmed ?u" by (metis trimmed_strip)
  have "urlsplit ?u = Some \<lparr>scheme = ''http'', netloc = ''a.org''\<rparr>"
    by (simp add: urlsplit_def dotted_url_def Let_def split_scheme_def lstrip_by_def is_alnum_def is_digit_def is_scheme_char_def prefix_def startswith_def netloc_ok_def before_def after_def is_letter_def is_lower_def is_upper_def py_lower_def lower_char_def filter_replicate)
  have "\<not> list_all is_hex ?u" "\<not> cve_shape ?u" "\<not> technique_shape ?u"
    by (simp_all add: dotted_url_def is_hex_def is_digit_def cve_shape_def py_upper_def upper_char_def is_lower_def
        technique_shape_def startswith_def)
  moreover have "reads_as_url ?u = Inr True"
    by (simp add: reads_as_url_def \<open>urlsplit ?u = _\<close>) (simp add: dotted_url_def)
  moreover have "?u \<noteq> []" by (simp add: dotted_url_def)
  ultimately show ?thesis
    unfolding classify_indicator_def v
    by (simp add: classify_value_def hash_type_def hash_re_iff [OF t] cve_re_iff [OF t] technique_re_iff [OF t])
qed

lemma dotted_defanged: "defang (dotted_url n) = ''hxxp[://]a[.]org/'' @ concat (replicate n ''[.]'')"
proof -
  have d: "py_replace ''http'' ''hxxp'' (dotted_url n) = ''hxxp://a.org/'' @ replicate n CHR ''.''"
    using replace_absent [of "CHR ''h''" "''http''" "replicate n CHR ''.''" "''hxxp''"]
    by (simp add: dotted_url_def py_replace_def)
  have n: "concat (map (\<lambda>x. if x = CHR ''.'' then ''[.]'' else [x]) (replicate n CHR ''.'')) = concat (replicate n ''[.]'')"
    by (simp add: map_replicate_const)
  have s: "py_replace ''://'' ''[://]'' (concat (replicate n ''[.]'')) = concat (replicate n ''[.]'')"
    by (rule replace_absent [of "CHR ''/''"]) auto
  have a: "concat (map (\<lambda>x. if x = CHR ''@'' then ''[at]'' else [x]) (concat (replicate n ''[.]''))) = concat (replicate n ''[.]'')"
    by (induction n) simp_all
  show ?thesis
    unfolding defang_def d replace_char using n s a by (simp add: py_replace_def)
qed

lemma length_dots: "length (concat (replicate n xs)) = n * length xs"
  by (induction n) simp_all


lemma dotted_valid: "n \<le> 2035 \<Longrightarrow> sized 1 2048 (dotted_url n)"
  by (simp add: sized_def dotted_url_def)

lemma dotted_too_wide: "695 \<le> n \<Longrightarrow> \<not> narrow ''iocs'' (ioc_texts (new_row E q \<lparr>ptype = Url, pvalue = dotted_url n\<rparr> sc i))"
  by (simp add: narrow_def ioc_texts_def new_row_def dotted_defanged length_dots)

lemma bind_fails: "fst (m w) = Inl e \<Longrightarrow> fst (bindM m f w) = Inl e"
  by (cases "m w") (simp add: bindM_def)

lemma dotted_url_fails:
  assumes "strict_columns (ap_env D)" "695 \<le> n" "ic_value p = dotted_url n" "\<not> ic_enrich p"
    and "(''url'', dotted_url n) \<notin> set (map ioc_key (iocs (tables w)))"
  shows "fst (endpoint D u (CreateIoc p) w) = Inl data_error"
proof -
  have none: "filter (\<lambda>r. ioc_key r = (''url'', dotted_url n)) (iocs (tables w)) = []"
    using assms(5) by (force simp: filter_empty_conv)
  have add: "fst (add_ioc (ap_env D) (new_row (ap_env D) (create_request u p)
      \<lparr>ptype = Url, pvalue = dotted_url n\<rparr> sc i) w1) = Inl data_error" for sc i w1
    using assms(1,2) by (simp add: widths_enforced dotted_too_wide)
  have "fst (store_row (ap_env D) (create_request u p) \<lparr>ptype = Url, pvalue = dotted_url n\<rparr> sc None w1) =
      Inl data_error" for sc w1
    by (simp add: store_row_def bindM_def [of "fresh_id _"] fresh_id_def) (rule bind_fails [OF add])
  then have "fst (upsert (get_ioc_service D) (create_request u p) w) = Inl data_error"
    using assms(3,4) none
    by (simp add: upsert_def create_request_def dotted_reads bindM_def [of "liftM _"] liftM_def
       bindM_def [of "select_one _"] get_by_type_value_def select_one_def one_or_none_def
       get_ioc_service_def Let_def) (rule bind_fails, assumption)
  then show ?thesis unfolding endpoint.simps api_create_ioc_def by (rule bind_fails)
qed

end
