(* ===== verification/Scripts.thy ===== *)
theory Scripts
  imports Settings "HOL-Library.Word"
begin

unbundle bit_operations_syntax

text \<open>
  The command-line scripts of \<open>app/scripts\<close>, and the random texts they and
  \<open>app/security/api_keys.py\<close> draw.  Python's \<open>secrets\<close> and \<open>base64\<close> are modelled over bytes, which come
  from outside; a fresh Fernet key is the library's.
\<close>

section \<open>URL-safe base 64\<close>

type_synonym bytes = "8 word list"

definition b64_alphabet :: string where
  "b64_alphabet = ''ABCDEFGHIJKLMNOPQRSTUVWXYZabcdefghijklmnopqrstuvwxyz0123456789-_''"

definition b64_char :: "8 word \<Rightarrow> char" where
  "b64_char i = b64_alphabet ! unat i"

text \<open>Three bytes in four groups of six bits, and a rest of one or two bytes in two or three.\<close>

fun sextets :: "bytes \<Rightarrow> 8 word list" where
  "sextets (a # b # c # bs) =
     drop_bit 2 a # (push_bit 4 (take_bit 2 a) OR drop_bit 4 b) #
     (push_bit 2 (take_bit 4 b) OR drop_bit 6 c) # take_bit 6 c # sextets bs"
| "sextets [a, b] = [drop_bit 2 a, push_bit 4 (take_bit 2 a) OR drop_bit 4 b, push_bit 2 (take_bit 4 b)]"
| "sextets [a] = [drop_bit 2 a, push_bit 4 (take_bit 2 a)]"
| "sextets [] = []"

definition b64_groups :: "bytes \<Rightarrow> string" where
  "b64_groups bs = map b64_char (sextets bs)"

definition urlsafe_b64encode :: "bytes \<Rightarrow> string" where
  "urlsafe_b64encode bs =
     (let s = b64_groups bs in s @ replicate ((4 - length s mod 4) mod 4) CHR ''='')"

definition token_urlsafe :: "bytes \<Rightarrow> string" where
  "token_urlsafe bs = rstrip_by (\<lambda>c. c = CHR ''='') (urlsafe_b64encode bs)"

section \<open>The scripts\<close>

text \<open>\<open>gen_keys.main\<close>: the printed lines; \<open>key\<close> is what \<open>generate_master_key\<close> returns.\<close>

definition gen_keys_main :: "string \<Rightarrow> bytes \<Rightarrow> string list" where
  "gen_keys_main key bs =
     [''# Add these to your .env (keep them secret!)'',
      ''MASTER_ENCRYPTION_KEY='' @ key,
      ''JWT_SECRET_KEY='' @ token_urlsafe bs]"

text \<open>
  \<open>create_admin._read_password\<close>: the environment first, then two prompts that must agree
  (\<open>SystemExit\<close> otherwise); and the command.
\<close>

definition read_password :: "string option \<Rightarrow> string \<Rightarrow> string \<Rightarrow> exn + string" where
  "read_password from_env first second =
     (case from_env of
        Some p \<Rightarrow> if p \<noteq> [] then Inr p
                  else if first \<noteq> second then Inl (PyExc OtherError ''Passwords do not match.'') else Inr first
      | None \<Rightarrow> if first \<noteq> second then Inl (PyExc OtherError ''Passwords do not match.'') else Inr first)"

definition create_admin_command ::
  "env \<Rightarrow> argon \<Rightarrow> nat \<Rightarrow> string \<Rightarrow> string option \<Rightarrow> string \<Rightarrow> string \<Rightarrow> (int, 'x) eff" where
  "create_admin_command E H salt email from_env first second =
     bindM (liftM (read_password from_env first second)) (create_admin_main E H salt email)"

section \<open>Lemmas\<close>

text \<open>Reading the characters back.\<close>

definition b64_value :: "char \<Rightarrow> 8 word" where
  "b64_value c = of_nat (length (takeWhile (\<lambda>x. x \<noteq> c) b64_alphabet))"

fun b64_bytes :: "8 word list \<Rightarrow> bytes" where
  "b64_bytes (x # y # z # v # r) =
     (push_bit 2 x OR drop_bit 4 y) # (push_bit 4 y OR drop_bit 2 z) # (push_bit 6 z OR v) # b64_bytes r"
| "b64_bytes [x, y, z] = [push_bit 2 x OR drop_bit 4 y, push_bit 4 y OR drop_bit 2 z]"
| "b64_bytes [x, y] = [push_bit 2 x OR drop_bit 4 y]"
| "b64_bytes _ = []"

lemma b64_distinct: "distinct b64_alphabet" "length b64_alphabet = 64" "CHR ''='' \<notin> set b64_alphabet"
  by code_simp+

lemma takeWhile_index: "distinct xs \<Longrightarrow> i < length xs \<Longrightarrow> length (takeWhile (\<lambda>x. x \<noteq> xs ! i) xs) = i"
proof (induction xs arbitrary: i)
  case (Cons x xs)
  then show ?case by (cases i) auto
qed simp

lemma value_of_char: "unat i < 64 \<Longrightarrow> b64_value (b64_char i) = i"
  using takeWhile_index [OF b64_distinct(1), of "unat i"]
  by (simp add: b64_value_def b64_char_def b64_distinct(2))

lemma char_in_alphabet: "unat i < 64 \<Longrightarrow> b64_char i \<in> set b64_alphabet"
  by (simp add: b64_char_def b64_distinct(2))

lemma byte_high: "8 \<le> n \<Longrightarrow> \<not> bit (a :: 8 word) n"
  by (auto dest: bit_imp_le_length)

lemma byte_eq_iff:
  "(a :: 8 word) = b \<longleftrightarrow> (bit a 0 \<longleftrightarrow> bit b 0) \<and> (bit a 1 \<longleftrightarrow> bit b 1) \<and> (bit a 2 \<longleftrightarrow> bit b 2) \<and>
     (bit a 3 \<longleftrightarrow> bit b 3) \<and> (bit a 4 \<longleftrightarrow> bit b 4) \<and> (bit a 5 \<longleftrightarrow> bit b 5) \<and> (bit a 6 \<longleftrightarrow> bit b 6) \<and> (bit a 7 \<longleftrightarrow> bit b 7)"
proof -
  have "a = b \<longleftrightarrow> (\<forall>n<8. bit a n \<longleftrightarrow> bit b n)"
    using byte_high by (auto simp: bit_eq_iff)
  also have "\<dots> \<longleftrightarrow> list_all (\<lambda>n. bit a n \<longleftrightarrow> bit b n) [0, 1, 2, 3, 4, 5, 6, 7]"
    by (simp add: eval_nat_numeral less_Suc_eq all_conj_distrib imp_disjL)
  finally show ?thesis by simp
qed

lemma six_bits:
  fixes a b :: "8 word"
  shows "take_bit 6 (drop_bit 2 a) = drop_bit 2 a"
    "take_bit 6 (push_bit 4 (take_bit 2 a) OR drop_bit 4 b) = push_bit 4 (take_bit 2 a) OR drop_bit 4 b"
    "take_bit 6 (push_bit 2 (take_bit 4 a) OR drop_bit 6 b) = push_bit 2 (take_bit 4 a) OR drop_bit 6 b"
    "take_bit 6 (push_bit 2 (take_bit 4 a)) = push_bit 2 (take_bit 4 a)"
    "take_bit 6 (push_bit 4 (take_bit 2 a)) = push_bit 4 (take_bit 2 a)"
  by (simp_all only: byte_eq_iff) (simp_all add: bit_simps byte_high)

lemma bytes_back:
  fixes a b c :: "8 word"
  shows "push_bit 2 (drop_bit 2 a) OR drop_bit 4 (push_bit 4 (take_bit 2 a) OR drop_bit 4 b) = a"
    "push_bit 4 (push_bit 4 (take_bit 2 a) OR drop_bit 4 b) OR drop_bit 2 (push_bit 2 (take_bit 4 b) OR drop_bit 6 c) = b"
    "push_bit 6 (push_bit 2 (take_bit 4 b) OR drop_bit 6 c) OR take_bit 6 c = c"
    "push_bit 2 (drop_bit 2 a) OR drop_bit 4 (push_bit 4 (take_bit 2 a)) = a"
    "push_bit 4 (push_bit 4 (take_bit 2 a) OR drop_bit 4 b) OR drop_bit 2 (push_bit 2 (take_bit 4 b)) = b"
  by (simp_all only: byte_eq_iff) (simp_all add: bit_simps byte_high)

lemma sextet_bound: "take_bit 6 x = x \<Longrightarrow> unat (x :: 8 word) < 64"
  using take_bit_nat_less_exp [of 6 "unat x"] unsigned_take_bit_eq [of 6 x, where 'a = nat] by simp

lemma sextets_six: "\<forall>x\<in>set (sextets bs). take_bit 6 x = x"
  by (induction bs rule: sextets.induct) (simp_all only: sextets.simps list.set ball_simps six_bits, simp_all)

lemma sextets_back: "b64_bytes (sextets bs) = bs"
  by (induction bs rule: sextets.induct) (simp_all only: sextets.simps b64_bytes.simps bytes_back)

lemma length_sextets: "length (sextets bs) = (4 * length bs + 2) div 3"
  by (induction bs rule: sextets.induct) simp_all

lemma groups_alphabet: "c \<in> set (b64_groups bs) \<Longrightarrow> c \<in> set b64_alphabet"
  using char_in_alphabet sextet_bound sextets_six by (auto simp: b64_groups_def)

lemma rstrip_padding: "x \<notin> set s \<Longrightarrow> rstrip_by (\<lambda>c. c = x) (s @ replicate n x) = s"
proof -
  assume "x \<notin> set s"
  then have "dropWhile (\<lambda>c. c = x) (rev s) = rev s" by (cases s rule: rev_cases) auto
  then show ?thesis by (simp add: rstrip_by_def dropWhile_append)
qed

lemma token_groups: "token_urlsafe bs = b64_groups bs"
proof -
  have "CHR ''='' \<notin> set (b64_groups bs)" using groups_alphabet b64_distinct(3) by blast
  then show ?thesis by (simp add: token_urlsafe_def urlsafe_b64encode_def Let_def rstrip_padding)
qed

lemma token_back: "b64_bytes (map b64_value (token_urlsafe bs)) = bs"
proof -
  have "map (\<lambda>x. b64_value (b64_char x)) (sextets bs) = sextets bs"
    by (intro map_idI value_of_char sextet_bound) (simp add: sextets_six)
  then show ?thesis by (simp add: token_groups b64_groups_def comp_def sextets_back)
qed

lemma token_length: "length (token_urlsafe bs) = (4 * length bs + 2) div 3"
  by (simp add: token_groups b64_groups_def length_sextets)

lemma token_inj: "token_urlsafe bs = token_urlsafe bs' \<Longrightarrow> bs = bs'"
  by (metis token_back)

lemma token_chars: "c \<in> set (token_urlsafe bs) \<Longrightarrow> c \<in> set b64_alphabet"
  by (simp add: token_groups groups_alphabet)

lemma alphabet_plain: "c \<in> set b64_alphabet \<Longrightarrow> \<not> is_space c \<and> c \<noteq> CHR '','' \<and> ord_of c < 128"
proof -
  have "list_all (\<lambda>c. \<not> is_space c \<and> c \<noteq> CHR '','' \<and> ord_of c < 128) b64_alphabet" by code_simp
  then show "c \<in> set b64_alphabet \<Longrightarrow> ?thesis" by (simp add: list_all_iff)
qed

text \<open>A fresh API key is told apart from any other and survives the stripping of what is presented.\<close>

lemma fresh_api_key:
  "hash_api_key sha256 (gen_raw (generate_api_key sha256 (token_urlsafe bs))) = sha256 (gen_raw (generate_api_key sha256 (token_urlsafe bs)))"
  "length bs = 32 \<Longrightarrow> length (gen_raw (generate_api_key sha256 (token_urlsafe bs))) = 47"
  "gen_raw (generate_api_key sha256 (token_urlsafe bs)) = gen_raw (generate_api_key sha256 (token_urlsafe bs')) \<Longrightarrow> bs = bs'"
proof -
  let ?raw = "gen_raw (generate_api_key sha256 (token_urlsafe bs))"
  have "\<forall>c\<in>set ?raw. \<not> is_space c"
    using alphabet_plain token_chars
    by (auto simp: generate_api_key_def Let_def key_text_prefix_def is_space_def)
  then show "hash_api_key sha256 ?raw = sha256 ?raw" by (simp add: hash_api_key_def strip_no_space)
  show "length bs = 32 \<Longrightarrow> length ?raw = 47"
    by (simp add: generate_api_key_def Let_def key_text_prefix_def token_length)
  show "?raw = gen_raw (generate_api_key sha256 (token_urlsafe bs')) \<Longrightarrow> bs = bs'"
    by (simp add: generate_api_key_def Let_def token_inj)
qed

text \<open>A command that succeeds was given a password of ten characters at least, twice the same when typed.\<close>

lemma admin_password_checked:
  "create_admin_command E H salt email from_env first second w = (Inr 0, w') \<Longrightarrow>
   \<exists>pw. read_password from_env first second = Inr pw \<and> 10 \<le> length pw \<and> (pw = first \<and> first = second \<or> from_env = Some pw)"
  by (auto simp: create_admin_command_def bindM_Inr liftM_def create_admin_main_def returnM_def min_password_length_def
      read_password_def split: if_splits option.splits)

lemma single_item: "(\<And>c. c \<in> set k \<Longrightarrow> \<not> is_space c \<and> c \<noteq> CHR '','') \<Longrightarrow> k \<noteq> [] \<Longrightarrow> csv_items k = [k]"
proof -
  assume k: "\<And>c. c \<in> set k \<Longrightarrow> \<not> is_space c \<and> c \<noteq> CHR '',''" "k \<noteq> []"
  then have "CHR '','' \<notin> set k" by blast
  with k show ?thesis by (simp add: csv_items_def split_on_single strip_no_space)
qed

section \<open>Properties\<close>

text \<open>C19: The printed secrets work: whatever the rest of the configuration, settings that take the two
  values from the lines \<open>gen_keys\<close> prints are not refused for a missing or short secret, their
  cipher has just the printed key and reads back everything it encrypts, tokens are signed with
  the printed secret of 64 characters, and no two draws of 48 bytes print the same secret.\<close>

theorem fresh_secrets:
  "fernet_sound F \<Longrightarrow> fernet_key_ok F key \<Longrightarrow> key \<noteq> [] \<Longrightarrow> set key \<subseteq> set b64_alphabet \<union> {CHR ''=''} \<Longrightarrow>
   length bs = 48 \<Longrightarrow> lines = gen_keys_main key bs \<Longrightarrow>
   s' = s\<lparr>st_master_key := after CHR ''='' (lines ! 1), st_jwt_secret := after CHR ''='' (lines ! 2)\<rparr> \<Longrightarrow>
   ''MASTER_ENCRYPTION_KEY'' \<notin> set (missing_settings s') \<and> ''JWT_SECRET_KEY (>= 32 chars)'' \<notin> set (missing_settings s') \<and>
   get_secret_cipher F (is_production s') gen (master_encryption_keys s') = Inr [key] \<and>
   (\<forall>nonce p. \<exists>t. encrypt_secret F [key] nonce (Some p) = Inr t \<and> decrypt_secret F [key] t = Inr p) \<and>
   (\<forall>T. get_token_service s' gen = Inr T \<longrightarrow> ts_secret T = token_urlsafe bs \<and> length (ts_secret T) = 64) \<and>
   (\<forall>bs'. gen_keys_main key bs' = lines \<longrightarrow> bs' = bs)"
proof -
  assume F: "fernet_sound F" and ok: "fernet_key_ok F key" "key \<noteq> []" and ch: "set key \<subseteq> set b64_alphabet \<union> {CHR ''=''}"
    and bs: "length bs = 48" and l: "lines = gen_keys_main key bs"
    and s: "s' = s\<lparr>st_master_key := after CHR ''='' (lines ! 1), st_jwt_secret := after CHR ''='' (lines ! 2)\<rparr>"
  have read: "st_master_key s' = key" "st_jwt_secret s' = token_urlsafe bs"
    by (simp_all add: s l gen_keys_main_def after_def)
  have len: "length (token_urlsafe bs) = 64" using bs by (simp add: token_length)
  have c: "\<not> is_space c \<and> c \<noteq> CHR '','' \<and> ord_of c < 128" if "c \<in> set key" for c
    using that ch alphabet_plain [of c] by (auto simp: is_space_def)
  then have one: "master_encryption_keys s' = [key]" and ascii: "is_ascii key"
    using single_item [of key] ok(2) by (auto simp: master_encryption_keys_def read is_ascii_def list_all_iff)
  have cipher: "get_secret_cipher F b gen [key] = Inr [key]" for b
    using ok(1) ascii by (simp add: get_secret_cipher_def secret_cipher_def)
  have "is_ascii (multi_encrypt F [key] n p) \<and> multi_decrypt F [key] (multi_encrypt F [key] n p) = Some p" for n p
    using fernet_soundD [OF F ok(1) ascii, of "[key]" "[]" n p 0] ok(1) by simp
  then have "\<forall>nonce p. \<exists>t. encrypt_secret F [key] nonce (Some p) = Inr t \<and> decrypt_secret F [key] t = Inr p"
    by (simp add: encrypt_secret_def decrypt_secret_def)
  moreover have "ts_secret T = token_urlsafe bs" if "get_token_service s' gen = Inr T" for T
    using that len by (auto simp: get_token_service_def read token_service_of_def split: if_splits)
  moreover have "token_urlsafe bs \<noteq> []" using len by auto
  ultimately show ?thesis
    using cipher len ok(2) token_inj
    by (auto simp: one read missing_settings_def l gen_keys_main_def)
qed

theorem fresh_secrets_witness:
  "get_secret_cipher plain_fernet False []
     (master_encryption_keys (default_settings\<lparr>st_master_key := ''a'', st_jwt_secret := token_urlsafe (replicate 48 255)\<rparr>)) =
     Inr [''a'']"
proof -
  let ?l = "gen_keys_main ''a'' (replicate 48 255)"
  let ?s = "default_settings\<lparr>st_master_key := after CHR ''='' (?l ! 1), st_jwt_secret := after CHR ''='' (?l ! 2)\<rparr>"
  have "get_secret_cipher plain_fernet (is_production ?s) [] (master_encryption_keys ?s) = Inr [''a'']"
    using fresh_secrets [OF plain_fernet_sound, of "''a''" "replicate 48 255" ?l ?s default_settings "[]"]
    by (simp add: plain_fernet_def b64_alphabet_def)
  then show ?thesis by (simp add: gen_keys_main_def after_def is_production_def default_settings_def)
qed

end
