(* ===== verification/Process.thy ===== *)
theory Process
  imports Settings Resilience
begin

text \<open>
  What a process keeps between runs of an event loop: the engine and the session factory of
  \<open>app/database/session.py\<close> and the registry of circuit breakers, each with the loop it was made in
  (loops are numbered), and \<open>_run\<close> of \<open>app/workers/tasks.py\<close>, which gives every task a loop of its
  own and tidies up after it.  Whether \<open>AsyncEngine.dispose\<close> raises comes from outside.
\<close>

section \<open>The process\<close>

record process =
  pr_engine :: "nat option"
  pr_sessionmaker :: "nat option"
  pr_breakers :: "string \<Rightarrow> nat option"

definition new_process :: process where
  "new_process = \<lparr>pr_engine = None, pr_sessionmaker = None, pr_breakers = Map.empty\<rparr>"

text \<open>\<open>get_engine\<close> makes the engine and the factory bound to it together, once.\<close>

definition open_engine :: "nat \<Rightarrow> process \<Rightarrow> nat \<times> process" where
  "open_engine loop p =
     (case pr_engine p of
        Some l \<Rightarrow> (l, p)
      | None \<Rightarrow> (loop, p\<lparr>pr_engine := Some loop, pr_sessionmaker := Some loop\<rparr>))"

definition get_sessionmaker :: "nat \<Rightarrow> process \<Rightarrow> (exn + nat) \<times> process" where
  "get_sessionmaker loop p =
     (let p1 = (if pr_sessionmaker p = None then snd (open_engine loop p) else p) in
      case pr_sessionmaker p1 of
        Some l \<Rightarrow> (Inr l, p1)
      | None \<Rightarrow> (Inl (PyExc OtherError ''AssertionError''), p1))"

definition reset_engine :: "exn option \<Rightarrow> process \<Rightarrow> (exn + unit) \<times> process" where
  "reset_engine dispose p =
     (case (pr_engine p, dispose) of
        (Some l, Some e) \<Rightarrow> (Inl e, p)
      | _ \<Rightarrow> (Inr (), p\<lparr>pr_engine := None, pr_sessionmaker := None\<rparr>))"

definition breaker_of :: "nat \<Rightarrow> string \<Rightarrow> process \<Rightarrow> nat \<times> process" where
  "breaker_of loop name p =
     (case pr_breakers p name of
        Some l \<Rightarrow> (l, p)
      | None \<Rightarrow> (loop, p\<lparr>pr_breakers := (pr_breakers p)(name \<mapsto> loop)\<rparr>))"

section \<open>A task\<close>

text \<open>What a coroutine asks the process for, one after the other, and the loop of what it gets.\<close>

datatype need = NeedSession | NeedBreaker string

fun hand_out :: "nat \<Rightarrow> need \<Rightarrow> process \<Rightarrow> (exn + nat) \<times> process" where
  "hand_out loop NeedSession p = get_sessionmaker loop p"
| "hand_out loop (NeedBreaker name) p = (case breaker_of loop name p of (l, p1) \<Rightarrow> (Inr l, p1))"

fun perform :: "nat \<Rightarrow> need list \<Rightarrow> process \<Rightarrow> (exn + nat) list \<times> process" where
  "perform loop [] p = ([], p)"
| "perform loop (n # ns) p =
     (case hand_out loop n p of (r, p1) \<Rightarrow>
      case r of Inl e \<Rightarrow> ([Inl e], p1)
      | Inr l \<Rightarrow> (case perform loop ns p1 of (rs, p2) \<Rightarrow> (Inr l # rs, p2)))"

text \<open>\<open>_run\<close>: the coroutine's outcome, unless the tidying up raises first.\<close>

definition run_task ::
  "nat \<Rightarrow> need list \<Rightarrow> exn + 'a \<Rightarrow> exn option \<Rightarrow> process \<Rightarrow> ((exn + 'a) \<times> (exn + nat) list) \<times> process" where
  "run_task loop needs outcome dispose p =
     (case perform loop needs p of (got, p1) \<Rightarrow>
      case reset_engine dispose p1 of
        (Inl e, p2) \<Rightarrow> ((Inl e, got), p2)
      | (Inr _, p2) \<Rightarrow> ((outcome, got), p2\<lparr>pr_breakers := Map.empty\<rparr>))"

text \<open>A worker runs tasks one after the other, each in the next loop.\<close>

fun run_tasks ::
  "nat \<Rightarrow> (need list \<times> (exn + 'a) \<times> exn option) list \<Rightarrow> process \<Rightarrow> ((exn + 'a) \<times> (exn + nat) list) list \<times> process" where
  "run_tasks loop [] p = ([], p)"
| "run_tasks loop ((needs, outcome, dispose) # ts) p =
     (case run_task loop needs outcome dispose p of (r, p1) \<Rightarrow>
      case run_tasks (Suc loop) ts p1 of (rs, p2) \<Rightarrow> (r # rs, p2))"

section \<open>Lemmas\<close>

text \<open>Everything the process holds was made in this loop.\<close>

definition of_loop :: "nat \<Rightarrow> process \<Rightarrow> bool" where
  "of_loop loop p \<longleftrightarrow>
     pr_sessionmaker p = pr_engine p \<and> pr_engine p \<in> {None, Some loop} \<and> (\<forall>b. pr_breakers p b \<in> {None, Some loop})"

lemma handed_out: "of_loop loop p \<Longrightarrow> hand_out loop n p = (r, p') \<Longrightarrow> r = Inr loop \<and> of_loop loop p'"
proof (cases n)
  case NeedSession
  then show "of_loop loop p \<Longrightarrow> hand_out loop n p = (r, p') \<Longrightarrow> ?thesis"
    by (auto simp: of_loop_def get_sessionmaker_def open_engine_def Let_def) metis
next
  case (NeedBreaker b)
  assume p: "of_loop loop p" and h: "hand_out loop n p = (r, p')"
  from p have "pr_breakers p b = None \<or> pr_breakers p b = Some loop" by (simp add: of_loop_def)
  then show ?thesis
  proof
    assume "pr_breakers p b = None"
    with p h show ?thesis by (auto simp: NeedBreaker of_loop_def breaker_of_def) metis+
  next
    assume "pr_breakers p b = Some loop"
    with p h show ?thesis by (auto simp: NeedBreaker of_loop_def breaker_of_def)
  qed
qed

lemma performed: "of_loop loop p \<Longrightarrow> perform loop ns p = (rs, p') \<Longrightarrow> rs = map (\<lambda>n. Inr loop) ns \<and> of_loop loop p'"
proof (induction ns arbitrary: p rs)
  case (Cons n ns)
  obtain r p1 where s: "hand_out loop n p = (r, p1)" by fastforce
  from handed_out [OF Cons.prems(1) s] have "r = Inr loop" "of_loop loop p1" by simp_all
  with Cons.prems(2) s Cons.IH [of p1] show ?case by (auto split: prod.splits)
qed simp

lemma fresh_of_loop: "of_loop loop new_process"
  by (simp add: of_loop_def new_process_def)

lemma task_tidies:
  assumes "run_task loop needs outcome None new_process = (r, p')"
  shows "r = (outcome, map (\<lambda>n. Inr loop) needs) \<and> p' = new_process"
proof -
  obtain got p1 where p: "perform loop needs new_process = (got, p1)" by fastforce
  from performed [OF fresh_of_loop p] assms p show ?thesis
    by (cases p1) (auto simp: run_task_def reset_engine_def new_process_def split: option.splits)
qed

lemma tasks_tidy:
  "\<forall>t\<in>set ts. snd (snd t) = None \<Longrightarrow> run_tasks loop ts new_process = (rs, p') \<Longrightarrow>
   p' = new_process \<and> rs = map2 (\<lambda>i (needs, outcome, d). (outcome, map (\<lambda>n. Inr i) needs)) [loop..<loop + length ts] ts"
proof (induction ts arbitrary: loop rs)
  case (Cons t ts)
  obtain needs outcome where t: "t = (needs, outcome, None)" using Cons.prems(1) by (cases t) auto
  obtain r p1 where run: "run_task loop needs outcome None new_process = (r, p1)" by fastforce
  from task_tidies [OF run] Cons.prems(2) Cons.IH [of "Suc loop"] Cons.prems(1) run show ?case
    by (auto simp: t upt_conv_Cons simp del: upt_Suc split: prod.splits)
qed simp

text \<open>
  When giving the engine up raises, it stays, and so do the breakers: the next task is handed the
  session factory of a loop that is closed.
\<close>

lemma failed_dispose_leaks:
  "run_tasks 0 [([NeedSession], Inr (), Some e), ([NeedSession, NeedBreaker b], Inr (), None)] new_process =
   ([(Inl e, [Inr 0]), (Inr (), [Inr 0, Inr 1])], new_process)"
  by (simp add: run_task_def new_process_def get_sessionmaker_def open_engine_def reset_engine_def breaker_of_def)

section \<open>Properties\<close>

text \<open>No task uses anything of another task's event loop: as long as giving up the engine does not
  raise, each task of a worker gets its session factory and circuit breakers from its own loop,
  whatever the tasks before it asked for and however they ended, returns its own outcome, and
  leaves nothing behind; asking for the session factory never fails its assertion.\<close>

theorem tasks_isolated:
  "\<forall>t\<in>set ts. snd (snd t) = None \<Longrightarrow> run_tasks 0 ts new_process = (rs, p') \<Longrightarrow>
   p' = new_process \<and> length rs = length ts \<and>
   (\<forall>i<length ts. rs ! i = (fst (snd (ts ! i)), map (\<lambda>n. Inr i) (fst (ts ! i))))"
  using tasks_tidy [of ts 0 rs p'] by (auto simp: case_prod_beta)

theorem tasks_isolated_witness:
  "fst (run_tasks 0 [([NeedBreaker ''collector:urlhaus'', NeedSession], Inl e, None), ([NeedSession], Inr (), None)] new_process) ! 1 =
   (Inr (), [Inr 1])"
proof -
  let ?ts = "[([NeedBreaker ''collector:urlhaus'', NeedSession], Inl e, None), ([NeedSession], Inr (), None)]"
  obtain rs p' where "run_tasks 0 ?ts new_process = (rs, p')" by fastforce
  with tasks_isolated [of ?ts rs p'] show ?thesis by auto
qed

end
