(* ===== verification/Startup.thy ===== *)
theory Startup
  imports Process Migration "HOL-Library.Multiset"
begin

text \<open>
  Start-up of the application: \<open>lifespan\<close> of \<open>app/main.py\<close> and \<open>init_models\<close> of
  \<open>app/database/session.py\<close>, which creates the tables the ORM classes declare unless they exist.
  SQLAlchemy's \<open>create_all\<close> takes the classes in an order in which foreign keys refer to earlier
  tables; the order is a parameter.
\<close>

section \<open>Creating the tables\<close>

definition class_ddl :: "orm_class \<Rightarrow> ddl list" where
  "class_ddl m =
     CreateTable (orm_table m) (orm_columns m) (orm_constraints m) #
     map (\<lambda>(i, t, cs, u). CreateIndex i t cs u) (orm_indexes m)"

definition init_models :: "orm_class list \<Rightarrow> catalogue \<Rightarrow> catalogue option" where
  "init_models ms c =
     run_all (concat (map class_ddl (filter (\<lambda>m. orm_table m \<notin> set (map fst (cat_tables c))) ms))) c"

definition lifespan :: "orm_class list \<Rightarrow> settings \<Rightarrow> catalogue \<Rightarrow> exn + catalogue" where
  "lifespan ms s c =
     bindE (start_up s) (\<lambda>creates.
       if creates
       then (case init_models ms c of Some c' \<Rightarrow> Inr c' | None \<Rightarrow> Inl (PyExc OtherError ''OperationalError''))
       else Inr c)"

section \<open>Lemmas\<close>

fun targets_in :: "string list \<Rightarrow> constr \<Rightarrow> bool" where
  "targets_in ts (ForeignKey k t r rule) \<longleftrightarrow> t \<in> set ts \<and> r = ''id''"
| "targets_in ts _ \<longleftrightarrow> True"

fun ordered_after :: "string list \<Rightarrow> orm_class list \<Rightarrow> bool" where
  "ordered_after ts [] \<longleftrightarrow> True"
| "ordered_after ts (m # ms) \<longleftrightarrow>
     list_all (targets_in ts) (orm_constraints m) \<and> ordered_after (orm_table m # ts) ms"

definition made :: "orm_class list \<Rightarrow> catalogue" where
  "made ms = \<lparr>cat_tables = map (\<lambda>m. (orm_table m, orm_columns m, orm_constraints m)) ms,
              cat_indexes = concat (map orm_indexes ms)\<rparr>"

definition free_of :: "catalogue \<Rightarrow> orm_class list \<Rightarrow> bool" where
  "free_of c ms \<longleftrightarrow>
     set (map fst (cat_tables c)) \<inter> set (map orm_table ms) = {} \<and>
     set (map fst (cat_indexes c)) \<inter> set (map fst (concat (map orm_indexes ms))) = {}"

definition plain_classes :: "orm_class list \<Rightarrow> bool" where
  "plain_classes ms \<longleftrightarrow> distinct (map orm_table ms) \<and> distinct (map fst (concat (map orm_indexes ms)))"

lemma run_all_append: "run_all (ss @ ts) c = (case run_all ss c of None \<Rightarrow> None | Some c' \<Rightarrow> run_all ts c')"
  by (induction ss arbitrary: c) (auto split: option.splits)

lemma index_columns: "(i, t, cs, u) \<in> set (orm_indexes m) \<Longrightarrow> t = orm_table m \<and> set cs \<subseteq> dc_name ` set (orm_columns m)"
  by (force simp: orm_indexes_def orm_columns_def map_filter_def column_def split: if_splits)

lemma create_indexes:
  "map_of (cat_tables c) (orm_table m) = Some (orm_columns m, cons) \<Longrightarrow>
   set xs \<subseteq> set (orm_indexes m) \<Longrightarrow> distinct (map fst (cat_indexes c @ xs)) \<Longrightarrow>
   run_all (map (\<lambda>(i, t, cs, u). CreateIndex i t cs u) xs) c = Some (c\<lparr>cat_indexes := cat_indexes c @ xs\<rparr>)"
proof (induction xs arbitrary: c)
  case (Cons x xs)
  obtain i t cs u where x: "x = (i, t, cs, u)" by (metis prod_cases4)
  from Cons.prems(2) x index_columns [of i t cs u m] have t: "t = orm_table m" "set cs \<subseteq> dc_name ` set (orm_columns m)"
    by auto
  let ?c = "c\<lparr>cat_indexes := cat_indexes c @ [x]\<rparr>"
  have "run_ddl (CreateIndex i t cs u) c = Some ?c"
    using Cons.prems(1,3) t by (simp add: x)
  moreover have "run_all (map (\<lambda>(i, t, cs, u). CreateIndex i t cs u) xs) ?c = Some (?c\<lparr>cat_indexes := cat_indexes ?c @ xs\<rparr>)"
    using Cons.prems by (intro Cons.IH) auto
  ultimately show ?case by (simp add: x)
qed simp

lemma create_class:
  assumes fresh: "orm_table m \<notin> set (map fst (cat_tables c))"
    and keys: "list_all (resolves c) (orm_constraints m)"
    and ix: "distinct (map fst (cat_indexes c @ orm_indexes m))"
  shows "run_all (class_ddl m) c =
    Some \<lparr>cat_tables = cat_tables c @ [(orm_table m, orm_columns m, orm_constraints m)],
          cat_indexes = cat_indexes c @ orm_indexes m\<rparr>"
proof -
  let ?c = "c\<lparr>cat_tables := cat_tables c @ [(orm_table m, orm_columns m, orm_constraints m)]\<rparr>"
  have "map_of (cat_tables c) (orm_table m) = None" using fresh by (simp add: map_of_eq_None_iff)
  then have t: "map_of (cat_tables ?c) (orm_table m) = Some (orm_columns m, orm_constraints m)"
    by (simp add: map_add_def)
  have "run_ddl (CreateTable (orm_table m) (orm_columns m) (orm_constraints m)) c = Some ?c"
    using fresh keys by simp
  moreover from create_indexes [OF t, of "orm_indexes m"] ix
  have "run_all (map (\<lambda>(i, t, cs, u). CreateIndex i t cs u) (orm_indexes m)) ?c =
      Some (?c\<lparr>cat_indexes := cat_indexes c @ orm_indexes m\<rparr>)" by simp
  ultimately show ?thesis by (simp add: class_ddl_def)
qed

lemma made_resolves:
  assumes "targets_in (rev (map orm_table ds)) k" "free_of c ds" "distinct (map orm_table ds)"
  shows "resolves (beside c (made ds)) k"
proof (cases k)
  case (ForeignKey x t r rule)
  with assms(1) obtain m where m: "m \<in> set ds" "t = orm_table m" "r = ''id''" by auto
  with assms(2) have "t \<notin> set (map fst (cat_tables c))" by (auto simp: free_of_def)
  moreover have "map_of (cat_tables (made ds)) t = Some (orm_columns m, orm_constraints m)"
    using m assms(3) by (intro map_of_is_SomeI) (auto simp: made_def comp_def)
  ultimately have "map_of (cat_tables (beside c (made ds))) t = Some (orm_columns m, orm_constraints m)"
    by (simp add: map_of_beside)
  with m ForeignKey show ?thesis by (simp add: orm_constraints_def)
qed simp_all

lemma made_append: "beside c (made (ds @ ms)) =
    \<lparr>cat_tables = cat_tables (beside c (made ds)) @ cat_tables (made ms),
     cat_indexes = cat_indexes (beside c (made ds)) @ cat_indexes (made ms)\<rparr>"
  by (simp add: beside_def made_def)

lemma free_append: "free_of c (ds @ ms) \<longleftrightarrow> free_of c ds \<and> free_of c ms"
  by (simp only: free_of_def map_append concat_append set_append Int_Un_distrib Un_empty conj_ac)

lemma create_classes:
  "ordered_after (rev (map orm_table ds)) ms \<Longrightarrow> free_of c (ds @ ms) \<Longrightarrow> plain_classes (ds @ ms) \<Longrightarrow>
   distinct (map fst (cat_indexes c)) \<Longrightarrow>
   run_all (concat (map class_ddl ms)) (beside c (made ds)) = Some (beside c (made (ds @ ms)))"
proof (induction ms arbitrary: ds)
  case (Cons m ms)
  let ?c = "beside c (made ds)"
  have f: "free_of c ds" using Cons.prems(2) by (simp add: free_append)
  have "orm_table m \<notin> set (map fst (cat_tables ?c))"
    using Cons.prems(2,3) by (auto simp: free_of_def plain_classes_def beside_def made_def)
  moreover have "list_all (resolves ?c) (orm_constraints m)"
    using Cons.prems(1,3) f made_resolves [of ds _ c] by (auto simp: list_all_iff plain_classes_def)
  moreover have "distinct (map fst (cat_indexes ?c @ orm_indexes m))"
  proof -
    let ?I = "\<lambda>ns. map fst (concat (map orm_indexes ns))"
    have "?I (ds @ m # ms) = ?I (ds @ [m]) @ ?I ms" by simp
    with Cons.prems(2,3) have "distinct (?I (ds @ [m]))" "set (map fst (cat_indexes c)) \<inter> set (?I (ds @ [m])) = {}"
      unfolding free_of_def plain_classes_def by (metis distinct_append, metis Int_Un_distrib Un_empty set_append)
    with Cons.prems(4) show ?thesis by (simp add: beside_def made_def Int_Un_distrib)
  qed
  ultimately have one: "run_all (class_ddl m) ?c = Some (beside c (made (ds @ [m])))"
    using create_class [of m ?c] by (simp add: made_append) (simp add: made_def)
  have "run_all (concat (map class_ddl ms)) (beside c (made (ds @ [m]))) = Some (beside c (made ((ds @ [m]) @ ms)))"
    using Cons.prems by (intro Cons.IH) simp_all
  with one show ?case by (simp add: run_all_append)
qed simp

lemma made_tables: "set (map fst (cat_tables (made ms))) = set (map orm_table ms)"
  by (auto simp: made_def comp_def)

lemma init_fresh:
  assumes "ordered_after [] ms" "free_of c ms" "plain_classes ms" "distinct (map fst (cat_indexes c))"
  shows "init_models ms c = Some (beside c (made ms))"
proof -
  have "filter (\<lambda>m. orm_table m \<notin> set (map fst (cat_tables c))) ms = ms"
    using assms(2) by (intro filter_all) (auto simp: free_of_def)
  moreover have "beside c (made []) = c" by (simp add: beside_def made_def)
  ultimately show ?thesis using create_classes [of "[]" ms c] assms by (simp add: init_models_def)
qed

lemma init_present: "set (map orm_table ms) \<subseteq> set (map fst (cat_tables c)) \<Longrightarrow> init_models ms c = Some c"
proof -
  assume "set (map orm_table ms) \<subseteq> set (map fst (cat_tables c))"
  then have "filter (\<lambda>m. orm_table m \<notin> set (map fst (cat_tables c))) ms = []" by (auto simp: filter_empty_conv)
  then show ?thesis by (simp add: init_models_def)
qed

lemma made_declares: "distinct (map orm_table ms) \<Longrightarrow> declares ms (made ms)"
proof -
  assume d: "distinct (map orm_table ms)"
  have "map_of (cat_tables (made ms)) (orm_table m) = Some (orm_columns m, orm_constraints m)" if "m \<in> set ms" for m
    using d that by (intro map_of_is_SomeI) (auto simp: made_def comp_def)
  then show ?thesis by (simp add: declares_def list_all_iff made_tables [simplified]) (simp add: made_def)
qed

lemma declares_order: "mset ms = mset ns \<Longrightarrow> declares ms c = declares ns c"
proof -
  assume "mset ms = mset ns"
  then have "set ms = set ns" by (rule mset_eq_setD)
  then show ?thesis by (auto simp: declares_def list_all_iff)
qed

lemma orm_plain: "plain_classes orm_classes"
  by code_simp

lemma plain_order: "mset ms = mset ns \<Longrightarrow> plain_classes ns \<Longrightarrow> plain_classes ms"
proof -
  assume e: "mset ms = mset ns" and p: "plain_classes ns"
  have c: "mset (map fst (concat (map orm_indexes xs))) = (\<Sum>m\<in>#mset xs. mset (map fst (orm_indexes m)))" for xs
    by (induction xs) simp_all
  have "distinct (map fst (concat (map orm_indexes ms))) = distinct (map fst (concat (map orm_indexes ns)))"
    by (rule mset_eq_imp_distinct_iff) (simp only: c e)
  moreover have "distinct (map orm_table ms) = distinct (map orm_table ns)"
    by (rule mset_eq_imp_distinct_iff) (simp add: e)
  ultimately show ?thesis using p by (simp add: plain_classes_def)
qed

lemma free_order: "mset ms = mset ns \<Longrightarrow> free_of c ms = free_of c ns"
proof -
  assume "mset ms = mset ns"
  then have "set ms = set ns" by (rule mset_eq_setD)
  then show ?thesis by (simp add: free_of_def)
qed

text \<open>The order in which the migration creates the tables is one that \<open>create_all\<close> may take.\<close>

definition migration_order :: "orm_class list" where
  "migration_order =
     [user_class, ioc_class, alert_rule_class, threat_actor_class, correlation_edge_class, api_key_class,
      audit_log_class, enrichment_record_class, alert_class]"

lemma migration_order_fits: "mset migration_order = mset orm_classes" "ordered_after [] migration_order"
proof -
  show "mset migration_order = mset orm_classes" by (simp add: migration_order_def orm_classes_def)
  show "ordered_after [] migration_order" by code_simp
qed

section \<open>Properties\<close>

text \<open>C18: Start-up and migration make the same schema: with an acceptable configuration production
  never touches the database; any other deployment finds, on a database without the platform's
  tables, every table created with exactly the columns, constraints and indexes the ORM classes
  declare, whatever admissible order they are created in, and starting again changes nothing.
  On a database nothing of which has to do with it the migration is accepted and adds exactly
  what the classes declare, so that starting on it changes nothing, and its downgrade removes
  just that.\<close>

theorem startup_schema:
  "validate_runtime s = Inr () \<Longrightarrow> mset ms = mset orm_classes \<Longrightarrow> ordered_after [] ms \<Longrightarrow>
   free_of c orm_classes \<Longrightarrow> distinct (map fst (cat_indexes c)) \<Longrightarrow>
   \<exists>d. declares orm_classes d \<and>
     lifespan ms s c = Inr (if is_production s then c else beside c d) \<and>
     lifespan ms s (beside c d) = Inr (beside c d) \<and>
     (unrelated c (upgrade @ downgrade) \<longrightarrow>
        (\<exists>m. run_all upgrade c = Some (beside c m) \<and> declares orm_classes m \<and>
           lifespan ms s (beside c m) = Inr (beside c m) \<and> run_all downgrade (beside c m) = Some c))"
proof -
  assume s: "validate_runtime s = Inr ()" and ms: "mset ms = mset orm_classes" "ordered_after [] ms"
    and c: "free_of c orm_classes" "distinct (map fst (cat_indexes c))"
  note plain = plain_order [OF ms(1) orm_plain]
  have tabs: "set (map orm_table ms) = set (map orm_table orm_classes)"
    using mset_eq_setD [OF ms(1)] by simp
  have keep: "lifespan ms s (beside c d) = Inr (beside c d)" if "declares orm_classes d" for d
  proof -
    have "set (map orm_table ms) \<subseteq> set (map fst (cat_tables (beside c d)))"
      using that unfolding declares_def tabs by (simp add: beside_def)
    from init_present [OF this] s show ?thesis by (simp add: lifespan_def start_up_def)
  qed
  have "free_of c ms" using c(1) free_order [OF ms(1)] by simp
  from init_fresh [OF ms(2) this plain c(2)] s
  have new: "lifespan ms s c = Inr (if is_production s then c else beside c (made ms))"
    by (simp add: lifespan_def start_up_def)
  have d: "declares orm_classes (made ms)"
    using made_declares [of ms] plain declares_order [OF ms(1)] by (simp add: plain_classes_def)
  have "\<exists>m. run_all upgrade c = Some (beside c m) \<and> declares orm_classes m \<and>
      lifespan ms s (beside c m) = Inr (beside c m) \<and> run_all downgrade (beside c m) = Some c"
    if "unrelated c (upgrade @ downgrade)"
    using migrated [OF that] keep by auto
  with d keep [OF d] new show ?thesis by blast
qed

theorem startup_schema_witness:
  "\<exists>d. declares orm_classes d \<and> lifespan migration_order default_settings no_tables = Inr (beside no_tables d)"
proof -
  have "validate_runtime default_settings = Inr ()" "free_of no_tables orm_classes"
    "distinct (map fst (cat_indexes no_tables))" "\<not> is_production default_settings"
    by (simp_all add: validate_runtime_def is_production_def default_settings_def free_of_def no_tables_def)
  from startup_schema [OF this(1) migration_order_fits this(2,3)] this(4) show ?thesis by auto
qed

end
