(* ===== verification/Logging.thy ===== *)
theory Logging
  imports Settings
begin

text \<open>
  Logging: \<open>configure_logging\<close> of \<open>app/core/logging.py\<close> as \<open>create_app\<close> calls it.  structlog's own
  processors and renderers are parameters; the chain is the code's.
\<close>

type_synonym fields = "(string \<times> json) list"

record log_library =
  lb_merge_contextvars :: "fields \<Rightarrow> fields \<Rightarrow> fields"
  lb_add_log_level :: "string \<Rightarrow> fields \<Rightarrow> fields"
  lb_time_stamper :: "fields \<Rightarrow> fields"
  lb_stack_info :: "fields \<Rightarrow> fields"
  lb_json :: "fields \<Rightarrow> string"
  lb_console :: "fields \<Rightarrow> string"

text \<open>The levels of Python's \<open>logging\<close>; a name it does not have counts as INFO.\<close>

definition level_numbers :: "(string \<times> int) list" where
  "level_numbers =
     [(''CRITICAL'', 50), (''FATAL'', 50), (''ERROR'', 40), (''WARNING'', 30), (''WARN'', 30), (''INFO'', 20),
      (''DEBUG'', 10), (''NOTSET'', 0)]"

definition numeric_level :: "string \<Rightarrow> int" where
  "numeric_level level = (case map_of level_numbers (py_upper level) of Some n \<Rightarrow> n | None \<Rightarrow> 20)"

definition log_chain :: "log_library \<Rightarrow> fields \<Rightarrow> string \<Rightarrow> fields \<Rightarrow> fields" where
  "log_chain L bound method event =
     lb_stack_info L (redact (lb_time_stamper L (lb_add_log_level L method (lb_merge_contextvars L bound event))))"

text \<open>A call of a logger: nothing below the level, else the rendered record.\<close>

definition log_line :: "log_library \<Rightarrow> string \<Rightarrow> bool \<Rightarrow> fields \<Rightarrow> string \<Rightarrow> fields \<Rightarrow> string option" where
  "log_line L level json_output bound method event =
     (if numeric_level method < numeric_level level then None
      else Some ((if json_output then lb_json L else lb_console L) (log_chain L bound method event)))"

definition app_log :: "log_library \<Rightarrow> settings \<Rightarrow> fields \<Rightarrow> string \<Rightarrow> fields \<Rightarrow> string option" where
  "app_log L s = log_line L (if st_debug s then ''DEBUG'' else ''INFO'') (is_production s)"

section \<open>Lemmas\<close>

lemma redact_covers: "(k, v) \<in> set (redact d) \<Longrightarrow> py_lower k \<in> set sensitive_keys \<Longrightarrow> v = JStr ''***redacted***''"
  by (auto simp: redact_def)

text \<open>
  Whatever is bound, no value under a sensitive key is rendered, if rendering the stack adds no
  such key; and a production deployment that starts renders no debugging.
\<close>

lemma chain_covers:
  assumes "\<And>d. set (lb_stack_info L d) \<subseteq> set d \<union> {''stack''} \<times> UNIV"
    and "(k, v) \<in> set (log_chain L bound method event)" "py_lower k \<in> set sensitive_keys"
  shows "v = JStr ''***redacted***''"
proof -
  have "py_lower ''stack'' \<notin> set sensitive_keys" by code_simp
  with assms(3) have "k \<noteq> ''stack''" by blast
  with assms(1,2) have "(k, v) \<in> set (redact (lb_time_stamper L (lb_add_log_level L method (lb_merge_contextvars L bound event))))"
    unfolding log_chain_def by blast
  then show ?thesis using assms(3) by (rule redact_covers)
qed

lemma production_quiet:
  "start_up s = Inr c \<Longrightarrow> is_production s \<Longrightarrow> app_log L s bound ''debug'' event = None"
proof -
  assume "start_up s = Inr c" "is_production s"
  then have "\<not> st_debug s" using validated [of s] by (auto simp: start_up_def bindE_Inr_iff)
  moreover have "numeric_level ''debug'' < numeric_level ''INFO''" by code_simp
  ultimately show ?thesis by (simp add: app_log_def log_line_def)
qed

text \<open>Only the top level is covered: a secret inside a bound dictionary is rendered.\<close>

lemma nested_secret_kept: "redact [(''user'', JObj [(''password'', JStr ''hunter2'')])] = [(''user'', JObj [(''password'', JStr ''hunter2'')])]"
  by code_simp

end
