(* ===== verification/Spec2Isabelle.thy ===== *)
theory Spec2Isabelle
  imports Logins Http Columns Scripts Startup Logging
begin

text \<open>
  A verification development of the cyber threat intelligence platform: a FastAPI service under
  \<open>src/app\<close> that takes in indicators of compromise (typed in, imported in bulk, extracted from
  documents or collected from threat feeds), classifies, enriches and scores them, stores and
  correlates them, raises alerts, and shares them as reports, STIX bundles and MISP events, behind
  accounts, tokens, API keys, roles and rate limits.  File names below are relative to \<open>src/app\<close>.

  \<^bold>\<open>How the parts interact.\<close>  A request meets the middleware (\<open>Http\<close>, with the proxy trust, the rate
  limiter and the response headers of \<open>Gateway\<close>), then the route its path names (\<open>Paths\<close>), which runs
  guard, validation and endpoint in one session (\<open>Routes\<close>).
  The guard asks the authentication service (\<open>Auth\<close>) for the principal and \<open>Rbac\<close> for its
  permissions.  An endpoint (\<open>Api\<close>) calls the services over the database (\<open>Store\<close>): the indicator
  service (\<open>Ioc\<close>) runs \<open>Indicators\<close>, \<open>Enrichment\<close>, \<open>Scoring\<close>, \<open>Correlation\<close> and \<open>Alerts\<close>, which
  publishes on the event bus (\<open>Events\<close>).  Requests to the outside - webhooks and feeds - pass the
  SSRF guard (\<open>Ssrf\<close>), feeds also the retry helper and the circuit breaker (\<open>Resilience\<close>).
  Background tasks (\<open>Workers\<close>) run the same services in sessions of their own.

  \<^bold>\<open>Conventions.\<close>  Pure functions are HOL functions of the same name.  A function that may raise
  returns \<open>exception + value\<close>, \<open>Inl\<close> being the raise (\<open>Errors\<close>).  A stateful operation maps a
  \<open>world\<close> - tables, count of ids drawn, event bus - to its result and the next world; \<open>unit_of_work\<close>
  and \<open>savepoint\<close> put the tables back when their body raises, as the session does, but neither the
  bus nor the counter.  Locks and concurrent callers appear where the code shares an object between
  them: the circuit breaker is a step relation.  Strings are lists of characters, dictionaries
  whose order shows are association lists, JSON is the datatype \<open>json\<close> of \<open>Prelude\<close>.

  \<^bold>\<open>Python's library.\<close>  \<open>Prelude\<close> (shared vocabulary and theorem collections), \<open>PyStr\<close> (methods of
  \<open>str\<close>), \<open>PyRegex\<close> (the fragment of \<open>re\<close> in use, as a backtracking matcher), \<open>PyNet\<close> (\<open>ipaddress\<close>
  and \<open>urllib.parse\<close>).

  \<^bold>\<open>Components\<close>, each with the files it models:

    \<^item> \<open>Errors\<close>: \<open>core/exceptions.py\<close>, the hierarchy with its status, code and message lookup.
    \<^item> \<open>IocTypes\<close>: \<open>ioc/types.py\<close>.  Values round trip; threat levels are a linear order.
    \<^item> \<open>Indicators\<close>: \<open>ioc/indicators.py\<close>.  What classification returns is well formed for its
      type; it looks through defanging and says exactly when it refuses.
    \<^item> \<open>Extract\<close>: \<open>ioc/extract.py\<close>.  Extraction from text, CSV and STIX: each result comes from
      the document, is well formed, and appears once.
    \<^item> \<open>Scoring\<close>: \<open>scoring/engine.py\<close>.  Bounds, monotonicity in every signal, and the explanation
      adds up to the score.
    \<^item> \<open>Resilience\<close>: \<open>core/resilience.py\<close>.  The breaker over interleaved callers (an open one lets
      no call through, one probe at a time, recovery), and the retry loop.
    \<^item> \<open>Rbac\<close>, \<open>Throttle\<close>, \<open>TokenStore\<close>: \<open>security/rbac.py\<close>, \<open>throttle.py\<close>, \<open>token_store.py\<close>.  Both
      throttles meet one contract (the locale \<open>login_throttle\<close>), whatever Redis answers; the store in
      memory meets that of \<open>token_store\<close>.
    \<^item> \<open>Gateway\<close>: \<open>api/client_ip.py\<close>, \<open>api/middleware.py\<close>, \<open>api/errors.py\<close>.  Addresses that cannot
      be spoofed, and the limit of the limiter on any window (for whole requests in \<open>Http\<close>).
    \<^item> \<open>Ssrf\<close>: \<open>core/ssrf.py\<close>.  What is admitted resolves to public addresses only, what is refused
      and why, and the public IPv4 addresses as an explicit set.
    \<^item> \<open>Events\<close>: \<open>core/events.py\<close>.  The bounded queues refine an unbounded log.
    \<^item> \<open>Store\<close>: \<open>models\<close>, \<open>database/session.py\<close>, \<open>repositories\<close>.  Rows, unique keys, column widths,
      units of work, the audit trail; the calculus of preserved invariants (\<open>preserves\<close>).
    \<^item> \<open>Credentials\<close>: \<open>security/tokens.py\<close>, \<open>crypto.py\<close>, \<open>api_keys.py\<close>.  Tokens
      decode to what was issued, secrets survive key rotation.
    \<^item> \<open>Auth\<close>, \<open>AuthProps\<close>: \<open>services/auth_service.py\<close>, its repositories, the authentication part
      of \<open>api/deps.py\<close>, \<open>scripts/create_admin.py\<close>.  Failed logins, single use of refresh tokens,
      principals backed by a live account.
    \<^item> \<open>Enrichment\<close>, \<open>Correlation\<close>, \<open>Alerts\<close>: \<open>enrichment\<close>, \<open>correlation/graph.py\<close> with its service
      and repository, \<open>services/alert_service.py\<close>.
    \<^item> \<open>Collectors\<close>: \<open>collectors\<close>.  Every normaliser and the contract of a run.
    \<^item> \<open>Ioc\<close>, \<open>IocProps\<close>: \<open>services/ioc_service.py\<close>.  Unique and explained rows, batches whose items
      cannot disturb each other, lookup after submission.
    \<^item> \<open>Search\<close>: \<open>repositories/ioc_repository.py\<close>.  A search term is read literally; pages partition
      the result.
    \<^item> \<open>Actors\<close>: \<open>services/threat_actor_service.py\<close>.
    \<^item> \<open>Settings\<close>: \<open>config/settings.py\<close>, the throttle, store, token service, authentication service and
      engine options it leads to, \<open>main.py\<close>.  What a production start-up rules out.
    \<^item> \<open>Logging\<close>: \<open>core/logging.py\<close>, the chain of processors.  No value under a sensitive key is
      rendered, at the top level.
    \<^item> \<open>Scripts\<close>: \<open>scripts/gen_keys.py\<close> and the command of \<open>scripts/create_admin.py\<close>, with Python's
      \<open>secrets.token_urlsafe\<close> over bytes as words of eight bits.  Printed secrets work and lose none
      of the bytes drawn for them.
    \<^item> \<open>Sharing\<close>, \<open>Reports\<close>: \<open>sharing/stix.py\<close>, \<open>sharing/misp.py\<close>, \<open>services/report_service.py\<close>.
      An exported STIX pattern is imported as the same indicator; no CSV cell starts a formula and
      the file reads back as its rows.
    \<^item> \<open>Schemas\<close>, \<open>Api\<close>, \<open>Routes\<close>: \<open>schemas\<close>, \<open>api/v1\<close>, the factories of \<open>api/deps.py\<close>.  A request
      is a value of \<open>api_call\<close>; \<open>guard_of\<close> reads the guard off the \<open>Depends\<close> of the route's
      decorator or signature, \<open>valid_call\<close> the declared constraints, \<open>run_call\<close> runs the whole.
    \<^item> \<open>Paths\<close>, \<open>Http\<close>: the routers of \<open>api/v1\<close>, each a table of what its decorators declare (path,
      guard, status) - no route shadows another, and \<open>guard_of\<close> and \<open>success_status\<close> are those of the
      tables - and the stack of \<open>main.py\<close>: what every answer carries, what a refused request touches,
      and the rate limit over any sequence of requests.
    \<^item> \<open>Workers\<close>: \<open>workers/tasks.py\<close>, \<open>workers/celery_app.py\<close>; \<open>history\<close> runs any sequence of
      requests and tasks.
    \<^item> \<open>Migration\<close>: \<open>alembic/versions/0001_initial.py\<close> and the ORM classes of \<open>models\<close>.  The upgrade
      succeeds beside any unrelated tables and makes what the classes declare, and the downgrade
      removes it.
    \<^item> \<open>Process\<close>, \<open>Startup\<close>: \<open>database/session.py\<close>, \<open>_run\<close> of \<open>workers/tasks.py\<close>, \<open>lifespan\<close> of
      \<open>main.py\<close>.  No task uses what another event loop made; start-up and migration make the same
      schema, and starting again changes nothing.
    \<^item> \<open>Columns\<close>: the insertions of \<open>Store\<close> compare the widths of \<open>Migration\<close>; what the request models
      admit fits them, but for the defanged form of an indicator.

  \<^bold>\<open>Composition.\<close>  \<open>Frames\<close> states which tables the operations of a component may change as locales
  (\<open>admits_audits\<close>, \<open>blind_keys\<close>, \<open>blind_accounts\<close>, \<open>blind_alerts\<close>, \<open>blind_rules\<close>, \<open>blind_actors\<close>,
  \<open>admits_edges\<close>, \<open>blind_indicators\<close>) and interprets them on the invariants of the other components
  (\<open>accounts\<close>, \<open>store\<close>, \<open>graph\<close>, \<open>actor\<close>, \<open>trail\<close>), so a component's invariant is proved against its
  own operations only.  \<open>ApiProps\<close> then proves, of every request and every history: access control,
  that reading requests change nothing, that the invariants of all tables hold together, that the
  audit trail only grows, and that stored indicators can always be served.  \<open>Sessions\<close> does the same
  for the state beside the tables: the locales \<open>beside_tables\<close> and \<open>beside_auth\<close> hold for any property
  that does not read the tables, so all operations but a login leave the throttle alone and all but
  a refresh and a logout the revocations; hence a spent token stays dead through any history, and
  (\<open>Logins\<close>, with the locale \<open>shared_throttle\<close> interpreted on the throttle the settings choose) the
  number of passwords that can be tried against an address stays bounded.

  \<^bold>\<open>Bounds.\<close>  No definition uses fuel.  The matcher of \<open>PyRegex\<close> and the scanners of \<open>PyStr\<close> and
  \<open>Search\<close> terminate by measures on the text left; the retry loop recurses on the attempts left.
  Floats are real numbers, so rounding is that of exact arithmetic.  Times are real numbers of
  seconds, stored times UTC.  Case mapping and character classes are those of ASCII where Python's
  are those of Unicode.  Column widths are enforced or not by a flag of \<open>env\<close>, as PostgreSQL and
  SQLite differ.

  \<^bold>\<open>Parameters\<close> (code that is not in the repository, with the documented behaviour a theorem relies
  on as its hypothesis): PyJWT, Fernet, Argon2, SHA-256, the Redis server, name resolution, the HTTP
  client and the answers of feeds, feedparser, networkx, \<open>json.dumps\<close> and \<open>json.loads\<close>,
  \<open>csv.reader\<close> with \<open>csv.Sniffer\<close>, UUIDs and the texts of times, \<open>EmailStr\<close>'s rule.

  \<^bold>\<open>Not modelled.\<close>  SQLAlchemy's engine, pool and flush order, and isolation between concurrent
  sessions (a request or task runs alone on the tables); FastAPI's routing and JSON parsing, the
  transport of the event stream, CORS; pydantic-settings' reading of the environment; structlog's processors and sinks;
  the Celery broker and Celery's own settings; \<open>alembic/env.py\<close>, which wires the migration library to
  the settings; the dashboard's HTML; the package initialisers, which only re-export names.
\<close>

end
